(* ===== verification/Prelude.thy ===== *)
theory Prelude
  imports Complex_Main "HOL-Library.Word"
begin

text \<open>
  Shared ground of the development: the names of the model's basic types, the exceptions the
  Python code lets escape, the theorem collections, and generic facts about lists of rows
  (lookup, update and append by primary key) that every table of the database uses.
\<close>

section \<open>Basic types\<close>

text \<open>
  A UUID is an unsigned 128-bit number: PostgreSQL orders the type bytewise, which is the order
  of the words. An instant is a number of microseconds since 1970-01-01T00:00Z, the resolution of
  \<^verbatim>\<open>timestamptz\<close> and of \<^verbatim>\<open>datetime\<close>. A Python \<^verbatim>\<open>str\<close> is a \<^typ>\<open>string\<close> where the code only
  handles ASCII text, and a list of code points where arbitrary Unicode text flows through.
\<close>

type_synonym uuid = "128 word"
type_synonym time = int
type_synonym bytes = "8 word list"
type_synonym utext = "nat list"

text \<open>A string literal as a list of code points.\<close>

definition ucode :: "string \<Rightarrow> utext" where
  "ucode s = map of_char s"

lemma ucode_inj: "ucode s = ucode t \<Longrightarrow> s = t"
  by (auto simp: ucode_def inj_def intro: map_injective)

lemma ucode_simps [simp]:
  "ucode [] = []" "ucode (c # s) = of_char c # ucode s" "ucode (s @ t) = ucode s @ ucode t"
  "length (ucode s) = length s" "ucode s = [] \<longleftrightarrow> s = []"
  by (auto simp: ucode_def)

definition seconds :: "int \<Rightarrow> time" where
  "seconds s = s * 1000000"

section \<open>Exceptions\<close>

text \<open>The exceptions that escape a function of the code, and the errors a route answers with.\<close>

datatype py_exc =
    InvalidToken | SSRFError string | ValueError string | OverflowError | ZeroDivisionError
  | AttributeError | IntegrityError | StaleDataError | NoResultFound | MultipleResultsFound
  | DataError | TypeError | InvalidOperation | UnicodeDecodeError | KeyError string | IndexError | LookupError uuid | HTTPException int string

section \<open>Theorem collections\<close>

named_theorems row_simps "what a table operation leaves unchanged, and what a lookup finds after it"
named_theorems defs "definitions of the operations a component's proofs unfold"

section \<open>Sums and options\<close>

definition bind_exc :: "'e + 'a \<Rightarrow> ('a \<Rightarrow> 'e + 'b) \<Rightarrow> 'e + 'b" where
  "bind_exc r f = (case r of Inl e \<Rightarrow> Inl e | Inr x \<Rightarrow> f x)"

lemma bind_exc_simps [simp]:
  "bind_exc (Inl e) f = Inl e" "bind_exc (Inr x) f = f x"
  by (simp_all add: bind_exc_def)

lemma bind_exc_Inr: "bind_exc r f = Inr y \<longleftrightarrow> (\<exists>x. r = Inr x \<and> f x = Inr y)"
  by (cases r) auto

section \<open>Rows and primary keys\<close>

text \<open>
  A table is the list of its rows in the order of insertion. \<^term>\<open>find_pk\<close> is a lookup by
  primary key (\<^verbatim>\<open>scalar_one_or_none\<close> over a unique column), \<^term>\<open>put_pk\<close> the UPDATE that
  overwrites the row with the new row's key.
\<close>

definition find_pk :: "('r \<Rightarrow> 'k) \<Rightarrow> 'k \<Rightarrow> 'r list \<Rightarrow> 'r option" where
  "find_pk pk k rs = find (\<lambda>r. pk r = k) rs"

definition put_pk :: "('r \<Rightarrow> 'k) \<Rightarrow> 'r \<Rightarrow> 'r list \<Rightarrow> 'r list" where
  "put_pk pk r rs = map (\<lambda>x. if pk x = pk r then r else x) rs"

definition del_pk :: "('r \<Rightarrow> 'k) \<Rightarrow> 'k \<Rightarrow> 'r list \<Rightarrow> 'r list" where
  "del_pk pk k rs = filter (\<lambda>x. pk x \<noteq> k) rs"

lemma find_pk_code [simp]:
  "find_pk pk k [] = None"
  "find_pk pk k (r # rs) = (if pk r = k then Some r else find_pk pk k rs)"
  by (simp_all add: find_pk_def)

lemma find_pk_Some:
  assumes "find_pk pk k rs = Some r"
  shows "pk r = k" and "r \<in> set rs"
  using assms by (induction rs) (auto split: if_splits)

lemma find_pk_None: "find_pk pk k rs = None \<longleftrightarrow> k \<notin> pk ` set rs"
  by (induction rs) auto

lemma find_pk_unique:
  "distinct (map pk rs) \<Longrightarrow> r \<in> set rs \<Longrightarrow> find_pk pk (pk r) rs = Some r"
  by (induction rs) (auto dest: rev_image_eqI)

lemma find_pk_inj:
  "distinct (map pk rs) \<Longrightarrow> find_pk pk k rs = Some r \<Longrightarrow> x \<in> set rs \<Longrightarrow> pk x = k \<Longrightarrow> x = r"
  using find_pk_unique by fastforce

lemma find_pk_append:
  "find_pk pk k (xs @ ys) = (case find_pk pk k xs of None \<Rightarrow> find_pk pk k ys | Some r \<Rightarrow> Some r)"
  by (induction xs) auto

lemma put_pk_code [simp]:
  "put_pk pk r [] = []"
  "put_pk pk r (x # xs) = (if pk x = pk r then r else x) # put_pk pk r xs"
  by (simp_all add: put_pk_def)

lemma map_put_pk:
  assumes "\<And>x. x \<in> set rs \<Longrightarrow> pk x = pk r \<Longrightarrow> f r = f x"
  shows "map f (put_pk pk r rs) = map f rs"
  using assms by (induction rs) simp_all

lemma map_pk_put_pk [row_simps]: "map pk (put_pk pk r rs) = map pk rs"
  by (simp add: put_pk_def)

lemma length_put_pk [row_simps]: "length (put_pk pk r rs) = length rs"
  by (simp add: put_pk_def)

lemma find_put_same [row_simps]:
  "find_pk pk (pk r) (put_pk pk r rs) = (if pk r \<in> pk ` set rs then Some r else None)"
  by (induction rs) auto

lemma find_put_other [row_simps]:
  "k \<noteq> pk r \<Longrightarrow> find_pk pk k (put_pk pk r rs) = find_pk pk k rs"
  by (induction rs) auto

lemma set_put_pk:
  "x \<in> set (put_pk pk r rs) \<Longrightarrow> x = r \<or> (x \<in> set rs \<and> pk x \<noteq> pk r)"
  by (auto simp: put_pk_def)

lemma put_pk_mem: "x \<in> set rs \<Longrightarrow> pk x \<noteq> pk r \<Longrightarrow> x \<in> set (put_pk pk r rs)"
  by (auto simp: put_pk_def image_iff)

lemma put_pk_self_mem: "pk r \<in> pk ` set rs \<Longrightarrow> r \<in> set (put_pk pk r rs)"
  by (auto simp: put_pk_def image_iff)

lemma put_pk_comm:
  "pk a \<noteq> pk b \<Longrightarrow> put_pk pk a (put_pk pk b rs) = put_pk pk b (put_pk pk a rs)"
  by (auto simp: put_pk_def)

lemma find_del_pk [row_simps]:
  "find_pk pk k (del_pk pk k' rs) = (if k = k' then None else find_pk pk k rs)"
  by (induction rs) (auto simp: del_pk_def)

section \<open>The table interface\<close>

text \<open>
  What every component relies on when it reads and writes a table of the database: the table is
  a field of the database that can be read and replaced, and its rows carry a primary key. The
  facts below are proved once here and hold for each table through its interpretation.
\<close>

locale table =
  fixes rows :: "'d \<Rightarrow> 'r list"
    and set_rows :: "'r list \<Rightarrow> 'd \<Rightarrow> 'd"
    and pk :: "'r \<Rightarrow> 'k"
  assumes rows_set: "rows (set_rows rs d) = rs"
    and set_set: "set_rows rs (set_rows rs' d) = set_rows rs d"
    and set_same: "set_rows (rows d) d = d"
begin

definition keys_ok :: "'d \<Rightarrow> bool" where
  "keys_ok d \<longleftrightarrow> distinct (map pk (rows d))"

lemma keys_ok_put: "keys_ok (set_rows (put_pk pk r (rows d)) d) = keys_ok d"
  by (simp add: keys_ok_def rows_set map_pk_put_pk)

lemma keys_ok_insert:
  "keys_ok d \<Longrightarrow> pk r \<notin> pk ` set (rows d) \<Longrightarrow> keys_ok (set_rows (rows d @ [r]) d)"
  by (simp add: keys_ok_def rows_set)

lemma keys_ok_delete: "keys_ok d \<Longrightarrow> keys_ok (set_rows (del_pk pk k (rows d)) d)"
  by (auto simp: keys_ok_def rows_set del_pk_def distinct_map inj_on_def)

lemma lookup_after_put:
  "r0 \<in> set (rows d) \<Longrightarrow> pk r0 = pk r \<Longrightarrow>
   find_pk pk (pk r) (rows (set_rows (put_pk pk r (rows d)) d)) = Some r"
  using find_put_same [of pk r "rows d"] by (simp add: rows_set rev_image_eqI)

lemma lookup_after_insert:
  "pk r \<notin> pk ` set (rows d) \<Longrightarrow>
   find_pk pk (pk r) (rows (set_rows (rows d @ [r]) d)) = Some r"
proof -
  assume "pk r \<notin> pk ` set (rows d)"
  then have "find_pk pk (pk r) (rows d) = None"
    by (simp add: find_pk_None)
  then show ?thesis
    by (simp add: rows_set find_pk_append)
qed

lemma lookup_row: "keys_ok d \<Longrightarrow> r \<in> set (rows d) \<Longrightarrow> find_pk pk (pk r) (rows d) = Some r"
  by (simp add: keys_ok_def find_pk_unique)

end

section \<open>Transition systems\<close>

text \<open>
  The contract of a component that is a state machine: initial states, steps, and an invariant
  that the initial states satisfy and every step keeps. It holds in every reachable state and
  along every run.
\<close>

locale invariant_system =
  fixes init :: "'s \<Rightarrow> bool"
    and step :: "'s \<Rightarrow> 's \<Rightarrow> bool"
    and inv :: "'s \<Rightarrow> bool"
  assumes inv_init: "init s \<Longrightarrow> inv s"
    and inv_step: "step s t \<Longrightarrow> inv s \<Longrightarrow> inv t"
begin

lemma inv_rtranclp: "step\<^sup>*\<^sup>* s t \<Longrightarrow> inv s \<Longrightarrow> inv t"
  by (induction rule: rtranclp_induct) (auto intro: inv_step)

lemma inv_reachable: "init s \<Longrightarrow> step\<^sup>*\<^sup>* s t \<Longrightarrow> inv t"
  by (blast intro: inv_rtranclp inv_init)

end

section \<open>Lists\<close>

lemma filter_sort_key_comm: "filter P (sort_key f xs) = sort_key f (filter P xs)"
  by (rule filter_sort)

lemma take_subset: "x \<in> set (take n xs) \<Longrightarrow> x \<in> set xs"
  by (rule in_set_takeD)

lemma distinct_map_filter: "distinct (map f xs) \<Longrightarrow> distinct (map f (filter P xs))"
  by (induction xs) auto

lemma distinct_map_take: "distinct (map f xs) \<Longrightarrow> distinct (map f (take n xs))"
  by (simp add: take_map [symmetric])

lemma sorted_take_le_drop:
  assumes "sorted (map f xs)" "x \<in> set (take n xs)" "y \<in> set (drop n xs)"
  shows "f x \<le> f y"
proof -
  have "sorted (map f (take n xs @ drop n xs))"
    using assms(1) by simp
  then show ?thesis
    using assms(2,3) unfolding map_append sorted_append by fastforce
qed

end
