(* ===== verification/Py_Strings.thy ===== *)
theory Py_Strings
  imports Prelude
begin

text \<open>
  The operations of Python's \<^verbatim>\<open>str\<close> and \<^verbatim>\<open>int\<close> the code calls, on strings whose characters
  are the code points below 256: \<^verbatim>\<open>strip\<close>, \<^verbatim>\<open>split\<close>, \<^verbatim>\<open>partition\<close>, \<^verbatim>\<open>rpartition\<close>,
  \<^verbatim>\<open>lower\<close>, \<^verbatim>\<open>startswith\<close>, \<^verbatim>\<open>str(n)\<close> and \<^verbatim>\<open>int(s)\<close>, and the UTF-8 encoding.
\<close>

section \<open>Characters\<close>

definition code :: "char \<Rightarrow> nat" where
  "code c = of_char c"

definition is_space :: "char \<Rightarrow> bool" where
  "is_space c \<longleftrightarrow> (let n = code c in (9 \<le> n \<and> n \<le> 13) \<or> (28 \<le> n \<and> n \<le> 32) \<or> n = 133 \<or> n = 160)"

definition is_digit :: "char \<Rightarrow> bool" where
  "is_digit c \<longleftrightarrow> 48 \<le> code c \<and> code c \<le> 57"

definition digit :: "nat \<Rightarrow> char" where
  "digit n = char_of (48 + n)"

definition lower_char :: "char \<Rightarrow> char" where
  "lower_char c = (let n = code c in
     if (65 \<le> n \<and> n \<le> 90) \<or> (192 \<le> n \<and> n \<le> 222 \<and> n \<noteq> 215) then char_of (n + 32) else c)"

lemma code_digit [simp]: "n < 10 \<Longrightarrow> code (digit n) = 48 + n"
  by (simp add: code_def digit_def of_char_of)

lemma is_digit_digit [simp]: "n < 10 \<Longrightarrow> is_digit (digit n)"
  by (simp add: is_digit_def)

lemma digit_not_space: "is_digit c \<Longrightarrow> \<not> is_space c"
  by (simp add: is_digit_def is_space_def Let_def)

section \<open>Strings\<close>

definition strip :: "string \<Rightarrow> string" where
  "strip s = rev (dropWhile is_space (rev (dropWhile is_space s)))"

fun split_on :: "char \<Rightarrow> string \<Rightarrow> string list" where
  "split_on c [] = [[]]"
| "split_on c (x # xs) =
     (if x = c then [] # split_on c xs
      else (x # hd (split_on c xs)) # tl (split_on c xs))"

definition partition_on :: "char \<Rightarrow> string \<Rightarrow> string \<times> bool \<times> string" where
  "partition_on c s = (takeWhile (\<lambda>x. x \<noteq> c) s, c \<in> set s, drop 1 (dropWhile (\<lambda>x. x \<noteq> c) s))"

text \<open>\<^verbatim>\<open>s.rpartition(c)[2]\<close>: what follows the last \<open>c\<close>, all of \<open>s\<close> if there is none.\<close>

definition after_last :: "char \<Rightarrow> string \<Rightarrow> string" where
  "after_last c s = rev (takeWhile (\<lambda>x. x \<noteq> c) (rev s))"

definition lower :: "string \<Rightarrow> string" where
  "lower s = map lower_char s"

definition starts_with :: "string \<Rightarrow> string \<Rightarrow> bool" where
  "starts_with p s \<longleftrightarrow> take (length p) s = p"

definition rstrip_char :: "char \<Rightarrow> string \<Rightarrow> string" where
  "rstrip_char c s = rev (dropWhile (\<lambda>x. x = c) (rev s))"

lemma split_on_not_Nil [simp]: "split_on c s \<noteq> []"
  by (induction s) auto

lemma split_on_none: "c \<notin> set s \<Longrightarrow> split_on c s = [s]"
  by (induction s) auto

lemma split_on_append: "c \<notin> set s \<Longrightarrow> split_on c (s @ c # t) = s # split_on c t"
  by (induction s) auto

lemma partition_on_append: "c \<notin> set s \<Longrightarrow> partition_on c (s @ c # t) = (s, True, t)"
  by (induction s) (auto simp: partition_on_def)

lemma partition_on_none: "c \<notin> set s \<Longrightarrow> partition_on c s = (s, False, [])"
  by (induction s) (auto simp: partition_on_def)

lemma after_last_none: "c \<notin> set s \<Longrightarrow> after_last c s = s"
proof -
  assume "c \<notin> set s"
  then have "takeWhile (\<lambda>x. x \<noteq> c) (rev s) = rev s"
    by (subst takeWhile_eq_all_conv) auto
  then show ?thesis
    unfolding after_last_def by (simp only: rev_rev_ident)
qed

lemma dropWhile_none: "(\<And>x. x \<in> set xs \<Longrightarrow> \<not> P x) \<Longrightarrow> dropWhile P xs = xs"
  by (cases xs) auto

lemma strip_id: "(\<And>c. c \<in> set s \<Longrightarrow> \<not> is_space c) \<Longrightarrow> strip s = s"
  unfolding strip_def by (subst dropWhile_none; simp add: dropWhile_none)

lemma starts_with_append [simp]: "starts_with p (p @ s)"
  by (simp add: starts_with_def)

section \<open>Decimal integers\<close>

fun show_nat :: "nat \<Rightarrow> string" where
  "show_nat n = (if n < 10 then [digit n] else show_nat (n div 10) @ [digit (n mod 10)])"

declare show_nat.simps [simp del]

definition show_int :: "int \<Rightarrow> string" where
  "show_int i = (if i < 0 then CHR ''-'' # show_nat (nat (- i)) else show_nat (nat i))"

definition digits_value :: "string \<Rightarrow> nat" where
  "digits_value s = foldl (\<lambda>a c. 10 * a + (code c - 48)) 0 s"

text \<open>
  The digits of \<^verbatim>\<open>int(s)\<close>: at least one digit, single underscores only between digits. Python
  refuses more than 4300 digits.
\<close>

fun int_digits_ok :: "bool \<Rightarrow> string \<Rightarrow> bool" where
  "int_digits_ok p [] = p"
| "int_digits_ok p (c # s) =
     (if is_digit c then int_digits_ok True s
      else c = CHR ''_'' \<and> p \<and> int_digits_ok False s)"

definition parse_digits :: "string \<Rightarrow> nat option" where
  "parse_digits s =
     (if int_digits_ok False s \<and> length (filter is_digit s) \<le> 4300
      then Some (digits_value (filter is_digit s)) else None)"

definition parse_int :: "string \<Rightarrow> int option" where
  "parse_int s =
     (case strip s of
        [] \<Rightarrow> None
      | c # r \<Rightarrow>
          if c = CHR ''-'' then map_option (\<lambda>n. - int n) (parse_digits r)
          else if c = CHR ''+'' then map_option int (parse_digits r)
          else map_option int (parse_digits (c # r)))"

lemma show_nat_not_Nil [simp]: "show_nat n \<noteq> []"
  by (subst show_nat.simps) simp

lemma show_nat_digits: "\<forall>c \<in> set (show_nat n). is_digit c"
proof (induction n rule: show_nat.induct)
  case (1 n)
  show ?case
  proof (cases "n < 10")
    case True
    then show ?thesis by (subst show_nat.simps) simp
  next
    case False
    with 1 show ?thesis by (subst show_nat.simps) auto
  qed
qed

lemma digits_value_show_nat: "digits_value (show_nat n) = n"
proof (induction n rule: show_nat.induct)
  case (1 n)
  show ?case
  proof (cases "n < 10")
    case True
    then show ?thesis by (subst show_nat.simps) (simp add: digits_value_def)
  next
    case False
    with 1 show ?thesis
      by (subst show_nat.simps) (simp add: digits_value_def)
  qed
qed

lemma length_show_nat: "n < 10 ^ Suc k \<Longrightarrow> length (show_nat n) \<le> Suc k"
proof (induction k arbitrary: n)
  case 0
  then show ?case by (subst show_nat.simps) simp
next
  case (Suc k)
  then have "n div 10 < 10 ^ Suc k"
    by (simp add: less_mult_imp_div_less mult.commute)
  with Suc.IH show ?case by (subst show_nat.simps) simp
qed

lemma int_digits_ok_all: "s \<noteq> [] \<or> p \<Longrightarrow> \<forall>c \<in> set s. is_digit c \<Longrightarrow> int_digits_ok p s"
  by (induction s arbitrary: p) auto

lemma parse_digits_show_nat:
  assumes "length (show_nat n) \<le> 4300"
  shows "parse_digits (show_nat n) = Some n"
proof -
  have "filter is_digit (show_nat n) = show_nat n"
    using show_nat_digits by (simp add: filter_id_conv)
  then show ?thesis
    using assms show_nat_digits [of n]
    by (simp add: parse_digits_def int_digits_ok_all digits_value_show_nat)
qed

text \<open>An integer of fewer than 20 digits reads back as itself.\<close>

lemma parse_int_show_int:
  assumes "\<bar>i\<bar> < 2 ^ 64"
  shows "parse_int (show_int i) = Some i"
proof -
  let ?n = "nat \<bar>i\<bar>"
  have "?n < 10 ^ Suc 19"
    using assms by simp
  then have d: "parse_digits (show_nat ?n) = Some ?n"
    using length_show_nat [of ?n 19] by (intro parse_digits_show_nat) simp
  have ns: "\<forall>c \<in> set (show_nat ?n). \<not> is_space c"
    using show_nat_digits digit_not_space by blast
  obtain c s where cs: "show_nat ?n = c # s"
    by (cases "show_nat ?n") auto
  with show_nat_digits [of ?n] have c: "is_digit c"
    by simp
  then have c': "c \<noteq> CHR ''-''" "c \<noteq> CHR ''+''"
    by (auto simp: is_digit_def code_def)
  have minus: "\<not> is_space CHR ''-''"
    by (simp add: is_space_def code_def)
  show ?thesis
  proof (cases "i < 0")
    case True
    then have "show_int i = CHR ''-'' # show_nat ?n"
      by (simp add: show_int_def)
    moreover have "strip (CHR ''-'' # show_nat ?n) = CHR ''-'' # show_nat ?n"
      using ns minus by (intro strip_id) auto
    ultimately show ?thesis
      using d True by (simp add: parse_int_def)
  next
    case False
    then have "show_int i = show_nat ?n"
      by (simp add: show_int_def)
    moreover have "strip (show_nat ?n) = show_nat ?n"
      using ns by (intro strip_id) auto
    ultimately show ?thesis
      using d False cs c' by (simp add: parse_int_def)
  qed
qed

lemma show_int_chars: "c \<in> set (show_int i) \<Longrightarrow> is_digit c \<or> c = CHR ''-''"
  using show_nat_digits by (auto simp: show_int_def split: if_splits)

lemma show_int_not_Nil [simp]: "show_int i \<noteq> []"
  by (simp add: show_int_def)

section \<open>Bytes\<close>

text \<open>\<^verbatim>\<open>str.encode()\<close>: the UTF-8 encoding of one code point and of a text.\<close>

definition utf8_point :: "nat \<Rightarrow> bytes" where
  "utf8_point n =
     (if n < 128 then [of_nat n]
      else if n < 2048 then [of_nat (192 + n div 64), of_nat (128 + n mod 64)]
      else if n < 65536 then
        [of_nat (224 + n div 4096), of_nat (128 + n div 64 mod 64), of_nat (128 + n mod 64)]
      else [of_nat (240 + n div 262144), of_nat (128 + n div 4096 mod 64),
            of_nat (128 + n div 64 mod 64), of_nat (128 + n mod 64)])"

definition encode :: "string \<Rightarrow> bytes" where
  "encode s = concat (map (utf8_point \<circ> code) s)"

definition hex_digit :: "nat \<Rightarrow> char" where
  "hex_digit n = (if n < 10 then char_of (48 + n) else char_of (87 + n))"

definition hex_byte :: "8 word \<Rightarrow> string" where
  "hex_byte b = [hex_digit (unat b div 16), hex_digit (unat b mod 16)]"

definition hexlify :: "bytes \<Rightarrow> string" where
  "hexlify bs = concat (map hex_byte bs)"

lemma length_hexlify [simp]: "length (hexlify bs) = 2 * length bs"
  by (induction bs) (auto simp: hexlify_def hex_byte_def)

lemma encode_append [simp]: "encode (s @ t) = encode s @ encode t"
  by (simp add: encode_def)

lemma encode_Nil [simp]: "encode [] = []"
  by (simp add: encode_def)

lemma hex_digit_chars: "n < 16 \<Longrightarrow> \<not> is_space (hex_digit n) \<and> hex_digit n \<noteq> CHR '','' \<and> hex_digit n \<noteq> CHR ''=''"
proof -
  assume "n < 16"
  then have "code (hex_digit n) = (if n < 10 then 48 + n else 87 + n)"
    by (simp add: hex_digit_def code_def of_char_of)
  with \<open>n < 16\<close> have c: "48 \<le> code (hex_digit n) \<and> code (hex_digit n) < 103 \<and> code (hex_digit n) \<noteq> 61"
    by auto
  then show ?thesis
    by (auto simp: is_space_def Let_def code_def)
qed

lemma hexlify_chars:
  "c \<in> set (hexlify bs) \<Longrightarrow> \<not> is_space c \<and> c \<noteq> CHR '','' \<and> c \<noteq> CHR ''=''"
proof -
  assume "c \<in> set (hexlify bs)"
  then obtain b where "b \<in> set bs" "c \<in> set (hex_byte b)"
    by (auto simp: hexlify_def)
  moreover have "unat b div 16 < 16"
    using unsigned_less [of b, where 'a = nat] by simp
  ultimately show ?thesis
    using hex_digit_chars [of "unat b div 16"] hex_digit_chars [of "unat b mod 16"]
    by (auto simp: hex_byte_def)
qed

end
