(* ===== verification/Json.thy ===== *)
theory Json
  imports Py_Strings "HOL-Library.List_Lexorder"
begin

text \<open>
  JSON documents as the code builds them and \<^verbatim>\<open>json.dumps\<close> as it calls it: with the compact or
  the default separators, with \<^verbatim>\<open>ensure_ascii\<close>, and with \<^verbatim>\<open>sort_keys\<close> for the canonical body
  that is hashed. A Python dict is an association list in insertion order; a float is carried by the
  text \<^verbatim>\<open>float.__repr__\<close> prints for it.
\<close>

datatype json =
    JNull | JBool bool | JInt int | JFloat string | JStr utext
  | JArr "json list" | JObj "(utext \<times> json) list"

type_synonym payload = "(utext \<times> json) list"

definition get_item :: "payload \<Rightarrow> string \<Rightarrow> json option" where
  "get_item p k = map_of p (ucode k)"

section \<open>Printing\<close>

fun join :: "string \<Rightarrow> string list \<Rightarrow> string" where
  "join sep [] = []"
| "join sep [x] = x"
| "join sep (x # y # ys) = x @ sep @ join sep (y # ys)"

definition hex4 :: "nat \<Rightarrow> string" where
  "hex4 n = map hex_digit [n div 4096 mod 16, n div 256 mod 16, n div 16 mod 16, n mod 16]"

definition json_escape :: "nat \<Rightarrow> string" where
  "json_escape n =
     (if n = 34 then [char_of (92::nat), char_of (34::nat)]
      else if n = 92 then [char_of (92::nat), char_of (92::nat)]
      else if n = 10 then [char_of (92::nat), CHR ''n'']
      else if n = 13 then [char_of (92::nat), CHR ''r'']
      else if n = 9 then [char_of (92::nat), CHR ''t'']
      else if n = 12 then [char_of (92::nat), CHR ''f'']
      else if n = 8 then [char_of (92::nat), CHR ''b'']
      else if 32 \<le> n \<and> n \<le> 126 then [char_of n]
      else if n < 65536 then [char_of (92::nat), CHR ''u''] @ hex4 n
      else (let m = n - 65536 in
        [char_of (92::nat), CHR ''u''] @ hex4 (55296 + m div 1024)
        @ [char_of (92::nat), CHR ''u''] @ hex4 (56320 + m mod 1024)))"

definition json_string :: "utext \<Rightarrow> string" where
  "json_string s = [char_of (34::nat)] @ concat (map json_escape s) @ [char_of (34::nat)]"

fun dumps :: "string \<Rightarrow> string \<Rightarrow> json \<Rightarrow> string" where
  "dumps isep ksep JNull = ''null''"
| "dumps isep ksep (JBool b) = (if b then ''true'' else ''false'')"
| "dumps isep ksep (JInt i) = show_int i"
| "dumps isep ksep (JFloat r) = r"
| "dumps isep ksep (JStr s) = json_string s"
| "dumps isep ksep (JArr xs) = ''['' @ join isep (map (dumps isep ksep) xs) @ '']''"
| "dumps isep ksep (JObj kvs) =
     ''{'' @ join isep (map (\<lambda>(k, v). json_string k @ ksep @ dumps isep ksep v) kvs) @ ''}''"

abbreviation dumps_compact :: "json \<Rightarrow> string" where
  "dumps_compact \<equiv> dumps '','' '':''"

abbreviation dumps_default :: "json \<Rightarrow> string" where
  "dumps_default \<equiv> dumps '', '' '': ''"

section \<open>Canonical key order\<close>

text \<open>\<^verbatim>\<open>sort_keys=True\<close>: the items of every object in the order of their keys.\<close>

fun sort_keys :: "json \<Rightarrow> json" where
  "sort_keys (JArr xs) = JArr (map sort_keys xs)"
| "sort_keys (JObj kvs) = JObj (sort_key fst (map (\<lambda>(k, v). (k, sort_keys v)) kvs))"
| "sort_keys j = j"

lemma sort_key_perm:
  fixes xs ys :: "('k::linorder \<times> 'v) list"
  assumes "distinct (map fst xs)" and "set xs = set ys" and "distinct (map fst ys)"
  shows "sort_key fst xs = sort_key fst ys"
proof (rule map_sorted_distinct_set_unique [where f = fst])
  show "inj_on fst (set (sort_key fst xs) \<union> set (sort_key fst ys))"
    using assms by (simp add: distinct_map)
qed (use assms in \<open>auto simp: distinct_map\<close>)

text \<open>
  Two dicts that hold the same items print to the same canonical text, whatever order their keys
  were inserted in.
\<close>

lemma sort_keys_obj_perm:
  assumes "distinct (map fst p)" and "distinct (map fst q)" and "set p = set q"
  shows "sort_keys (JObj p) = sort_keys (JObj q)"
proof -
  let ?f = "\<lambda>(k, v). (k, sort_keys v)"
  have f: "map fst (map ?f r) = map fst r" for r :: payload
    by (induction r) auto
  have "sort_key fst (map ?f p) = sort_key fst (map ?f q)"
    using assms(3) by (intro sort_key_perm) (simp_all only: f assms set_map)
  then show ?thesis
    by simp
qed

section \<open>Reading a document\<close>

text \<open>\<^verbatim>\<open>for x in value\<close> over a JSON value.\<close>

definition iter_json :: "json \<Rightarrow> py_exc + json list" where
  "iter_json j =
     (case j of
        JArr xs \<Rightarrow> Inr xs
      | JObj kvs \<Rightarrow> Inr (map (JStr \<circ> fst) kvs)
      | JStr s \<Rightarrow> Inr (map (\<lambda>c. JStr [c]) s)
      | _ \<Rightarrow> Inl TypeError)"

text \<open>\<^verbatim>\<open>value.get(k, default)\<close>, which only a dict has.\<close>

definition json_get :: "json \<Rightarrow> string \<Rightarrow> json \<Rightarrow> py_exc + json" where
  "json_get j k dflt =
     (case j of JObj kvs \<Rightarrow> Inr (case get_item kvs k of None \<Rightarrow> dflt | Some v \<Rightarrow> v) | _ \<Rightarrow> Inl AttributeError)"

text \<open>\<^verbatim>\<open>value[k]\<close> for a string \<open>k\<close>: anything but a dict raises TypeError.\<close>

definition json_item :: "json \<Rightarrow> string \<Rightarrow> py_exc + json" where
  "json_item j k =
     (case j of
        JObj kvs \<Rightarrow> (case get_item kvs k of None \<Rightarrow> Inl (KeyError k) | Some v \<Rightarrow> Inr v)
      | _ \<Rightarrow> Inl TypeError)"

end
