(* ===== verification/Datetime.thy ===== *)
theory Datetime
  imports Py_Strings
begin

text \<open>
  The part of \<^verbatim>\<open>datetime\<close> the code uses on UTC instants: the calendar date of a day number
  (\<^verbatim>\<open>date.fromordinal\<close>), its inverse (\<^verbatim>\<open>date.toordinal\<close>) and \<^verbatim>\<open>isoformat()\<close>. The floor and
  half-even roundings that turn seconds into microseconds are here too.
\<close>

section \<open>Rounding\<close>

text \<open>\<^verbatim>\<open>round\<close> and \<^verbatim>\<open>timedelta(seconds=...)\<close> round half to even.\<close>

definition round_half_even :: "rat \<Rightarrow> int" where
  "round_half_even x =
     (let f = \<lfloor>x\<rfloor>; r = x - of_int f
      in if r < 1 / 2 then f else if 1 / 2 < r then f + 1 else if even f then f else f + 1)"

lemma round_half_even_bounds:
  "x - 1 / 2 \<le> of_int (round_half_even x)" "of_int (round_half_even x) \<le> x + 1 / 2"
  unfolding round_half_even_def Let_def
  using of_int_floor_le [of x] by (auto split: if_split) linarith+

lemma round_half_even_of_int [simp]: "round_half_even (of_int i) = i"
  by (simp add: round_half_even_def)

lemma round_half_even_mono: "x \<le> y \<Longrightarrow> round_half_even x \<le> round_half_even y"
proof -
  assume le: "x \<le> y"
  then have f: "\<lfloor>x\<rfloor> \<le> \<lfloor>y\<rfloor>"
    by (rule floor_mono)
  show ?thesis
  proof (cases "\<lfloor>x\<rfloor> = \<lfloor>y\<rfloor>")
    case True
    with le show ?thesis
      by (auto simp: round_half_even_def Let_def)
  next
    case False
    with f have "\<lfloor>x\<rfloor> + 1 \<le> \<lfloor>y\<rfloor>"
      by simp
    moreover have "round_half_even x \<le> \<lfloor>x\<rfloor> + 1" and "\<lfloor>y\<rfloor> \<le> round_half_even y"
      by (auto simp: round_half_even_def Let_def)
    ultimately show ?thesis
      by linarith
  qed
qed

section \<open>Calendar\<close>

definition is_leap :: "int \<Rightarrow> bool" where
  "is_leap y \<longleftrightarrow> y mod 4 = 0 \<and> (y mod 100 \<noteq> 0 \<or> y mod 400 = 0)"

definition days_before_year :: "int \<Rightarrow> int" where
  "days_before_year y = (let z = y - 1 in z * 365 + z div 4 - z div 100 + z div 400)"

definition days_before_month :: "bool \<Rightarrow> nat \<Rightarrow> int" where
  "days_before_month leap m =
     [0, 0, 31, 59, 90, 120, 151, 181, 212, 243, 273, 304, 334] ! m + (if leap \<and> 2 < m then 1 else 0)"

definition ymd2ord :: "int \<times> nat \<times> int \<Rightarrow> int" where
  "ymd2ord = (\<lambda>(y, m, d). days_before_year y + days_before_month (is_leap y) m + d)"

text \<open>The last month that begins at or before day \<open>n\<close> (counted from 0) of the year.\<close>

definition month_of_day :: "bool \<Rightarrow> int \<Rightarrow> nat" where
  "month_of_day leap n = last (filter (\<lambda>m. days_before_month leap m \<le> n) [1..<13])"

definition ord2ymd :: "int \<Rightarrow> int \<times> nat \<times> int" where
  "ord2ymd n =
     (let n0 = n - 1; n400 = n0 div 146097; r400 = n0 mod 146097;
          n100 = r400 div 36524; r100 = r400 mod 36524;
          n4 = r100 div 1461; r4 = r100 mod 1461;
          n1 = r4 div 365; r1 = r4 mod 365;
          year = n400 * 400 + n100 * 100 + n4 * 4 + n1 + 1
      in if n1 = 4 \<or> n100 = 4 then (year - 1, 12, 31)
         else let m = month_of_day (is_leap year) r1
              in (year, m, r1 - days_before_month (is_leap year) m + 1))"

section \<open>ISO format\<close>

definition pad0 :: "nat \<Rightarrow> int \<Rightarrow> string" where
  "pad0 k i = (let s = show_int i in replicate (k - length s) CHR ''0'' @ s)"

definition day_us :: int where
  "day_us = 86400000000"

text \<open>\<^verbatim>\<open>datetime.isoformat()\<close> of an aware UTC datetime.\<close>

definition isoformat :: "time \<Rightarrow> string" where
  "isoformat t =
     (let (y, m, d) = ord2ymd (t div day_us + 719163); s = t mod day_us; us = s mod 1000000
      in pad0 4 y @ ''-'' @ pad0 2 (int m) @ ''-'' @ pad0 2 d @ ''T''
         @ pad0 2 (s div 3600000000) @ '':'' @ pad0 2 (s div 60000000 mod 60) @ '':''
         @ pad0 2 (s div 1000000 mod 60)
         @ (if us = 0 then '''' else ''.'' @ pad0 6 us) @ ''+00:00'')"

end
