(* ===== verification/Models.thy ===== *)
theory Models
  imports Json Datetime
begin

text \<open>
  The database schema (\<^verbatim>\<open>app/models\<close>): one record per ORM class with its columns, the enums of
  the schema, and the database as the lists of its tables' rows. Each table is an instance of the
  table interface of \<^verbatim>\<open>Prelude\<close>.
\<close>

section \<open>Enums\<close>

datatype delivery_status = Pending | In_flight | Succeeded | Failed | Dead_lettered

datatype endpoint_status = Active | Inactive

datatype payload_format = Raw | Discord

text \<open>
  The order PostgreSQL gives an enum is the order of its labels; \<^verbatim>\<open>GROUP BY status\<close> and the
  inspection filters compare with it.
\<close>

instantiation delivery_status :: linorder
begin

fun status_rank :: "delivery_status \<Rightarrow> nat" where
  "status_rank Pending = 0"
| "status_rank In_flight = 1"
| "status_rank Succeeded = 2"
| "status_rank Failed = 3"
| "status_rank Dead_lettered = 4"

definition less_eq_delivery_status :: "delivery_status \<Rightarrow> delivery_status \<Rightarrow> bool" where
  "less_eq_delivery_status a b \<longleftrightarrow> status_rank a \<le> status_rank b"

definition less_delivery_status :: "delivery_status \<Rightarrow> delivery_status \<Rightarrow> bool" where
  "less_delivery_status a b \<longleftrightarrow> status_rank a < status_rank b"

instance
proof
  fix a b :: delivery_status
  show "a \<le> b \<Longrightarrow> b \<le> a \<Longrightarrow> a = b"
    by (cases a; cases b; simp add: less_eq_delivery_status_def)
qed (auto simp: less_eq_delivery_status_def less_delivery_status_def)

end

section \<open>Tables\<close>

record project =
  pj_id :: uuid
  pj_name :: utext
  pj_created_at :: time
  pj_updated_at :: time

record api_key =
  ak_id :: uuid
  ak_project :: uuid
  ak_name :: "utext option"
  ak_key_prefix :: string
  ak_key_hash :: string
  ak_last_used_at :: "time option"
  ak_revoked_at :: "time option"
  ak_created_at :: time
  ak_updated_at :: time

record endpoint =
  ep_id :: uuid
  ep_project :: uuid
  ep_url :: string
  ep_event_types :: "utext list"
  ep_secret_enc :: string
  ep_status :: endpoint_status
  ep_payload_format :: payload_format
  ep_created_at :: time
  ep_updated_at :: time
  ep_rate_limit_rps :: "rat option"

record event =
  ev_id :: uuid
  ev_project :: uuid
  ev_type :: utext
  ev_payload :: payload
  ev_idempotency_key :: "string option"
  ev_created_at :: time

record delivery =
  dl_id :: uuid
  dl_event :: uuid
  dl_endpoint :: uuid
  dl_status :: delivery_status
  dl_attempt_count :: int
  dl_next_attempt_at :: time
  dl_leased_until :: "time option"
  dl_claimed_by :: "string option"
  dl_created_at :: time
  dl_updated_at :: time

record delivery_attempt =
  at_id :: uuid
  at_delivery :: uuid
  at_number :: int
  at_response_status :: "int option"
  at_response_body :: "utext option"
  at_error :: "utext option"
  at_duration_ms :: "int option"
  at_worker_id :: "string option"
  at_created_at :: time

record idempotency_record =
  ir_id :: uuid
  ir_project :: uuid
  ir_key :: string
  ir_event :: uuid
  ir_queued_deliveries :: int
  ir_request_hash :: string
  ir_created_at :: time

text \<open>The tables of the showcase demo (\<^verbatim>\<open>app/models/demo.py\<close>). Money is an integer of cents.\<close>

record receiver_health =
  rh_endpoint :: uuid
  rh_healthy :: bool
  rh_mode :: string
  rh_updated_at :: time

record received_request =
  rr_id :: uuid
  rr_endpoint :: uuid
  rr_event_type :: utext
  rr_attempt :: int
  rr_verified :: bool
  rr_response_status :: int
  rr_signature_header :: "string option"
  rr_timestamp_header :: "string option"
  rr_body :: utext
  rr_received_at :: time

record ledger_account =
  la_endpoint :: uuid
  la_account :: utext
  la_balance :: int
  la_status :: "utext option"
  la_status_as_of :: "time option"
  la_updated_at :: time

record ledger_processed =
  lp_endpoint :: uuid
  lp_event :: uuid
  lp_processed_at :: time

record visitor_activity =
  va_project :: uuid
  va_last_seen_at :: time

record db =
  projects :: "project list"
  api_keys :: "api_key list"
  endpoints :: "endpoint list"
  events :: "event list"
  deliveries :: "delivery list"
  attempts :: "delivery_attempt list"
  idem_records :: "idempotency_record list"
  healths :: "receiver_health list"
  inbox :: "received_request list"
  accounts :: "ledger_account list"
  processed :: "ledger_processed list"
  visitors :: "visitor_activity list"

definition empty_db :: db where
  "empty_db =
   \<lparr> projects = [], api_keys = [], endpoints = [], events = [], deliveries = [], attempts = [],
     idem_records = [], healths = [], inbox = [], accounts = [], processed = [], visitors = [] \<rparr>"

section \<open>The tables as instances of the interface\<close>

interpretation project_table: table projects "\<lambda>rs d. d\<lparr>projects := rs\<rparr>" pj_id
  by unfold_locales simp_all

interpretation api_key_table: table api_keys "\<lambda>rs d. d\<lparr>api_keys := rs\<rparr>" ak_id
  by unfold_locales simp_all

interpretation endpoint_table: table endpoints "\<lambda>rs d. d\<lparr>endpoints := rs\<rparr>" ep_id
  by unfold_locales simp_all

interpretation event_table: table events "\<lambda>rs d. d\<lparr>events := rs\<rparr>" ev_id
  by unfold_locales simp_all

interpretation delivery_table: table deliveries "\<lambda>rs d. d\<lparr>deliveries := rs\<rparr>" dl_id
  by unfold_locales simp_all

interpretation idem_table:
  table idem_records "\<lambda>rs d. d\<lparr>idem_records := rs\<rparr>" "\<lambda>r. (ir_project r, ir_key r)"
  by unfold_locales simp_all

interpretation health_table: table healths "\<lambda>rs d. d\<lparr>healths := rs\<rparr>" rh_endpoint
  by unfold_locales simp_all

interpretation account_table:
  table accounts "\<lambda>rs d. d\<lparr>accounts := rs\<rparr>" "\<lambda>r. (la_endpoint r, la_account r)"
  by unfold_locales simp_all

interpretation processed_table:
  table processed "\<lambda>rs d. d\<lparr>processed := rs\<rparr>" "\<lambda>r. (lp_endpoint r, lp_event r)"
  by unfold_locales simp_all

interpretation visitor_table: table visitors "\<lambda>rs d. d\<lparr>visitors := rs\<rparr>" va_project
  by unfold_locales simp_all

section \<open>Queries the components share\<close>

definition find_endpoint :: "uuid \<Rightarrow> db \<Rightarrow> endpoint option" where
  "find_endpoint i d = find_pk ep_id i (endpoints d)"

definition find_event :: "uuid \<Rightarrow> db \<Rightarrow> event option" where
  "find_event i d = find_pk ev_id i (events d)"

definition find_delivery :: "uuid \<Rightarrow> db \<Rightarrow> delivery option" where
  "find_delivery i d = find_pk dl_id i (deliveries d)"

definition find_project :: "uuid \<Rightarrow> db \<Rightarrow> project option" where
  "find_project i d = find_pk pj_id i (projects d)"

text \<open>The project that owns a delivery, through the join with its endpoint.\<close>

definition delivery_project :: "db \<Rightarrow> delivery \<Rightarrow> uuid option" where
  "delivery_project d x = map_option ep_project (find_endpoint (dl_endpoint x) d)"

definition put_delivery :: "delivery \<Rightarrow> db \<Rightarrow> db" where
  "put_delivery x d = d\<lparr>deliveries := put_pk dl_id x (deliveries d)\<rparr>"

definition attempts_of :: "uuid \<Rightarrow> db \<Rightarrow> delivery_attempt list" where
  "attempts_of i d = filter (\<lambda>a. at_delivery a = i) (attempts d)"

lemma put_delivery_simps [simp]:
  "projects (put_delivery x d) = projects d" "api_keys (put_delivery x d) = api_keys d"
  "endpoints (put_delivery x d) = endpoints d" "events (put_delivery x d) = events d"
  "attempts (put_delivery x d) = attempts d" "idem_records (put_delivery x d) = idem_records d"
  "deliveries (put_delivery x d) = put_pk dl_id x (deliveries d)"
  "find_endpoint i (put_delivery x d) = find_endpoint i d"
  "find_event i (put_delivery x d) = find_event i d"
  "attempts_of i (put_delivery x d) = attempts_of i d"
  by (simp_all add: put_delivery_def find_endpoint_def find_event_def attempts_of_def)

section \<open>Integrity\<close>

text \<open>
  What the primary keys, unique constraints and foreign keys of the schema enforce, for the tables
  of the delivery pipeline.
\<close>

definition keys_ok :: "db \<Rightarrow> bool" where
  "keys_ok d \<longleftrightarrow>
     project_table.keys_ok d \<and> api_key_table.keys_ok d \<and> endpoint_table.keys_ok d
     \<and> event_table.keys_ok d \<and> delivery_table.keys_ok d \<and> idem_table.keys_ok d
     \<and> distinct (map ak_key_hash (api_keys d))
     \<and> distinct (map (\<lambda>a. (at_delivery a, at_number a)) (attempts d))"

definition fks_ok :: "db \<Rightarrow> bool" where
  "fks_ok d \<longleftrightarrow>
     ak_project ` set (api_keys d) \<subseteq> pj_id ` set (projects d)
     \<and> ep_project ` set (endpoints d) \<subseteq> pj_id ` set (projects d)
     \<and> ev_project ` set (events d) \<subseteq> pj_id ` set (projects d)
     \<and> dl_event ` set (deliveries d) \<subseteq> ev_id ` set (events d)
     \<and> dl_endpoint ` set (deliveries d) \<subseteq> ep_id ` set (endpoints d)
     \<and> at_delivery ` set (attempts d) \<subseteq> dl_id ` set (deliveries d)
     \<and> ir_event ` set (idem_records d) \<subseteq> ev_id ` set (events d)
     \<and> ir_project ` set (idem_records d) \<subseteq> pj_id ` set (projects d)"

lemma find_endpoint_ex: "fks_ok d \<Longrightarrow> x \<in> set (deliveries d) \<Longrightarrow> find_endpoint (dl_endpoint x) d \<noteq> None"
  by (auto simp: fks_ok_def find_endpoint_def find_pk_None)

lemma find_event_ex: "fks_ok d \<Longrightarrow> x \<in> set (deliveries d) \<Longrightarrow> find_event (dl_event x) d \<noteq> None"
  by (auto simp: fks_ok_def find_event_def find_pk_None)

end
