(* ===== verification/Uuids.thy ===== *)
theory Uuids
  imports Py_Strings
begin

text \<open>
  \<^verbatim>\<open>str(uuid)\<close> and \<^verbatim>\<open>uuid.UUID(s)\<close> of the standard library: the canonical text of a UUID, the
  parser that accepts it, and the fact that the parser reads the text back.
\<close>

section \<open>Printing\<close>

text \<open>The \<open>k\<close> lowest hexadecimal digits of a number, most significant first.\<close>

fun nibbles :: "nat \<Rightarrow> nat \<Rightarrow> nat list" where
  "nibbles 0 n = []"
| "nibbles (Suc k) n = nibbles k (n div 16) @ [n mod 16]"

definition uuid_hex :: "uuid \<Rightarrow> string" where
  "uuid_hex u = map hex_digit (nibbles 32 (unat u))"

definition show_uuid :: "uuid \<Rightarrow> string" where
  "show_uuid u =
     (let h = uuid_hex u
      in take 8 h @ ''-'' @ take 4 (drop 8 h) @ ''-'' @ take 4 (drop 12 h) @ ''-''
         @ take 4 (drop 16 h) @ ''-'' @ drop 20 h)"

section \<open>Parsing\<close>

definition hex_value :: "char \<Rightarrow> nat option" where
  "hex_value c =
     (let n = code c in
      if 48 \<le> n \<and> n \<le> 57 then Some (n - 48) else if 97 \<le> n \<and> n \<le> 102 then Some (n - 87)
      else if 65 \<le> n \<and> n \<le> 70 then Some (n - 55) else None)"

definition hex_number :: "string \<Rightarrow> nat" where
  "hex_number s = foldl (\<lambda>a c. 16 * a + the (hex_value c)) 0 s"

text \<open>\<^verbatim>\<open>int(s, 16)\<close> after the sign: an optional \<^verbatim>\<open>0x\<close>, digits, single underscores between them.\<close>

fun hex_digits_ok :: "bool \<Rightarrow> string \<Rightarrow> bool" where
  "hex_digits_ok p [] = p"
| "hex_digits_ok p (c # s) =
     (if hex_value c \<noteq> None then hex_digits_ok True s
      else c = CHR ''_'' \<and> p \<and> hex_digits_ok False s)"

definition drop_0x :: "string \<Rightarrow> string" where
  "drop_0x s =
     (if take 2 s \<in> {''0x'', ''0X''} then
        (if take 1 (drop 2 s) = ''_'' then drop 3 s else drop 2 s) else s)"

definition parse_hex_nat :: "string \<Rightarrow> nat option" where
  "parse_hex_nat s =
     (let r = drop_0x s
      in if hex_digits_ok False r then Some (hex_number (filter (\<lambda>c. hex_value c \<noteq> None) r)) else None)"

definition parse_hex :: "string \<Rightarrow> int option" where
  "parse_hex s =
     (case strip s of
        [] \<Rightarrow> None
      | c # r \<Rightarrow>
          if c = CHR ''-'' then map_option (\<lambda>n. - int n) (parse_hex_nat r)
          else if c = CHR ''+'' then map_option int (parse_hex_nat r)
          else map_option int (parse_hex_nat (c # r)))"

text \<open>
  The clean-up of \<^verbatim>\<open>uuid.UUID\<close>: \<^verbatim>\<open>urn:\<close> and \<^verbatim>\<open>uuid:\<close> are removed wherever they occur, braces at
  both ends, and every hyphen. A negative number is refused.
\<close>

fun remove_all :: "nat \<Rightarrow> string \<Rightarrow> string \<Rightarrow> string" where
  "remove_all skip w [] = []"
| "remove_all (Suc k) w (c # s) = remove_all k w s"
| "remove_all 0 w (c # s) =
     (if take (length w) (c # s) = w then remove_all (length w - 1) w s else c # remove_all 0 w s)"

definition strip_braces :: "string \<Rightarrow> string" where
  "strip_braces s =
     (let brace = (\<lambda>c. c = CHR ''{'' \<or> c = CHR ''}'')
      in rev (dropWhile brace (rev (dropWhile brace s))))"

definition parse_uuid :: "string \<Rightarrow> uuid option" where
  "parse_uuid s =
     (let h = filter (\<lambda>c. c \<noteq> CHR ''-'')
                (strip_braces (remove_all 0 ''uuid:'' (remove_all 0 ''urn:'' s)))
      in if length h \<noteq> 32 then None
         else case parse_hex h of
             None \<Rightarrow> None
           | Some i \<Rightarrow> if i < 0 then None else Some (of_int i))"

section \<open>Reading back\<close>

lemma length_nibbles [simp]: "length (nibbles k n) = k"
  by (induction k arbitrary: n) auto

lemma nibbles_lt: "d \<in> set (nibbles k n) \<Longrightarrow> d < 16"
  by (induction k arbitrary: n) auto

lemma hex_value_digit: "n < 16 \<Longrightarrow> hex_value (hex_digit n) = Some n"
  by (auto simp: hex_value_def hex_digit_def code_def of_char_of Let_def)

lemma foldl_nibbles: "foldl (\<lambda>a d. 16 * a + d) 0 (nibbles k n) = n mod 16 ^ k"
  by (induction k arbitrary: n) (simp_all add: mod_mult2_eq)

lemma hex_number_map:
  assumes "\<forall>d \<in> set ds. d < 16"
  shows "hex_number (map hex_digit ds) = foldl (\<lambda>a d. 16 * a + d) 0 ds"
  using assms
proof (induction ds rule: rev_induct)
  case (snoc d ds)
  then show ?case
    by (simp add: hex_number_def hex_value_digit)
qed (simp add: hex_number_def)

lemma hex_number_uuid: "hex_number (uuid_hex u) = unat u"
proof -
  have "hex_number (uuid_hex u) = unat u mod 16 ^ 32"
    unfolding uuid_hex_def using nibbles_lt
    by (subst hex_number_map) (blast, rule foldl_nibbles)
  also have "\<dots> = unat u"
    using unsigned_less [of u, where 'a = nat] by simp
  finally show ?thesis .
qed

lemma uuid_hex_chars:
  assumes "c \<in> set (uuid_hex u)"
  shows "hex_value c \<noteq> None" and "\<not> is_space c"
    and "c \<noteq> CHR ''-''" "c \<noteq> CHR ''+''" "c \<noteq> CHR ''{''" "c \<noteq> CHR ''}''" "c \<noteq> CHR ''r''" "c \<noteq> CHR ''u''"
    and "c \<noteq> CHR ''x''" "c \<noteq> CHR ''X''" "c \<noteq> CHR '':''"
proof -
  obtain d where d: "d < 16" "c = hex_digit d"
    using assms nibbles_lt by (auto simp: uuid_hex_def)
  then have c: "code c = (if d < 10 then 48 + d else 87 + d)"
    by (simp add: hex_digit_def code_def of_char_of)
  show "hex_value c \<noteq> None"
    using d hex_value_digit by simp
  show "\<not> is_space c"
    using d hex_digit_chars by simp
  show "c \<noteq> CHR ''-''" "c \<noteq> CHR ''+''" "c \<noteq> CHR ''{''" "c \<noteq> CHR ''}''" "c \<noteq> CHR ''r''" "c \<noteq> CHR ''u''"
    "c \<noteq> CHR ''x''" "c \<noteq> CHR ''X''" "c \<noteq> CHR '':''"
    using c d(1) by (auto simp: code_def split: if_splits)
qed

lemma length_uuid_hex [simp]: "length (uuid_hex u) = 32"
  by (simp add: uuid_hex_def)

lemma hex_digits_ok_all: "s \<noteq> [] \<or> p \<Longrightarrow> \<forall>c \<in> set s. hex_value c \<noteq> None \<Longrightarrow> hex_digits_ok p s"
  by (induction s arbitrary: p) auto

lemma parse_hex_uuid: "parse_hex (uuid_hex u) = Some (int (unat u))"
proof -
  let ?h = "uuid_hex u"
  have ne: "?h \<noteq> []"
    using length_uuid_hex [of u] by (metis list.size(3) zero_neq_numeral)
  then obtain c r where h: "?h = c # r"
    by (cases ?h) auto
  have "strip ?h = ?h"
    using uuid_hex_chars(2) by (intro strip_id)
  moreover have "drop_0x ?h = ?h"
  proof -
    have "take 2 ?h \<noteq> ''0x'' \<and> take 2 ?h \<noteq> ''0X''"
    proof (rule ccontr)
      assume "\<not> ?thesis"
      then have "CHR ''x'' \<in> set (take 2 ?h) \<or> CHR ''X'' \<in> set (take 2 ?h)"
        by auto
      then show False
        using uuid_hex_chars(9,10) by (blast dest: in_set_takeD)
    qed
    then show ?thesis
      by (simp add: drop_0x_def)
  qed
  moreover have "hex_digits_ok False ?h"
    using ne uuid_hex_chars(1) by (intro hex_digits_ok_all) auto
  moreover have "filter (\<lambda>c. hex_value c \<noteq> None) ?h = ?h"
    using uuid_hex_chars(1) by (simp add: filter_id_conv)
  moreover have "c \<noteq> CHR ''-''" "c \<noteq> CHR ''+''"
    using uuid_hex_chars(3,4) [of c u] h by simp_all
  ultimately show ?thesis
    using hex_number_uuid [of u] h by (simp add: parse_hex_def parse_hex_nat_def)
qed

lemma remove_all_absent: "hd w \<notin> set s \<Longrightarrow> w \<noteq> [] \<Longrightarrow> remove_all 0 w s = s"
proof (induction s)
  case (Cons c s)
  then have "take (length w) (c # s) \<noteq> w"
    by (cases w) auto
  with Cons show ?case
    by simp
qed simp

lemma show_uuid_chars: "c \<in> set (show_uuid u) \<Longrightarrow> c \<in> set (uuid_hex u) \<or> c = CHR ''-''"
  by (auto simp: show_uuid_def Let_def dest: in_set_takeD in_set_dropD)

lemma parse_show_uuid: "parse_uuid (show_uuid u) = Some u"
proof -
  let ?h = "uuid_hex u" and ?s = "show_uuid u"
  have chars: "c \<notin> set ?s" if "c \<notin> set ?h" "c \<noteq> CHR ''-''" for c
    using show_uuid_chars that by blast
  have plain: "\<forall>c \<in> set ?s. c \<noteq> CHR ''{'' \<and> c \<noteq> CHR ''}''"
    using show_uuid_chars uuid_hex_chars(5,6) by blast
  have "remove_all 0 ''urn:'' ?s = ?s" "remove_all 0 ''uuid:'' ?s = ?s"
    using chars [of "CHR ''u''"] uuid_hex_chars(8) by (fastforce intro!: remove_all_absent)+
  moreover have "strip_braces ?s = ?s"
  proof -
    have "dropWhile (\<lambda>c. c = CHR ''{'' \<or> c = CHR ''}'') xs = xs" if "set xs = set ?s" for xs
      using plain that by (intro dropWhile_none) auto
    then show ?thesis
      by (simp add: strip_braces_def)
  qed
  moreover have "filter (\<lambda>c. c \<noteq> CHR ''-'') ?s = ?h"
  proof -
    have keep: "filter (\<lambda>c. c \<noteq> CHR ''-'') (take n (drop m ?h)) = take n (drop m ?h)" for n m
      using uuid_hex_chars(3) by (auto simp: filter_id_conv dest: in_set_takeD in_set_dropD)
    have "filter (\<lambda>c. c \<noteq> CHR ''-'') ?s =
      take 8 ?h @ take 4 (drop 8 ?h) @ take 4 (drop 12 ?h) @ take 4 (drop 16 ?h) @ drop 20 ?h"
      using keep [of 8 0] keep [of 4] keep [of 12 20]
      by (simp add: show_uuid_def Let_def)
    also have "\<dots> = take 20 ?h @ drop 20 ?h"
    proof -
      have "take 20 ?h = take 8 ?h @ take 4 (drop 8 ?h) @ take 4 (drop 12 ?h) @ take 4 (drop 16 ?h)"
        using take_add [of 8 4 ?h] take_add [of 12 4 ?h] take_add [of 16 4 ?h] by simp
      then show ?thesis
        by (simp only: append_assoc)
    qed
    also have "\<dots> = ?h"
      by (rule append_take_drop_id)
    finally show ?thesis .
  qed
  ultimately show ?thesis
    by (simp add: parse_uuid_def parse_hex_uuid del: remove_all.simps)
qed

end
