(* ===== verification/Transform.thy ===== *)
theory Transform
  imports Models Uuids
begin

text \<open>
  The outbound body (\<^verbatim>\<open>app/services/transform.py\<close>): the raw envelope or a Discord message. The
  clock of the embed's timestamp is an argument, already as a datetime.
\<close>

definition discord_color :: int where
  "discord_color = 7113983"

definition discord_max_fields :: nat where
  "discord_max_fields = 25"

definition discord_max_value :: nat where
  "discord_max_value = 1024"

definition discord_max_name :: nat where
  "discord_max_name = 256"

text \<open>\<^verbatim>\<open>value if isinstance(value, str) else json.dumps(value)\<close>, and the fall-back to a dash.\<close>

definition render_value :: "json \<Rightarrow> utext" where
  "render_value v = (case v of JStr s \<Rightarrow> s | _ \<Rightarrow> ucode (dumps_default v))"

definition discord_value :: "json \<Rightarrow> utext" where
  "discord_value v =
     (let rendered = render_value v
      in take discord_max_value (if rendered = [] then [8212] else rendered))"

definition discord_field :: "utext \<times> json \<Rightarrow> json" where
  "discord_field kv =
     JObj [(ucode ''name'', JStr (take discord_max_name (fst kv))),
           (ucode ''value'', JStr (discord_value (snd kv))),
           (ucode ''inline'', JBool True)]"

definition discord_fields :: "payload \<Rightarrow> json list" where
  "discord_fields p = map discord_field (take discord_max_fields p)"

definition to_discord_message :: "uuid \<Rightarrow> utext \<Rightarrow> payload \<Rightarrow> time \<Rightarrow> payload" where
  "to_discord_message event_id event_type p now =
     (let fields = discord_fields p;
          embed =
            [(ucode ''title'', JStr ([128232, 32] @ event_type)),
             (ucode ''description'', JStr (ucode ''Delivered by the Reliable Webhook Platform'')),
             (ucode ''color'', JInt discord_color),
             (ucode ''footer'', JObj [(ucode ''text'', JStr (ucode (''event '' @ show_uuid event_id)))]),
             (ucode ''timestamp'', JStr (ucode (isoformat now)))]
            @ (if fields = [] then [] else [(ucode ''fields'', JArr fields)])
      in [(ucode ''username'', JStr (ucode ''HookIt'')), (ucode ''embeds'', JArr [JObj embed])])"

definition build_delivery_body ::
  "payload_format \<Rightarrow> uuid \<Rightarrow> utext \<Rightarrow> payload \<Rightarrow> time \<Rightarrow> bytes" where
  "build_delivery_body fmt event_id event_type p now =
     (let document =
        (case fmt of
           Discord \<Rightarrow> to_discord_message event_id event_type p now
         | Raw \<Rightarrow> [(ucode ''event_id'', JStr (ucode (show_uuid event_id))),
                   (ucode ''type'', JStr event_type), (ucode ''payload'', JObj p)])
      in encode (dumps_compact (JObj document)))"

section \<open>Discord's limits\<close>

text \<open>No JSON document prints to the empty text.\<close>

lemma dumps_nonempty:
  assumes "\<And>r. j = JFloat r \<Longrightarrow> r \<noteq> []"
  shows "dumps isep ksep j \<noteq> []"
  using assms by (cases j) (auto simp: json_string_def)

text \<open>The fields an embed carries, read back from the document.\<close>

fun field_name :: "json \<Rightarrow> utext" where
  "field_name (JObj ((_, JStr n) # _)) = n"
| "field_name _ = []"

fun field_value :: "json \<Rightarrow> utext" where
  "field_value (JObj (_ # (_, JStr v) # _)) = v"
| "field_value _ = []"

lemma field_of [simp]:
  "field_name (discord_field kv) = take discord_max_name (fst kv)"
  "field_value (discord_field kv) = discord_value (snd kv)"
  by (simp_all add: discord_field_def)

lemma discord_value_bounds: "discord_value v \<noteq> [] \<and> length (discord_value v) \<le> 1024"
  by (simp add: discord_value_def discord_max_value_def Let_def)

lemma discord_fields_limits:
  "length (discord_fields p) \<le> 25
   \<and> (\<forall>f \<in> set (discord_fields p).
        length (field_name f) \<le> 256 \<and> field_value f \<noteq> [] \<and> length (field_value f) \<le> 1024)"
  using discord_value_bounds
  by (auto simp: discord_fields_def discord_max_fields_def discord_max_name_def)

lemma discord_fields_faithful:
  assumes "length p \<le> 25"
    and "\<forall>(k, v) \<in> set p. length k \<le> 256 \<and> length (render_value v) \<le> 1024 \<and> render_value v \<noteq> []"
  shows "map (\<lambda>f. (field_name f, field_value f)) (discord_fields p)
         = map (\<lambda>(k, v). (k, render_value v)) p"
  using assms
  by (auto simp: discord_fields_def discord_max_fields_def discord_max_name_def
      discord_max_value_def discord_value_def Let_def intro!: map_cong)

text \<open>The Discord message respects the limits of the embed fields it claims to respect: at most 25
  fields, names of at most 256 and values of at most 1024 characters, and no empty value; a payload
  within the limits appears unchanged, key by key in its order.\<close>

theorem discord_limits:
  "length (discord_fields p) \<le> 25
   \<and> (\<forall>f \<in> set (discord_fields p).
        length (field_name f) \<le> 256 \<and> field_value f \<noteq> [] \<and> length (field_value f) \<le> 1024)
   \<and> (length p \<le> 25
        \<and> (\<forall>(k, v) \<in> set p. length k \<le> 256 \<and> length (render_value v) \<le> 1024 \<and> render_value v \<noteq> [])
      \<longrightarrow> map (\<lambda>f. (field_name f, field_value f)) (discord_fields p) = map (\<lambda>(k, v). (k, render_value v)) p)"
  using discord_fields_limits discord_fields_faithful by blast

theorem discord_limits_witness:
  "map (\<lambda>f. (field_name f, field_value f)) (discord_fields [(ucode ''user'', JStr (ucode ''ada''))])
     = [(ucode ''user'', ucode ''ada'')]"
  using discord_limits [of "[(ucode ''user'', JStr (ucode ''ada''))]"] by (simp add: render_value_def)

lemma encode_ascii:
  assumes "\<forall>c \<in> set s. code c < 128"
  shows "encode s = map (\<lambda>c. of_nat (code c)) s"
  using assms by (induction s) (auto simp: encode_def utf8_point_def)

end
