(* ===== verification/Sha256.thy ===== *)
theory Sha256
  imports Py_Strings
begin

text \<open>
  The two functions of \<^verbatim>\<open>hashlib\<close> and \<^verbatim>\<open>hmac\<close> the code calls, on 32-bit words: SHA-256 and
  HMAC-SHA256 with their hexadecimal digests. API keys, request bodies and webhook signatures are
  hashed with them, so the rest of the development carries no hypothesis about a hash function.
\<close>

unbundle bit_operations_syntax

type_synonym w32 = "32 word"

definition rotr :: "nat \<Rightarrow> w32 \<Rightarrow> w32" where
  "rotr n x = drop_bit n x OR push_bit (32 - n) x"

text \<open>The fractional parts of the cube roots of the first 64 primes.\<close>

definition round_constants :: "w32 list" where
  "round_constants =
   [1116352408, 1899447441, 3049323471, 3921009573, 961987163, 1508970993,
    2453635748, 2870763221, 3624381080, 310598401, 607225278, 1426881987,
    1925078388, 2162078206, 2614888103, 3248222580, 3835390401, 4022224774,
    264347078, 604807628, 770255983, 1249150122, 1555081692, 1996064986,
    2554220882, 2821834349, 2952996808, 3210313671, 3336571891, 3584528711,
    113926993, 338241895, 666307205, 773529912, 1294757372, 1396182291,
    1695183700, 1986661051, 2177026350, 2456956037, 2730485921, 2820302411,
    3259730800, 3345764771, 3516065817, 3600352804, 4094571909, 275423344,
    430227734, 506948616, 659060556, 883997877, 958139571, 1322822218,
    1537002063, 1747873779, 1955562222, 2024104815, 2227730452, 2361852424,
    2428436474, 2756734187, 3204031479, 3329325298]"

text \<open>The fractional parts of the square roots of the first eight primes.\<close>

definition initial_state :: "w32 list" where
  "initial_state =
   [1779033703, 3144134277, 1013904242, 2773480762, 1359893119, 2600822924,
    528734635, 1541459225]"

definition be32 :: "8 word \<Rightarrow> 8 word \<Rightarrow> 8 word \<Rightarrow> 8 word \<Rightarrow> w32" where
  "be32 a b c d =
     push_bit 24 (ucast a) OR push_bit 16 (ucast b) OR push_bit 8 (ucast c) OR ucast d"

fun words_of_bytes :: "bytes \<Rightarrow> w32 list" where
  "words_of_bytes (a # b # c # d # bs) = be32 a b c d # words_of_bytes bs"
| "words_of_bytes _ = []"

definition bytes_of_word :: "w32 \<Rightarrow> bytes" where
  "bytes_of_word w = map (\<lambda>k. ucast (drop_bit k w)) [24, 16, 8, 0]"

definition length_bytes :: "nat \<Rightarrow> bytes" where
  "length_bytes n =
     map (\<lambda>k. ucast (drop_bit k (of_nat (8 * n) :: 64 word))) [56, 48, 40, 32, 24, 16, 8, 0]"

definition pad_message :: "bytes \<Rightarrow> bytes" where
  "pad_message m =
     m @ [128] @ replicate ((119 - length m mod 64) mod 64) 0 @ length_bytes (length m)"

text \<open>The message schedule, built newest word first.\<close>

fun schedule :: "nat \<Rightarrow> w32 list \<Rightarrow> w32 list" where
  "schedule 0 ws = rev ws"
| "schedule (Suc k) ws =
     (let x = ws ! 1; y = ws ! 14;
          s1 = rotr 17 x XOR rotr 19 x XOR drop_bit 10 x;
          s0 = rotr 7 y XOR rotr 18 y XOR drop_bit 3 y
      in schedule k ((s1 + ws ! 6 + s0 + ws ! 15) # ws))"

fun compress_round :: "w32 list \<Rightarrow> w32 \<times> w32 \<Rightarrow> w32 list" where
  "compress_round [a, b, c, d, e, f, g, h] (k, w) =
     (let t1 = h + (rotr 6 e XOR rotr 11 e XOR rotr 25 e) + ((e AND f) XOR (NOT e AND g)) + k + w;
          t2 = (rotr 2 a XOR rotr 13 a XOR rotr 22 a)
               + ((a AND b) XOR (a AND c) XOR (b AND c))
      in [t1 + t2, a, b, c, d + t1, e, f, g])"
| "compress_round st _ = st"

definition compress :: "w32 list \<Rightarrow> bytes \<Rightarrow> w32 list" where
  "compress st block =
     map2 (+) st (foldl compress_round st
       (zip round_constants (schedule 48 (rev (words_of_bytes block)))))"

fun absorb :: "w32 list \<Rightarrow> nat \<Rightarrow> bytes \<Rightarrow> w32 list" where
  "absorb st 0 m = st"
| "absorb st (Suc n) m = absorb (compress st (take 64 m)) n (drop 64 m)"

definition sha256 :: "bytes \<Rightarrow> bytes" where
  "sha256 m =
     (let p = pad_message m
      in concat (map bytes_of_word (absorb initial_state (length p div 64) p)))"

definition sha256_hexdigest :: "bytes \<Rightarrow> string" where
  "sha256_hexdigest m = hexlify (sha256 m)"

definition hmac_key_block :: "bytes \<Rightarrow> bytes" where
  "hmac_key_block k =
     (let k' = (if 64 < length k then sha256 k else k) in k' @ replicate (64 - length k') 0)"

definition hmac_sha256 :: "bytes \<Rightarrow> bytes \<Rightarrow> bytes" where
  "hmac_sha256 k m =
     (let kb = hmac_key_block k
      in sha256 (map (\<lambda>b. b XOR 92) kb @ sha256 (map (\<lambda>b. b XOR 54) kb @ m)))"

definition hmac_hexdigest :: "bytes \<Rightarrow> bytes \<Rightarrow> string" where
  "hmac_hexdigest k m = hexlify (hmac_sha256 k m)"

section \<open>The digest has 32 bytes\<close>

lemma length_compress_round:
  "length st = 8 \<Longrightarrow> length (compress_round st kw) = 8"
  by (cases "(st, kw)" rule: compress_round.cases) (auto simp: Let_def)

lemma length_foldl_rounds:
  "length st = 8 \<Longrightarrow> length (foldl compress_round st kws) = 8"
  by (induction kws arbitrary: st) (auto simp: length_compress_round)

lemma length_absorb: "length st = 8 \<Longrightarrow> length (absorb st n m) = 8"
  by (induction n arbitrary: st m) (auto simp: compress_def length_foldl_rounds)

lemma length_concat_words: "length (concat (map bytes_of_word ws)) = 4 * length ws"
  by (induction ws) (auto simp: bytes_of_word_def)

lemma length_sha256 [simp]: "length (sha256 m) = 32"
proof -
  have "length initial_state = 8"
    by (simp add: initial_state_def)
  from length_absorb [OF this, of "length (pad_message m) div 64" "pad_message m"]
  show ?thesis
    unfolding sha256_def Let_def length_concat_words by simp
qed

lemma length_hexdigests [simp]:
  "length (sha256_hexdigest m) = 64" "length (hmac_hexdigest k m) = 64"
  by (simp_all add: sha256_hexdigest_def hmac_hexdigest_def hmac_sha256_def Let_def)

lemma length_pad_message: "64 dvd length (pad_message m)"
proof -
  define r where "r = length m mod 64"
  have r: "r < 64"
    by (simp add: r_def)
  have pad: "64 dvd r + 9 + (119 - r) mod 64"
  proof (cases "r \<le> 55")
    case True
    then have "119 - r = 64 + (55 - r)" and "55 - r < 64"
      by auto
    then have "(119 - r) mod 64 = 55 - r"
      by (metis mod_add_self1 mod_less)
    with True show ?thesis by simp
  next
    case False
    then have "(119 - r) mod 64 = 119 - r"
      by (intro mod_less) simp
    then have "r + 9 + (119 - r) mod 64 = 64 * 2"
      using r by simp
    then show ?thesis by (metis dvd_triv_left)
  qed
  have "length (pad_message m) = 64 * (length m div 64) + (r + 9 + (119 - r) mod 64)"
    by (simp add: pad_message_def length_bytes_def r_def)
  with pad show ?thesis
    by (metis dvd_add_right_iff dvd_triv_left)
qed

end
