(* ===== verification/Signing.thy ===== *)
theory Signing
  imports Sha256 Datetime
begin

text \<open>
  Webhook signatures: the signer and verifier of \<^verbatim>\<open>app/worker/signing.py\<close> and the standalone
  verifier of \<^verbatim>\<open>tools/demo_receiver.py\<close> that integrators copy. The clock is an argument
  (\<open>now\<close>, in seconds). \<^verbatim>\<open>hmac.compare_digest\<close> on two strings raises TypeError when one of
  them is not ASCII.
\<close>

section \<open>Signing\<close>

definition sign_payload :: "string \<Rightarrow> int \<Rightarrow> bytes \<Rightarrow> string" where
  "sign_payload secret timestamp body =
     (let canonical = encode (show_int timestamp @ ''.'') @ body
      in hmac_hexdigest (encode secret) canonical)"

definition build_signature_header :: "string \<Rightarrow> int \<Rightarrow> bytes \<Rightarrow> string" where
  "build_signature_header secret timestamp body =
     ''t='' @ show_int timestamp @ '',v1='' @ sign_payload secret timestamp body"

section \<open>Verifying\<close>

definition max_age_seconds :: int where
  "max_age_seconds = 300"

text \<open>The dict of the header's parts: \<^verbatim>\<open>parts[key.strip()] = value.strip()\<close>, the last one wins.\<close>

definition add_part :: "(string \<rightharpoonup> string) \<Rightarrow> string \<Rightarrow> (string \<rightharpoonup> string)" where
  "add_part m part =
     (case partition_on CHR ''='' part of
        (key, found, value) \<Rightarrow> if found then m(strip key \<mapsto> strip value) else m)"

definition header_parts :: "string \<Rightarrow> (string \<rightharpoonup> string)" where
  "header_parts h = foldl add_part Map.empty (split_on CHR '','' h)"

definition is_ascii :: "string \<Rightarrow> bool" where
  "is_ascii s \<longleftrightarrow> list_all (\<lambda>c. code c < 128) s"

definition compare_digest :: "string \<Rightarrow> string \<Rightarrow> py_exc + bool" where
  "compare_digest a b = (if is_ascii a \<and> is_ascii b then Inr (a = b) else Inl TypeError)"

definition age_message :: "rat \<Rightarrow> string" where
  "age_message age =
     ''timestamp too old: age='' @ show_int (round_half_even age) @ ''s exceeds ''
     @ show_int max_age_seconds @ ''s''"

text \<open>Subtracting an int from the clock converts it to a float: beyond the largest one this is an OverflowError.\<close>

definition float_overflows :: "int \<Rightarrow> bool" where
  "float_overflows n \<longleftrightarrow> 2 ^ 1024 - 2 ^ 970 \<le> \<bar>n\<bar>"

definition truthy :: "string option \<Rightarrow> bool" where
  "truthy x \<longleftrightarrow> x \<noteq> None \<and> x \<noteq> Some []"

definition verify_signature ::
  "string \<Rightarrow> string option \<Rightarrow> bytes \<Rightarrow> rat \<Rightarrow> py_exc + bool \<times> string" where
  "verify_signature secret signature_header body now =
     (if \<not> truthy signature_header then Inr (False, ''missing signature header'')
      else let parts = header_parts (the signature_header);
               timestamp_str = parts ''t''; received_sig = parts ''v1''
        in if \<not> truthy timestamp_str \<or> \<not> truthy received_sig
           then Inr (False, ''malformed signature header'')
           else case parse_int (the timestamp_str) of
               None \<Rightarrow> Inr (False, ''invalid timestamp in header'')
             | Some timestamp \<Rightarrow>
                 if float_overflows timestamp then Inl OverflowError
                 else let age = now - of_int timestamp
                 in if of_int max_age_seconds < \<bar>age\<bar> then Inr (False, age_message age)
                    else bind_exc
                      (compare_digest (sign_payload secret timestamp body) (the received_sig))
                      (\<lambda>eq. if eq then Inr (True, ''ok'') else Inr (False, ''signature mismatch'')))"

text \<open>The copy of \<^verbatim>\<open>tools/demo_receiver.py\<close> computes the HMAC in line.\<close>

definition demo_verify_signature ::
  "string \<Rightarrow> string option \<Rightarrow> bytes \<Rightarrow> rat \<Rightarrow> py_exc + bool \<times> string" where
  "demo_verify_signature secret signature_header body now =
     (if \<not> truthy signature_header then Inr (False, ''missing signature header'')
      else let parts = header_parts (the signature_header);
               timestamp_str = parts ''t''; received_sig = parts ''v1''
        in if \<not> truthy timestamp_str \<or> \<not> truthy received_sig
           then Inr (False, ''malformed signature header'')
           else case parse_int (the timestamp_str) of
               None \<Rightarrow> Inr (False, ''invalid timestamp in header'')
             | Some timestamp \<Rightarrow>
                 if float_overflows timestamp then Inl OverflowError
                 else let age = now - of_int timestamp
                 in if of_int max_age_seconds < \<bar>age\<bar> then Inr (False, age_message age)
                    else let canonical = encode (show_int timestamp @ ''.'') @ body;
                             expected = hmac_hexdigest (encode secret) canonical
                      in bind_exc (compare_digest expected (the received_sig))
                           (\<lambda>eq. if \<not> eq then Inr (False, ''signature mismatch'')
                                 else Inr (True, ''ok'')))"

section \<open>The header that is built\<close>

lemma hexdigest_ascii: "is_ascii (hexlify bs)"
proof -
  have "code c < 128" if "n < 16" "c = hex_digit n" for n c
    using that by (auto simp: hex_digit_def code_def of_char_of)
  moreover have "unat b div 16 < 16" for b :: "8 word"
    using unsigned_less [of b, where 'a = nat] by simp
  ultimately have "list_all (\<lambda>c. code c < 128) (hex_byte b)" for b
    by (simp add: hex_byte_def)
  then show ?thesis
    by (auto simp: is_ascii_def hexlify_def list_all_iff)
qed

lemma sign_payload_chars:
  "c \<in> set (sign_payload secret ts body) \<Longrightarrow> \<not> is_space c \<and> c \<noteq> CHR '','' \<and> c \<noteq> CHR ''=''"
  unfolding sign_payload_def Let_def hmac_hexdigest_def by (rule hexlify_chars)

lemma sign_payload_ascii: "is_ascii (sign_payload secret ts body)"
  unfolding sign_payload_def Let_def hmac_hexdigest_def by (rule hexdigest_ascii)

lemma length_sign_payload [simp]: "length (sign_payload secret ts body) = 64"
  by (simp add: sign_payload_def Let_def)

lemma show_int_plain: "c \<in> set (show_int i) \<Longrightarrow> \<not> is_space c \<and> c \<noteq> CHR '','' \<and> c \<noteq> CHR ''=''"
  using show_int_chars [of c i]
  by (auto simp: is_digit_def is_space_def code_def Let_def)

lemma header_parts_built:
  "header_parts (build_signature_header secret ts body) =
     [''t'' \<mapsto> show_int ts, ''v1'' \<mapsto> sign_payload secret ts body]"
proof -
  let ?n = "show_int ts" and ?s = "sign_payload secret ts body"
  have nc: "CHR '','' \<notin> set ?n" "CHR ''='' \<notin> set ?n"
    and sc: "CHR '','' \<notin> set ?s" "CHR ''='' \<notin> set ?s"
    using show_int_plain [of _ ts] sign_payload_chars by blast+
  have "build_signature_header secret ts body = (''t='' @ ?n) @ CHR '','' # (''v1='' @ ?s)"
    by (simp add: build_signature_header_def)
  then have "split_on CHR '','' (build_signature_header secret ts body) = [''t='' @ ?n, ''v1='' @ ?s]"
    using nc sc split_on_append [of "CHR '',''" "''t='' @ ?n" "''v1='' @ ?s"]
    by (simp add: split_on_none)
  moreover have "partition_on CHR ''='' (''t='' @ ?n) = (''t'', True, ?n)"
    using partition_on_append [of "CHR ''=''" "''t''" ?n] by simp
  moreover have "partition_on CHR ''='' (''v1='' @ ?s) = (''v1'', True, ?s)"
    using partition_on_append [of "CHR ''=''" "''v1''" ?s] by simp
  moreover have "strip ?n = ?n" "strip ?s = ?s"
    using show_int_plain [of _ ts] sign_payload_chars by (auto intro!: strip_id)
  moreover have "strip ''t'' = ''t''" "strip ''v1'' = ''v1''"
    by (simp_all add: strip_def is_space_def code_def)
  ultimately show ?thesis
    by (simp add: header_parts_def add_part_def)
qed

section \<open>Acceptance and soundness\<close>

lemma small_no_overflow: "\<bar>n\<bar> < 2 ^ 64 \<Longrightarrow> \<not> float_overflows n"
  by (simp add: float_overflows_def)

lemma verify_built:
  assumes "\<bar>ts\<bar> < 2 ^ 64" "\<bar>now - of_int ts\<bar> \<le> 300"
  shows "verify_signature secret (Some (build_signature_header secret ts body)) body now = Inr (True, ''ok'')"
proof -
  have "build_signature_header secret ts body \<noteq> []"
    by (simp add: build_signature_header_def)
  moreover have "sign_payload secret ts body \<noteq> []"
    by (metis length_sign_payload length_0_conv zero_neq_numeral)
  ultimately show ?thesis
    using assms small_no_overflow [OF assms(1)]
    by (simp add: verify_signature_def truthy_def header_parts_built parse_int_show_int
        max_age_seconds_def compare_digest_def sign_payload_ascii)
qed

lemma verify_sound:
  assumes "verify_signature secret h body now = Inr (True, why)"
  shows "\<exists>hv ts. h = Some hv \<and> header_parts hv ''v1'' = Some (sign_payload secret ts body)
           \<and> (\<exists>s. header_parts hv ''t'' = Some s \<and> parse_int s = Some ts)
           \<and> \<bar>now - of_int ts\<bar> \<le> 300"
  using assms
  by (auto simp: verify_signature_def truthy_def Let_def compare_digest_def max_age_seconds_def bind_exc_def
      split: if_splits option.splits)

lemma demo_verify_eq: "demo_verify_signature = verify_signature"
  by (intro ext) (simp add: demo_verify_signature_def verify_signature_def sign_payload_def Let_def
      bind_exc_def split: option.split sum.split)

section \<open>The contract a receiver relies on\<close>

text \<open>
  A signature scheme as its two sides see it: what the sender signs within the window the receiver
  accepts, and nothing is accepted that was not signed with the secret for an instant in the window.
\<close>

locale signature_scheme =
  fixes sign :: "string \<Rightarrow> int \<Rightarrow> bytes \<Rightarrow> string"
    and header :: "string \<Rightarrow> int \<Rightarrow> bytes \<Rightarrow> string"
    and verify :: "string \<Rightarrow> string option \<Rightarrow> bytes \<Rightarrow> rat \<Rightarrow> py_exc + bool \<times> string"
    and parts :: "string \<Rightarrow> (string \<rightharpoonup> string)"
  assumes accepts: "\<bar>ts\<bar> < 2 ^ 64 \<Longrightarrow> \<bar>now - of_int ts\<bar> \<le> 300 \<Longrightarrow>
        verify k (Some (header k ts b)) b now = Inr (True, ''ok'')"
    and sound: "verify k h b now = Inr (True, why) \<Longrightarrow>
        \<exists>hv ts. h = Some hv \<and> parts hv ''v1'' = Some (sign k ts b)
          \<and> (\<exists>s. parts hv ''t'' = Some s \<and> parse_int s = Some ts) \<and> \<bar>now - of_int ts\<bar> \<le> 300"
begin

lemma rejects_unsigned:
  assumes "h = Some hv" "parts hv ''v1'' = Some s" "\<And>ts. s \<noteq> sign k ts b"
  shows "verify k h b now \<noteq> Inr (True, why)"
  using sound [of k h b now why] assms by auto

lemma rejects_stale:
  assumes "h = Some hv" "parts hv ''t'' = Some s" "parse_int s = Some ts" "300 < \<bar>now - of_int ts\<bar>"
  shows "verify k h b now \<noteq> Inr (True, why)"
  using sound [of k h b now why] assms by auto

end

interpretation webhook: signature_scheme sign_payload build_signature_header verify_signature header_parts
  by unfold_locales (fact verify_built, fact verify_sound)

interpretation demo: signature_scheme sign_payload build_signature_header demo_verify_signature header_parts
  unfolding demo_verify_eq by unfold_locales (fact verify_built, fact verify_sound)

section \<open>Properties of the verifiers\<close>

text \<open>C16: A signature is accepted exactly when it should be: the header built for a body is accepted by
  the platform's verifier and by the integrators' copy within the five-minute window, and a header that
  either accepts carries the HMAC of the very body under the secret for an instant in the window.\<close>

theorem signature_accepted_iff_signed:
  assumes "\<bar>ts\<bar> < 2 ^ 64" "\<bar>now - of_int ts\<bar> \<le> 300" "v \<in> {verify_signature, demo_verify_signature}"
  shows "v secret (Some (build_signature_header secret ts body)) body now = Inr (True, ''ok'')
    \<and> (\<forall>h b why. v secret h b now = Inr (True, why) \<longrightarrow>
         (\<exists>hv ts'. h = Some hv \<and> header_parts hv ''v1'' = Some (sign_payload secret ts' b)
            \<and> (\<exists>s. header_parts hv ''t'' = Some s \<and> parse_int s = Some ts') \<and> \<bar>now - of_int ts'\<bar> \<le> 300))"
  using webhook.accepts [OF assms(1,2)] webhook.sound demo.accepts [OF assms(1,2)] demo.sound assms(3)
  by blast

theorem signature_accepted_iff_signed_witness:
  "verify_signature ''k'' (Some (build_signature_header ''k'' 1700000000 (encode ''body''))) (encode ''body'') 1700000200
     = Inr (True, ''ok'')"
  using signature_accepted_iff_signed [of 1700000000 1700000200 verify_signature "''k''" "encode ''body''"] by simp

lemma parts_non_ascii: "header_parts (''t=0,v1='' @ [char_of (233 :: nat)]) = [''t'' \<mapsto> ''0'', ''v1'' \<mapsto> [char_of (233 :: nat)]]"
  by (simp add: header_parts_def add_part_def partition_on_def strip_def is_space_def code_def of_char_of Let_def
      char_of_eq_iff)

text \<open>A timestamp of a one and \<open>n\<close> zeros.\<close>

definition long_stamp :: "nat \<Rightarrow> string" where
  "long_stamp n = CHR ''1'' # replicate n (CHR ''0'')"

lemma long_stamp_plain: "c \<in> set (long_stamp n) \<Longrightarrow> is_digit c \<and> \<not> is_space c \<and> c \<noteq> CHR '','' \<and> c \<noteq> CHR ''=''"
  by (auto simp: long_stamp_def is_digit_def is_space_def code_def)

lemma parse_long_stamp:
  assumes "n < 4300"
  shows "parse_int (long_stamp n) = Some (10 ^ n)"
proof -
  have "int_digits_ok p s" if "s \<noteq> []" "\<forall>c \<in> set s. is_digit c" for p s
    using that by (induction s arbitrary: p) (auto simp: neq_Nil_conv, metis int_digits_ok.simps list.exhaust)
  then have ok: "int_digits_ok False (long_stamp n)"
    using long_stamp_plain [of _ n] by (metis list.distinct(1) long_stamp_def)
  have fil: "filter is_digit (long_stamp n) = long_stamp n"
    using long_stamp_plain [of _ n] by (simp add: filter_id_conv)
  have "foldl (\<lambda>a c. 10 * a + (code c - 48)) v (replicate n (CHR ''0'')) = v * 10 ^ n" for v
    by (induction n arbitrary: v) (auto simp: code_def)
  then have "digits_value (long_stamp n) = 10 ^ n"
    by (simp add: digits_value_def long_stamp_def code_def)
  moreover have "strip (long_stamp n) = long_stamp n"
    using long_stamp_plain [of _ n] by (simp add: strip_id)
  moreover have "parse_digits (long_stamp n) = Some (digits_value (long_stamp n))"
    using assms ok fil by (simp add: parse_digits_def) (simp add: long_stamp_def)
  ultimately show ?thesis
    by (simp add: parse_int_def) (simp add: long_stamp_def)
qed

lemma long_stamp_parts: "header_parts (''t='' @ long_stamp n @ '',v1=0'') = [''t'' \<mapsto> long_stamp n, ''v1'' \<mapsto> ''0'']"
proof -
  let ?n = "long_stamp n"
  have "split_on CHR '','' ((''t='' @ ?n) @ CHR '','' # ''v1=0'') = [''t='' @ ?n, ''v1=0'']"
    using long_stamp_plain [of _ n] split_on_append [of "CHR '',''" "''t='' @ ?n" "''v1=0''"] by (auto simp: split_on_none)
  moreover have "partition_on CHR ''='' (''t='' @ ?n) = (''t'', True, ?n)"
    using partition_on_append [of "CHR ''=''" "''t''" ?n] by simp
  moreover have "partition_on CHR ''='' ''v1=0'' = (''v1'', True, ''0'')"
    using partition_on_append [of "CHR ''=''" "''v1''" "''0''"] by simp
  moreover have "strip ?n = ?n"
    using long_stamp_plain [of _ n] by (simp add: strip_id)
  moreover have "strip ''t'' = ''t''" "strip ''v1'' = ''v1''" "strip ''0'' = ''0''"
    by (simp_all add: strip_def is_space_def code_def)
  ultimately show ?thesis
    by (simp add: header_parts_def add_part_def)
qed

lemma verify_overflow:
  assumes "header_parts h ''t'' = Some s" "header_parts h ''v1'' = Some v" "h \<noteq> []" "s \<noteq> []" "v \<noteq> []"
    and "parse_int s = Some ts" "float_overflows ts"
  shows "verify_signature secret (Some h) body now = Inl OverflowError"
  using assms by (simp add: verify_signature_def truthy_def)

lemma verify_long_stamp:
  "verify_signature secret (Some (''t='' @ long_stamp 309 @ '',v1=0'')) body now = Inl OverflowError"
proof (rule verify_overflow [where s = "long_stamp 309" and v = "''0''"])
  show "float_overflows (10 ^ 309)"
    by (simp add: float_overflows_def)
  show "parse_int (long_stamp 309) = Some (10 ^ 309)"
    by (rule parse_long_stamp) simp
  show "long_stamp 309 \<noteq> []"
    by (simp add: long_stamp_def)
qed (simp_all add: long_stamp_parts del: append.simps)

text \<open>The verifier's documented answer is a pair on success and on failure, but a header whose
  signature part holds a character outside ASCII makes the comparison raise TypeError, and one whose
  timestamp is too large for a float makes the age raise OverflowError, for every secret and body.\<close>

theorem verify_non_ascii_raises:
  "verify_signature secret (Some (''t=0,v1='' @ [char_of (233 :: nat)])) body 0 = Inl TypeError
     \<and> verify_signature secret (Some (''t='' @ long_stamp 309 @ '',v1=0'')) body now = Inl OverflowError"
proof -
  have "parse_int ''0'' = Some 0"
    by (simp add: parse_int_def parse_digits_def digits_value_def strip_def is_space_def is_digit_def code_def)
  moreover have "\<not> is_ascii [char_of (233 :: nat)]" "\<not> float_overflows 0"
    by (simp_all add: is_ascii_def code_def of_char_of float_overflows_def)
  ultimately show ?thesis
    using verify_long_stamp
    by (simp add: verify_signature_def [of secret "Some (''t=0,v1='' @ [char_of (233 :: nat)])"] truthy_def parts_non_ascii
        max_age_seconds_def compare_digest_def Let_def del: append.simps)
qed

end
