(* ===== verification/Base64.thy ===== *)
theory Base64
  imports Py_Strings
begin

text \<open>
  \<^verbatim>\<open>base64.urlsafe_b64encode\<close>, \<^verbatim>\<open>base64.urlsafe_b64decode\<close> and \<^verbatim>\<open>secrets.token_urlsafe\<close>. The decoder
  is the one of \<^verbatim>\<open>binascii\<close> in its non-strict mode: characters outside the alphabet are skipped
  and a complete padding ends the input.
\<close>

definition b64_char :: "nat \<Rightarrow> char" where
  "b64_char n =
     (if n < 26 then char_of (65 + n) else if n < 52 then char_of (71 + n)
      else if n < 62 then char_of (n - 4) else if n = 62 then CHR ''-'' else CHR ''_'')"

definition b64_value :: "char \<Rightarrow> nat option" where
  "b64_value c =
     (let n = code c in
      if 65 \<le> n \<and> n \<le> 90 then Some (n - 65) else if 97 \<le> n \<and> n \<le> 122 then Some (n - 71)
      else if 48 \<le> n \<and> n \<le> 57 then Some (n + 4)
      else if n = 45 \<or> n = 43 then Some 62 else if n = 95 \<or> n = 47 then Some 63 else None)"

fun urlsafe_b64encode :: "nat list \<Rightarrow> string" where
  "urlsafe_b64encode [] = []"
| "urlsafe_b64encode [a] =
     [b64_char (a div 4), b64_char (a mod 4 * 16), CHR ''='', CHR ''='']"
| "urlsafe_b64encode [a, b] =
     [b64_char (a div 4), b64_char (a mod 4 * 16 + b div 16), b64_char (b mod 16 * 4), CHR ''='']"
| "urlsafe_b64encode (a # b # c # bs) =
     b64_char (a div 4) # b64_char (a mod 4 * 16 + b div 16)
     # b64_char (b mod 16 * 4 + c div 64) # b64_char (c mod 64) # urlsafe_b64encode bs"

text \<open>The decoder's loop: position in the quad, bits left over, padding seen, output so far.\<close>

fun a2b :: "nat \<Rightarrow> nat \<Rightarrow> nat \<Rightarrow> nat list \<Rightarrow> string \<Rightarrow> nat list option" where
  "a2b q left pads out [] = (if q = 0 then Some (rev out) else None)"
| "a2b q left pads out (c # cs) =
     (if c = CHR ''='' then
        if 2 \<le> q then if 4 \<le> q + pads + 1 then Some (rev out) else a2b q left (pads + 1) out cs
        else a2b q left pads out cs
      else case b64_value c of
          None \<Rightarrow> a2b q left pads out cs
        | Some v \<Rightarrow>
            if q = 0 then a2b 1 v 0 out cs
            else if q = 1 then a2b 2 (v mod 16) 0 ((left * 4 + v div 16) # out) cs
            else if q = 2 then a2b 3 (v mod 4) 0 ((left * 16 + v div 4) # out) cs
            else a2b 0 0 0 ((left * 64 + v) # out) cs)"

definition urlsafe_b64decode :: "string \<Rightarrow> nat list option" where
  "urlsafe_b64decode s = a2b 0 0 0 [] s"

lemma b64_value_char: "n < 64 \<Longrightarrow> b64_value (b64_char n) = Some n"
  by (auto simp: b64_value_def b64_char_def code_def of_char_of Let_def)

lemma b64_char_not_pad: "n < 64 \<Longrightarrow> b64_char n \<noteq> CHR ''=''"
proof
  assume "n < 64" "b64_char n = CHR ''=''"
  then have "b64_value CHR ''='' = Some n"
    using b64_value_char by metis
  then show False
    by (simp add: b64_value_def code_def)
qed

lemma a2b_value:
  "n < 64 \<Longrightarrow> a2b q left pads out (b64_char n # cs) =
     (if q = 0 then a2b 1 n 0 out cs
      else if q = 1 then a2b 2 (n mod 16) 0 ((left * 4 + n div 16) # out) cs
      else if q = 2 then a2b 3 (n mod 4) 0 ((left * 16 + n div 4) # out) cs
      else a2b 0 0 0 ((left * 64 + n) # out) cs)"
  by (simp add: b64_value_char b64_char_not_pad)

lemma pack_div: "(y :: nat) < k \<Longrightarrow> (x * k + y) div k = x"
  and pack_mod: "(y :: nat) < k \<Longrightarrow> (x * k + y) mod k = y"
  by auto

lemma b64_pack2:
  assumes "a < 256" "b < (256 :: nat)"
  shows "a mod 4 * 16 + b div 16 < 64"
    and "a div 4 * 4 + (a mod 4 * 16 + b div 16) div 16 = a"
    and "(a mod 4 * 16 + b div 16) mod 16 = b div 16"
proof -
  have b: "b div 16 < 16"
    using assms by (simp add: less_mult_imp_div_less)
  then show "a mod 4 * 16 + b div 16 < 64"
    using mod_less_divisor [of 4 a] by linarith
  show "(a mod 4 * 16 + b div 16) mod 16 = b div 16"
    using b by (rule pack_mod)
  have "(a mod 4 * 16 + b div 16) div 16 = a mod 4"
    using b by (rule pack_div)
  then show "a div 4 * 4 + (a mod 4 * 16 + b div 16) div 16 = a"
    by simp
qed

lemma b64_pack3:
  assumes "c < (256 :: nat)"
  shows "b mod 16 * 4 + c div 64 < 64"
    and "b div 16 * 16 + (b mod 16 * 4 + c div 64) div 4 = b"
    and "(b mod 16 * 4 + c div 64) mod 4 = c div 64"
proof -
  have c: "c div 64 < 4"
    using assms by (simp add: less_mult_imp_div_less)
  then show "b mod 16 * 4 + c div 64 < 64"
    using mod_less_divisor [of 16 b] by linarith
  show "(b mod 16 * 4 + c div 64) mod 4 = c div 64"
    using c by (rule pack_mod)
  have "(b mod 16 * 4 + c div 64) div 4 = b mod 16"
    using c by (rule pack_div)
  then show "b div 16 * 16 + (b mod 16 * 4 + c div 64) div 4 = b"
    by simp
qed

lemma b64_first: "a < (256 :: nat) \<Longrightarrow> a div 4 < 64"
  by (simp add: less_mult_imp_div_less)

lemma a2b_pad: "a2b 2 l 0 out [CHR ''='', CHR ''=''] = Some (rev out)"
  "a2b 3 l 0 out [CHR ''=''] = Some (rev out)"
  by simp_all

lemmas b64_pack_simps = a2b_value b64_pack2 b64_pack3 b64_first

text \<open>Decoding is the inverse of encoding, for every list of bytes.\<close>

lemma a2b_encode:
  "\<forall>x \<in> set bs. x < 256 \<Longrightarrow> a2b 0 0 0 out (urlsafe_b64encode bs) = Some (rev out @ bs)"
proof (induction bs arbitrary: out rule: urlsafe_b64encode.induct)
  case 1
  then show ?case by simp
next
  case (2 a)
  then show ?case
    using b64_pack2 [of a 0] by (simp add: b64_pack_simps a2b_pad del: a2b.simps(2))
next
  case (3 a b)
  then have "b div 16 < 16"
    by (simp add: less_mult_imp_div_less)
  with 3 show ?case
    using b64_pack3 [of 0 b] by (simp add: b64_pack_simps a2b_pad del: a2b.simps(2))
next
  case (4 a b c bs)
  then have "b div 16 < 16" "c div 64 < 4"
    by (simp_all add: less_mult_imp_div_less)
  with 4 show ?case
    by (simp add: b64_pack_simps del: a2b.simps(2))
qed

lemma b64_roundtrip:
  "\<forall>x \<in> set bs. x < 256 \<Longrightarrow> urlsafe_b64decode (urlsafe_b64encode bs) = Some bs"
  by (simp add: urlsafe_b64decode_def a2b_encode)

text \<open>\<^verbatim>\<open>secrets.token_urlsafe(n)\<close> over the random bytes drawn: no padding.\<close>

definition token_urlsafe :: "nat list \<Rightarrow> string" where
  "token_urlsafe rnd = rstrip_char CHR ''='' (urlsafe_b64encode rnd)"

end
