(* ===== verification/Crypto.thy ===== *)
theory Crypto
  imports Models Sha256 Base64 Config
begin

text \<open>
  Keys and secrets: \<^verbatim>\<open>app/services/crypto.py\<close> (endpoint secrets, encrypted at rest with Fernet)
  and the key helpers of \<^verbatim>\<open>app/models/api_key.py\<close>. Fernet belongs to a third-party package: its
  encryption (with the random bytes it draws) and decryption are parameters, and \<^term>\<open>fernet_ok\<close> is
  the documented property the code relies on. Random bytes are arguments.
\<close>

section \<open>Endpoint secrets\<close>

type_synonym fernet_enc = "string \<Rightarrow> nat list \<Rightarrow> string \<Rightarrow> string"
type_synonym fernet_dec = "string \<Rightarrow> string \<Rightarrow> string option"

definition fernet_ok :: "fernet_enc \<Rightarrow> fernet_dec \<Rightarrow> bool" where
  "fernet_ok fenc fdec \<longleftrightarrow> (\<forall>key rnd p. fdec key (fenc key rnd p) = Some p)"

definition generate_endpoint_secret :: "bytes \<Rightarrow> string" where
  "generate_endpoint_secret rnd = hexlify rnd"

definition encrypt_secret :: "fernet_enc \<Rightarrow> settings \<Rightarrow> nat list \<Rightarrow> string \<Rightarrow> string" where
  "encrypt_secret fenc st rnd plaintext = fenc (endpoint_secret_key st) rnd plaintext"

definition decrypt_secret :: "fernet_dec \<Rightarrow> settings \<Rightarrow> string \<Rightarrow> py_exc + string" where
  "decrypt_secret fdec st ciphertext =
     (case fdec (endpoint_secret_key st) ciphertext of None \<Rightarrow> Inl InvalidToken | Some p \<Rightarrow> Inr p)"

lemma decrypt_encrypt:
  "fernet_ok fenc fdec \<Longrightarrow> decrypt_secret fdec st (encrypt_secret fenc st rnd p) = Inr p"
  by (simp add: fernet_ok_def decrypt_secret_def encrypt_secret_def)

section \<open>API keys\<close>

definition key_prefix :: string where
  "key_prefix = ''whk_''"

definition hash_api_key :: "string \<Rightarrow> string" where
  "hash_api_key plaintext = sha256_hexdigest (encode plaintext)"

definition generate_api_key :: "nat list \<Rightarrow> string \<times> string \<times> string" where
  "generate_api_key rnd =
     (let raw = token_urlsafe rnd; plaintext = key_prefix @ raw
      in (plaintext, take (length key_prefix + 8) plaintext, hash_api_key plaintext))"

lemma generate_api_key_shape:
  assumes "generate_api_key rnd = (plaintext, prefix, h)"
  shows "starts_with key_prefix plaintext" and "starts_with prefix plaintext"
    and "length prefix \<le> 12" and "h = hash_api_key plaintext" and "length h = 64"
  using assms by (auto simp: generate_api_key_def Let_def starts_with_def key_prefix_def hash_api_key_def min_def)

end
