(* ===== verification/Urls.thy ===== *)
theory Urls
  imports Uuids
begin

text \<open>
  The part of the standard library that \<^verbatim>\<open>app/services/ssrf.py\<close> rests on, as CPython 3.12 has it:
  \<^verbatim>\<open>urlparse(url).hostname\<close> and \<^verbatim>\<open>ipaddress.ip_address\<close>. A parse that raises ValueError is
  None. Host names are text of code points below 256.
\<close>

unbundle bit_operations_syntax

section \<open>IP addresses\<close>

datatype ip_address = IPv4 "32 word" | IPv6 "128 word"

definition parse_octet :: "string \<Rightarrow> nat option" where
  "parse_octet s =
     (if s = [] \<or> \<not> list_all is_digit s \<or> 3 < length s
         \<or> (s \<noteq> ''0'' \<and> hd s = CHR ''0'') \<or> 255 < digits_value s
      then None else Some (digits_value s))"

fun octets_value :: "nat list \<Rightarrow> nat" where
  "octets_value [a, b, c, d] = a * 16777216 + b * 65536 + c * 256 + d"
| "octets_value _ = 0"

definition parse_ipv4 :: "string \<Rightarrow> nat option" where
  "parse_ipv4 s =
     (let parts = split_on CHR ''.'' s
      in if CHR ''/'' \<in> set s \<or> length parts \<noteq> 4 \<or> None \<in> set (map parse_octet parts) then None
         else Some (octets_value (map (the \<circ> parse_octet) parts)))"

definition parse_hextet :: "string \<Rightarrow> nat option" where
  "parse_hextet s =
     (if s = [] \<or> 4 < length s \<or> None \<in> set (map hex_value s) then None
      else Some (foldl (\<lambda>a c. 16 * a + the (hex_value c)) 0 s))"

definition hextets_value :: "nat list \<Rightarrow> nat" where
  "hextets_value hs = foldl (\<lambda>a h. 65536 * a + h) 0 hs"

text \<open>
  The parts of an IPv6 text, with a trailing dotted quad already replaced by two hextets: no empty
  part inside means eight hextets, one empty part stands for the run of zeros.
\<close>

definition inner_empty :: "string list \<Rightarrow> nat list" where
  "inner_empty parts = filter (\<lambda>i. parts ! i = []) [1..<length parts - 1]"

definition ipv6_of_parts :: "(nat option) list \<Rightarrow> string list \<Rightarrow> nat option" where
  "ipv6_of_parts vals parts =
     (let n = length parts; empties = inner_empty parts
      in if n < 3 \<or> 9 < n \<or> 1 < length empties then None
         else case empties of
             [] \<Rightarrow>
               if n \<noteq> 8 \<or> hd parts = [] \<or> last parts = [] \<or> None \<in> set vals then None
               else Some (hextets_value (map the vals))
           | k # _ \<Rightarrow>
               (let hi = (if hd parts = [] then k - 1 else k);
                    lo = (if last parts = [] then n - k - 2 else n - k - 1)
                in if (hd parts = [] \<and> hi \<noteq> 0) \<or> (last parts = [] \<and> lo \<noteq> 0) \<or> 8 \<le> hi + lo
                   then None
                   else let his = take hi vals; los = drop (n - lo) vals
                        in if None \<in> set his \<union> set los then None
                           else Some (hextets_value
                             (map the his @ replicate (8 - (hi + lo)) 0 @ map the los))))"

definition parse_ipv6_groups :: "string \<Rightarrow> nat option" where
  "parse_ipv6_groups s =
     (let parts = split_on CHR '':'' s
      in if length parts < 3 then None
         else if CHR ''.'' \<in> set (last parts) then
           (case parse_ipv4 (last parts) of
              None \<Rightarrow> None
            | Some v \<Rightarrow>
                ipv6_of_parts
                  (map parse_hextet (butlast parts) @ [Some (v div 65536), Some (v mod 65536)])
                  (butlast parts @ [''v4'', ''v4'']))
         else ipv6_of_parts (map parse_hextet parts) parts)"

definition parse_ipv6 :: "string \<Rightarrow> nat option" where
  "parse_ipv6 s =
     (case partition_on CHR ''%'' s of (addr, has_scope, scope) \<Rightarrow>
        if CHR ''/'' \<in> set s \<or> addr = [] \<or> (has_scope \<and> (scope = [] \<or> CHR ''%'' \<in> set scope)) then None
        else parse_ipv6_groups addr)"

definition ip_address :: "string \<Rightarrow> ip_address option" where
  "ip_address s =
     (case parse_ipv4 s of
        Some n \<Rightarrow> Some (IPv4 (of_nat n))
      | None \<Rightarrow> map_option (\<lambda>n. IPv6 (of_nat n)) (parse_ipv6 s))"

section \<open>URLs\<close>

definition is_alpha :: "char \<Rightarrow> bool" where
  "is_alpha c \<longleftrightarrow> (let n = code c in (65 \<le> n \<and> n \<le> 90) \<or> (97 \<le> n \<and> n \<le> 122))"

definition scheme_char :: "char \<Rightarrow> bool" where
  "scheme_char c \<longleftrightarrow> is_alpha c \<or> is_digit c \<or> c \<in> set ''+-.''"

text \<open>Leading control characters and spaces go; tabs and newlines go everywhere.\<close>

definition clean_url :: "string \<Rightarrow> string" where
  "clean_url url =
     filter (\<lambda>c. code c \<notin> {9, 10, 13}) (dropWhile (\<lambda>c. code c \<le> 32) url)"

definition drop_scheme :: "string \<Rightarrow> string" where
  "drop_scheme url =
     (case partition_on CHR '':'' url of (s, found, rest) \<Rightarrow>
        if found \<and> s \<noteq> [] \<and> is_alpha (hd s) \<and> list_all scheme_char s then rest else url)"

definition url_netloc :: "string \<Rightarrow> string" where
  "url_netloc url =
     (let r = drop_scheme (clean_url url)
      in if take 2 r = ''//'' then takeWhile (\<lambda>c. c \<notin> set ''/?#'') (drop 2 r) else [])"

definition bracketed_host :: "string \<Rightarrow> string" where
  "bracketed_host netloc =
     fst (partition_on CHR '']'' (snd (snd (partition_on CHR ''['' netloc))))"

definition ipvfuture_ok :: "string \<Rightarrow> bool" where
  "ipvfuture_ok h =
     (case partition_on CHR ''.'' (tl h) of (v, found, rest) \<Rightarrow>
        v \<noteq> [] \<and> None \<notin> set (map hex_value v) \<and> found \<and> rest \<noteq> [] \<and> CHR 0x0A \<notin> set rest)"

text \<open>Unbalanced brackets, or brackets around something that is not an IPv6 address.\<close>

definition netloc_ok :: "string \<Rightarrow> bool" where
  "netloc_ok netloc =
     (if CHR ''['' \<in> set netloc \<and> CHR '']'' \<in> set netloc then
        (let h = bracketed_host netloc
         in if take 1 h = ''v'' then ipvfuture_ok h
            else case ip_address h of Some (IPv6 _) \<Rightarrow> True | _ \<Rightarrow> False)
      else CHR ''['' \<notin> set netloc \<and> CHR '']'' \<notin> set netloc)"

definition netloc_host :: "string \<Rightarrow> string" where
  "netloc_host netloc =
     (let hostinfo = after_last CHR ''@'' netloc
      in case partition_on CHR ''['' hostinfo of (_, have_open_br, bracketed) \<Rightarrow>
           if have_open_br then fst (partition_on CHR '']'' bracketed)
           else fst (partition_on CHR '':'' hostinfo))"

text \<open>\<^verbatim>\<open>urlparse(url).hostname\<close>: None for a ValueError, the empty string for no host.\<close>

definition url_hostname :: "string \<Rightarrow> string option" where
  "url_hostname url =
     (let netloc = url_netloc url
      in if \<not> netloc_ok netloc then None
         else case partition_on CHR ''%'' (netloc_host netloc) of (h, found, zone) \<Rightarrow>
           Some (lower h @ (if found then CHR ''%'' # zone else [])))"

section \<open>Facts about dotted quads\<close>

lemma show_nat_small: "n < 10 \<Longrightarrow> show_nat n = [digit n]"
  by (subst show_nat.simps) simp

lemma show_nat_zero: "show_nat 0 = ''0''"
  by code_simp

lemma show_nat_step: "10 \<le> n \<Longrightarrow> show_nat n = show_nat (n div 10) @ [digit (n mod 10)]"
  by (subst show_nat.simps) simp

lemma hd_show_nat: "0 < n \<Longrightarrow> hd (show_nat n) \<noteq> CHR ''0''"
proof (induction n rule: show_nat.induct)
  case (1 n)
  show ?case
  proof (cases "n < 10")
    case True
    then have "code (hd (show_nat n)) = 48 + n"
      by (simp add: show_nat_small)
    with 1 show ?thesis by (auto simp: code_def)
  next
    case False
    with 1 show ?thesis
      by (simp add: show_nat_step hd_append)
  qed
qed

lemma parse_octet_show:
  assumes "n < 256"
  shows "parse_octet (show_nat n) = Some n"
proof -
  have "length (show_nat n) \<le> 3"
    using assms length_show_nat [of n 2] by simp
  moreover have "list_all is_digit (show_nat n)"
    using show_nat_digits by (auto simp: list_all_iff)
  moreover have "show_nat n \<noteq> ''0'' \<Longrightarrow> hd (show_nat n) \<noteq> CHR ''0''"
  proof -
    assume "show_nat n \<noteq> ''0''"
    then have "n \<noteq> 0"
      using show_nat_zero by (cases "n = 0") simp_all
    then show ?thesis
      using hd_show_nat by simp
  qed
  ultimately show ?thesis
    using assms by (auto simp: parse_octet_def digits_value_show_nat)
qed

definition dotted :: "nat \<Rightarrow> nat \<Rightarrow> nat \<Rightarrow> nat \<Rightarrow> string" where
  "dotted a b c d = show_nat a @ ''.'' @ show_nat b @ ''.'' @ show_nat c @ ''.'' @ show_nat d"

lemma show_nat_no: "\<not> is_digit c \<Longrightarrow> c \<notin> set (show_nat n)"
  using show_nat_digits by blast

lemma sep_not_digit:
  "\<not> is_digit CHR ''.''" "\<not> is_digit CHR ''/''" "\<not> is_digit CHR '':''" "\<not> is_digit CHR ''@''"
  "\<not> is_digit CHR ''[''" "\<not> is_digit CHR '']''" "\<not> is_digit CHR ''%''" "\<not> is_digit CHR ''?''"
  "\<not> is_digit CHR ''#''"
  by (simp_all add: is_digit_def code_def)

lemma split_dotted:
  "split_on CHR ''.'' (dotted a b c d) = [show_nat a, show_nat b, show_nat c, show_nat d]"
  using show_nat_no [OF sep_not_digit(1)]
  by (simp add: dotted_def split_on_append split_on_none)

lemma dotted_chars: "x \<in> set (dotted a b c d) \<Longrightarrow> is_digit x \<or> x = CHR ''.''"
  using show_nat_digits by (auto simp: dotted_def)

lemma parse_ipv4_dotted:
  assumes "a < 256" "b < 256" "c < 256" "d < 256"
  shows "parse_ipv4 (dotted a b c d) = Some (a * 16777216 + b * 65536 + c * 256 + d)"
proof -
  have "CHR ''/'' \<notin> set (dotted a b c d)"
    using dotted_chars sep_not_digit(2) by fastforce
  then show ?thesis
    using assms by (simp add: parse_ipv4_def Let_def split_dotted parse_octet_show)
qed

lemma ip_address_dotted:
  assumes "a < 256" "b < 256" "c < 256" "d < 256"
  shows "ip_address (dotted a b c d) = Some (IPv4 (of_nat (a * 16777216 + b * 65536 + c * 256 + d)))"
  using assms by (simp add: ip_address_def parse_ipv4_dotted)

lemma lower_dotted: "lower (dotted a b c d) = dotted a b c d"
proof -
  have "lower_char x = x" if "is_digit x \<or> x = CHR ''.''" for x
    using that by (auto simp: lower_char_def is_digit_def code_def Let_def)
  then show ?thesis
    unfolding lower_def by (intro map_idI) (blast dest: dotted_chars)
qed

text \<open>
  What may follow the host of a URL: nothing, or a port, path, query or fragment. The host name is
  then the dotted quad.
\<close>

definition host_end :: "string \<Rightarrow> bool" where
  "host_end s =
     (let ends = (\<lambda>t. t = [] \<or> hd t \<in> set ''/?#'')
      in ends s \<or> (hd s = CHR '':'' \<and> ends (dropWhile is_digit (tl s))))"

lemma host_end_port:
  assumes "host_end rest"
  shows "\<exists>p. takeWhile (\<lambda>c. c \<notin> set ''/?#'') rest = p
    \<and> (p = [] \<or> (\<exists>ds. p = CHR '':'' # ds \<and> (\<forall>x \<in> set ds. is_digit x)))"
proof (cases "rest = [] \<or> hd rest \<in> set ''/?#''")
  case True
  then show ?thesis
    by (cases rest) auto
next
  case False
  then obtain r where r: "rest = CHR '':'' # r" "dropWhile is_digit r = [] \<or> hd (dropWhile is_digit r) \<in> set ''/?#''"
    using assms by (cases rest) (auto simp: host_end_def Let_def)
  have d: "\<forall>x \<in> set (takeWhile is_digit r). is_digit x"
    by (auto dest: set_takeWhileD)
  then have "\<forall>x \<in> set (takeWhile is_digit r). x \<notin> set ''/?#''"
    using sep_not_digit by auto
  moreover have "takeWhile (\<lambda>c. c \<notin> set ''/?#'') (dropWhile is_digit r) = []"
  proof (cases "dropWhile is_digit r = []")
    case False
    then obtain c t where "dropWhile is_digit r = c # t" "c \<in> set ''/?#''"
      using r(2) by (cases "dropWhile is_digit r") auto
    then show ?thesis
      by simp
  next
    case True
    then show ?thesis
      by (simp only: takeWhile.simps)
  qed
  ultimately have "takeWhile (\<lambda>c. c \<notin> set ''/?#'') (takeWhile is_digit r @ dropWhile is_digit r) = takeWhile is_digit r"
    by (subst takeWhile_append2) auto
  then show ?thesis
    using r(1) d by simp
qed

lemma clean_url_http:
  assumes "\<forall>c \<in> set s. code c \<notin> {9, 10, 13}"
  shows "clean_url (''http://'' @ s) = ''http://'' @ s"
  using assms by (simp add: clean_url_def code_def filter_id_conv)

lemma drop_scheme_http: "drop_scheme (''http://'' @ s) = ''//'' @ s"
  by (simp add: drop_scheme_def partition_on_def is_alpha_def scheme_char_def code_def Let_def)

lemma url_hostname_dotted:
  assumes "host_end rest" "\<forall>c \<in> set rest. code c \<notin> {9, 10, 13}"
  shows "url_hostname (''http://'' @ dotted a b c d @ rest) = Some (dotted a b c d)"
proof -
  let ?q = "dotted a b c d"
  obtain p where p: "takeWhile (\<lambda>c. c \<notin> set ''/?#'') rest = p"
    "p = [] \<or> (\<exists>ds. p = CHR '':'' # ds \<and> (\<forall>x \<in> set ds. is_digit x))"
    using host_end_port [OF assms(1)] by blast
  have q: "\<forall>x \<in> set ?q. is_digit x \<or> x = CHR ''.''"
    using dotted_chars by blast
  have plain: "\<forall>x \<in> set ?q. code x \<notin> {9, 10, 13}"
    using q by (auto simp: is_digit_def code_def)
  have stop: "\<forall>x \<in> set ?q. x \<notin> set ''/?#''"
    using q sep_not_digit by auto
  have no_q: "x \<notin> set ?q" if "\<not> is_digit x" "x \<noteq> CHR ''.''" for x
    using q that by blast
  have no: "x \<notin> set (?q @ p)" if "\<not> is_digit x" "x \<noteq> CHR ''.''" "x \<noteq> CHR '':''" for x
    using no_q p(2) that by auto
  have "takeWhile (\<lambda>c. c \<notin> set ''/?#'') (?q @ rest) = ?q @ p"
    using stop p(1) by (subst takeWhile_append2) auto
  moreover have "clean_url (''http://'' @ ?q @ rest) = ''http://'' @ ?q @ rest"
    using plain assms(2) by (intro clean_url_http) auto
  ultimately have "url_netloc (''http://'' @ ?q @ rest) = ?q @ p"
    by (simp add: url_netloc_def drop_scheme_http [simplified])
  moreover have "netloc_ok (?q @ p)"
    using no sep_not_digit by (simp add: netloc_ok_def)
  moreover have "netloc_host (?q @ p) = ?q"
  proof -
    have "fst (partition_on CHR '':'' (?q @ p)) = ?q"
      using p(2) no_q [of "CHR '':''"] sep_not_digit
      by (auto simp: partition_on_none partition_on_append)
    then show ?thesis
      using no [of "CHR ''@''"] no [of "CHR ''[''"] sep_not_digit
      by (simp add: netloc_host_def after_last_none partition_on_none)
  qed
  moreover have "partition_on CHR ''%'' ?q = (?q, False, [])"
    using no_q sep_not_digit by (simp add: partition_on_none)
  ultimately show ?thesis
    by (simp add: url_hostname_def Let_def lower_dotted)
qed

end
