(* ===== verification/Ssrf.thy ===== *)
theory Ssrf
  imports Urls
begin

text \<open>
  The guard against server-side request forgery (\<^verbatim>\<open>app/services/ssrf.py\<close>): the blocked networks
  and the check that registration, update and every delivery attempt run on a target URL.
\<close>

definition ssrf_error_msg :: string where
  "ssrf_error_msg = ''Webhook URL targets a non-public address and cannot be registered''"

definition blocked_v4_networks :: "(32 word \<times> nat) list" where
  "blocked_v4_networks =
     [(2130706432, 8), (167772160, 8), (2886729728, 12), (3232235520, 16), (2851995648, 16)]"

definition blocked_v6_networks :: "(128 word \<times> nat) list" where
  "blocked_v6_networks = [(1, 128), (338288524927261089654018896841347694592, 10)]"

text \<open>\<^verbatim>\<open>addr in net\<close>: the address under the netmask is the network address.\<close>

definition in_net :: "nat \<Rightarrow> 'a::len word \<Rightarrow> 'a word \<times> nat \<Rightarrow> bool" where
  "in_net width addr net = (addr AND NOT (mask (width - snd net)) = fst net)"

definition blocked :: "ip_address \<Rightarrow> bool" where
  "blocked addr =
     (case addr of
        IPv4 w \<Rightarrow> w = 0 \<or> list_ex (in_net 32 w) blocked_v4_networks
      | IPv6 w \<Rightarrow> list_ex (in_net 128 w) blocked_v6_networks)"

definition validate_url_not_ssrf :: "string \<Rightarrow> py_exc + unit" where
  "validate_url_not_ssrf url =
     (case url_hostname url of
        None \<Rightarrow> Inl (ValueError ''Invalid URL'')
      | Some host \<Rightarrow>
          if host = [] then Inl (ValueError ''Could not parse host from URL'')
          else case ip_address host of
              None \<Rightarrow> Inr ()
            | Some addr \<Rightarrow> if blocked addr then Inl (SSRFError ssrf_error_msg) else Inr ())"

section \<open>Membership by prefix\<close>

lemma in_net_drop_bit:
  fixes w :: "'a::len word"
  assumes "take_bit k n = 0"
  shows "w AND NOT (mask k) = n \<longleftrightarrow> drop_bit k w = drop_bit k n"
proof
  assume "w AND NOT (mask k) = n"
  moreover have "drop_bit k (w AND NOT (mask k)) = drop_bit k w"
    by (rule bit_word_eqI) (auto simp: bit_simps dest: bit_imp_le_length)
  ultimately show "drop_bit k w = drop_bit k n"
    by simp
next
  assume eq: "drop_bit k w = drop_bit k n"
  have low: "\<not> bit n i" if "i < k" for i
    using arg_cong [OF assms, of "\<lambda>x. bit x i"] that by (simp add: bit_simps)
  show "w AND NOT (mask k) = n"
  proof (rule bit_word_eqI)
    fix i assume "i < LENGTH('a)"
    then show "bit (w AND NOT (mask k)) i = bit n i"
      using low [of i] arg_cong [OF eq, of "\<lambda>x. bit x (i - k)"]
      by (cases "i < k") (auto simp: bit_simps)
  qed
qed

lemma in_net_v4:
  assumes "N < 2 ^ 32" "p \<le> 32" "take_bit (32 - p) n = 0"
  shows "in_net 32 (of_nat N :: 32 word) (n, p) \<longleftrightarrow> N div 2 ^ (32 - p) = unat n div 2 ^ (32 - p)"
proof -
  have "in_net 32 (of_nat N :: 32 word) (n, p)
        \<longleftrightarrow> drop_bit (32 - p) (of_nat N :: 32 word) = drop_bit (32 - p) n"
    using assms(3) by (simp add: in_net_def in_net_drop_bit)
  also have "\<dots> \<longleftrightarrow> unat (drop_bit (32 - p) (of_nat N :: 32 word)) = unat (drop_bit (32 - p) n)"
    by (simp add: word_unat_eq_iff)
  also have "\<dots> \<longleftrightarrow> N div 2 ^ (32 - p) = unat n div 2 ^ (32 - p)"
    using assms(1) by (simp add: unat_drop_bit_eq unat_of_nat) (simp add: drop_bit_eq_div)
  finally show ?thesis .
qed

text \<open>The value of a dotted quad divided by the size of a block of addresses.\<close>

lemma div_block: "b div 16 * 16 \<le> b \<and> b < b div 16 * 16 + 16" for b :: nat
  using div_mult_mod_eq [of b 16] mod_less_divisor [of 16 b] by linarith

lemma quad_div:
  fixes a b c d :: nat
  assumes "b < 256" "c < 256" "d < 256"
  shows "(a * 16777216 + b * 65536 + c * 256 + d) div 16777216 = a"
    and "(a * 16777216 + b * 65536 + c * 256 + d) div 65536 = a * 256 + b"
    and "(a * 16777216 + b * 65536 + c * 256 + d) div 1048576 = a * 16 + b div 16"
proof -
  show "(a * 16777216 + b * 65536 + c * 256 + d) div 16777216 = a"
    using assms by (intro div_nat_eqI) simp_all
  show "(a * 16777216 + b * 65536 + c * 256 + d) div 65536 = a * 256 + b"
    using assms by (intro div_nat_eqI) simp_all
  show "(a * 16777216 + b * 65536 + c * 256 + d) div 1048576 = a * 16 + b div 16"
    using assms div_block [of b] by (intro div_nat_eqI) simp_all
qed

lemma pair_digits:
  fixes a b q r m :: nat
  assumes "q < m" "r < m"
  shows "a * m + q = b * m + r \<longleftrightarrow> a = b \<and> q = r"
proof
  assume eq: "a * m + q = b * m + r"
  then have "(a * m + q) mod m = (b * m + r) mod m" "(a * m + q) div m = (b * m + r) div m"
    by simp_all
  then show "a = b \<and> q = r"
    using assms by simp
qed simp

definition private_quad :: "nat \<Rightarrow> nat \<Rightarrow> nat \<Rightarrow> nat \<Rightarrow> bool" where
  "private_quad a b c d \<longleftrightarrow>
     a = 127 \<or> a = 10 \<or> (a = 172 \<and> 16 \<le> b \<and> b \<le> 31) \<or> (a = 192 \<and> b = 168) \<or> (a = 169 \<and> b = 254)
     \<or> (a = 0 \<and> b = 0 \<and> c = 0 \<and> d = 0)"

lemma blocked_quad:
  assumes "a < 256" "b < 256" "c < 256" "d < 256"
  shows "blocked (IPv4 (of_nat (a * 16777216 + b * 65536 + c * 256 + d))) \<longleftrightarrow> private_quad a b c d"
proof -
  define N where "N = a * 16777216 + b * 65536 + c * 256 + d"
  have N: "N < 4294967296"
    using assms by (simp add: N_def)
  have quads: "N div 16777216 = a" "N div 65536 = a * 256 + b" "N div 1048576 = a * 16 + b div 16"
    unfolding N_def using quad_div [OF assms(2-4)] by blast+
  have nets: "in_net 32 (of_nat N :: 32 word) (2130706432, 8) \<longleftrightarrow> a = 127"
    "in_net 32 (of_nat N :: 32 word) (167772160, 8) \<longleftrightarrow> a = 10"
    "in_net 32 (of_nat N :: 32 word) (2886729728, 12) \<longleftrightarrow> a * 16 + b div 16 = 2753"
    "in_net 32 (of_nat N :: 32 word) (3232235520, 16) \<longleftrightarrow> a * 256 + b = 49320"
    "in_net 32 (of_nat N :: 32 word) (2851995648, 16) \<longleftrightarrow> a * 256 + b = 43518"
    using N quads by (simp_all add: in_net_v4 take_bit_eq_mod)
  have "(of_nat N :: 32 word) = 0 \<longleftrightarrow> N = 0"
    using N by (simp add: word_of_nat_eq_0_iff) (auto dest: nat_dvd_not_less)
  moreover have "N = 0 \<longleftrightarrow> a = 0 \<and> b = 0 \<and> c = 0 \<and> d = 0"
    by (simp add: N_def)
  moreover have "a * 16 + b div 16 = 2753 \<longleftrightarrow> a = 172 \<and> 16 \<le> b \<and> b \<le> 31"
  proof -
    have "b div 16 < 16"
      using assms(2) by simp
    then have "a * 16 + b div 16 = 2753 \<longleftrightarrow> a = 172 \<and> b div 16 = 1"
      using pair_digits [of "b div 16" 16 1 a 172] by simp
    moreover have "b div 16 = 1 \<longleftrightarrow> 16 \<le> b \<and> b \<le> 31"
      using div_block [of b] by linarith
    ultimately show ?thesis
      by simp
  qed
  moreover have "a * 256 + b = 49320 \<longleftrightarrow> a = 192 \<and> b = 168"
    "a * 256 + b = 43518 \<longleftrightarrow> a = 169 \<and> b = 254"
    using pair_digits [of b 256 168 a 192] pair_digits [of b 256 254 a 169] assms(2) by simp_all
  ultimately show ?thesis
    unfolding N_def [symmetric]
    by (auto simp: blocked_def blocked_v4_networks_def nets private_quad_def)
qed

section \<open>The guard on dotted-quad URLs\<close>

lemma dotted_nonempty: "dotted a b c d \<noteq> []"
  by (simp add: dotted_def)

lemma validate_dotted:
  assumes "a < 256" "b < 256" "c < 256" "d < 256"
    and "host_end rest" "\<forall>x \<in> set rest. code x \<notin> {9, 10, 13}"
  shows "validate_url_not_ssrf (''http://'' @ dotted a b c d @ rest) =
         (if private_quad a b c d then Inl (SSRFError ssrf_error_msg) else Inr ())"
  using url_hostname_dotted [OF assms(5,6)] ip_address_dotted [OF assms(1-4)]
    blocked_quad [OF assms(1-4)] dotted_nonempty
  by (simp add: validate_url_not_ssrf_def)

text \<open>C14: The guard decides an http URL whose host is a dotted quad by the address alone, whatever
  port, path, query or fragment follows: it refuses loopback, the three private ranges, link-local and
  the unspecified address with the guard's message, and accepts every other address.\<close>

theorem ssrf_guard_ipv4:
  assumes "a < 256" "b < 256" "c < 256" "d < 256"
    and "host_end rest" "\<forall>x \<in> set rest. code x \<notin> {9, 10, 13}"
  shows "validate_url_not_ssrf (''http://'' @ dotted a b c d @ rest) =
    (if a = 127 \<or> a = 10 \<or> (a = 172 \<and> 16 \<le> b \<and> b \<le> 31) \<or> (a = 192 \<and> b = 168)
        \<or> (a = 169 \<and> b = 254) \<or> (a = 0 \<and> b = 0 \<and> c = 0 \<and> d = 0)
     then Inl (SSRFError ssrf_error_msg) else Inr ())"
  using validate_dotted [OF assms] by (simp add: private_quad_def)

theorem ssrf_guard_ipv4_witness:
  "validate_url_not_ssrf (''http://'' @ dotted 169 254 169 254 @ ''/latest/meta-data'') = Inl (SSRFError ssrf_error_msg)
   \<and> validate_url_not_ssrf (''http://'' @ dotted 93 184 216 34 @ '':8080/hook'') = Inr ()"
  using ssrf_guard_ipv4 [of 169 254 169 254 "''/latest/meta-data''"]
    ssrf_guard_ipv4 [of 93 184 216 34 "'':8080/hook''"]
  by (simp add: host_end_def is_digit_def code_def)

text \<open>A host that is not an address is never resolved, so every name passes.\<close>

lemma validate_hostname:
  "url_hostname url = Some h \<Longrightarrow> h \<noteq> [] \<Longrightarrow> ip_address h = None \<Longrightarrow> validate_url_not_ssrf url = Inr ()"
  by (simp add: validate_url_not_ssrf_def)

text \<open>
  An IPv4-mapped IPv6 literal of the loopback address is an IPv6 address outside both IPv6 networks.
\<close>

lemma zeros_5: "replicate 5 (0 :: nat) = [0, 0, 0, 0, 0]"
  by (simp add: eval_nat_numeral)

lemma mapped_loopback: "ip_address ''::ffff:127.0.0.1'' = Some (IPv6 281472812449793)"
  by (simp add: ip_address_def parse_ipv4_def parse_ipv6_def parse_ipv6_groups_def
      ipv6_of_parts_def inner_empty_def parse_octet_def parse_hextet_def hex_value_def
      hextets_value_def partition_on_def is_digit_def code_def digits_value_def upt_rec Let_def
      zeros_5)

lemma mapped_hostname:
  "url_hostname ''http://[::ffff:127.0.0.1]/'' = Some ''::ffff:127.0.0.1''"
  by (simp add: url_hostname_def url_netloc_def drop_scheme_def clean_url_def partition_on_def
      is_alpha_def scheme_char_def code_def netloc_ok_def bracketed_host_def mapped_loopback
      netloc_host_def after_last_def lower_def lower_char_def Let_def)


end
