(* ===== verification/Backoff.thy ===== *)
theory Backoff
  imports Datetime Config
begin

text \<open>
  The retry schedule (\<^verbatim>\<open>app/worker/backoff.py\<close>). Floats are rationals: multiplying by a power of
  two and taking a minimum are exact on floats, the jitter factor is the one step a float rounds.
  \<open>r\<close> is the draw of \<^verbatim>\<open>random.random()\<close> that \<^verbatim>\<open>random.uniform\<close> scales.
\<close>

definition backoff_delay :: "int \<Rightarrow> rat \<Rightarrow> rat \<Rightarrow> rat" where
  "backoff_delay attempt_number base_seconds cap_seconds =
     min (base_seconds * power_int 2 (attempt_number - 1)) cap_seconds"

text \<open>\<^verbatim>\<open>timedelta(seconds=x)\<close> in microseconds.\<close>

definition timedelta_seconds :: "rat \<Rightarrow> time" where
  "timedelta_seconds x = round_half_even (x * 1000000)"

text \<open>
  An integer \<^verbatim>\<open>2 ** (n - 1)\<close> from \<^verbatim>\<open>2 ** 1024\<close> on does not convert to a float, and the
  multiplication raises OverflowError.
\<close>

definition compute_next_attempt_at ::
  "int \<Rightarrow> rat \<Rightarrow> rat \<Rightarrow> rat \<Rightarrow> time \<Rightarrow> py_exc + time" where
  "compute_next_attempt_at attempt_number base_seconds cap_seconds r now =
     (if 1024 < attempt_number then Inl OverflowError
      else let delay = backoff_delay attempt_number base_seconds cap_seconds;
               jitter = delay * (1 / 10) * r
           in Inr (now + timedelta_seconds (delay + jitter)))"

lemma timedelta_seconds_mono: "x \<le> y \<Longrightarrow> timedelta_seconds x \<le> timedelta_seconds y"
  by (simp add: timedelta_seconds_def round_half_even_mono)

lemma timedelta_seconds_int [simp]: "timedelta_seconds (of_int s) = s * 1000000"
  by (metis of_int_mult of_int_numeral round_half_even_of_int timedelta_seconds_def)

lemma backoff_delay_nonneg: "0 \<le> base \<Longrightarrow> 0 \<le> cap \<Longrightarrow> 0 \<le> backoff_delay n base cap"
  by (simp add: backoff_delay_def)

lemma backoff_delay_le_cap: "backoff_delay n base cap \<le> cap"
  by (simp add: backoff_delay_def)

lemma backoff_delay_mono:
  assumes "0 \<le> base" "m \<le> n"
  shows "backoff_delay m base cap \<le> backoff_delay n base cap"
proof -
  have "power_int (2 :: rat) (m - 1) \<le> power_int 2 (n - 1)"
    using assms(2) by (intro power_int_increasing) auto
  then have "base * power_int 2 (m - 1) \<le> base * power_int 2 (n - 1)"
    using assms(1) by (rule mult_left_mono)
  then show ?thesis
    by (auto simp: backoff_delay_def)
qed

lemma compute_next_attempt_at_Inr:
  assumes "n \<le> 1024" "0 \<le> base" "0 \<le> cap" "0 \<le> r" "r \<le> 1"
  shows "\<exists>t. compute_next_attempt_at n base cap r now = Inr t
           \<and> now + timedelta_seconds (backoff_delay n base cap) \<le> t
           \<and> t \<le> now + timedelta_seconds (backoff_delay n base cap * (11 / 10))"
proof -
  let ?d = "backoff_delay n base cap"
  have d: "0 \<le> ?d"
    using assms by (simp add: backoff_delay_nonneg)
  have lo: "?d \<le> ?d + ?d * (1 / 10) * r"
    using d assms by simp
  have "?d * (1 / 10) * r \<le> ?d * (1 / 10) * 1"
    using d assms by (intro mult_left_mono) auto
  then have hi: "?d + ?d * (1 / 10) * r \<le> ?d * (11 / 10)"
    by (simp add: field_simps)
  show ?thesis
    using assms(1) timedelta_seconds_mono [OF lo] timedelta_seconds_mono [OF hi]
    by (simp add: compute_next_attempt_at_def Let_def)
qed



end
