(* ===== verification/Worker.thy ===== *)
theory Worker
  imports Transform Signing Crypto Ssrf Backoff
begin

text \<open>
  The delivery worker (\<^verbatim>\<open>app/worker/delivery_worker.py\<close>): claiming due deliveries, recovering
  expired leases, one delivery attempt, one batch, and the tick of the loop of
  \<^verbatim>\<open>app/worker/__main__.py\<close> that commits a batch or rolls it back.

  The world answers through records: \<open>attempt_io\<close> holds what one attempt reads from the
  clock, the network and the random source; \<open>tick_io\<close> what one batch does, with the rows other
  sessions have locked when it claims. A session is the database as the open transaction sees it,
  together with what no rollback undoes: the counters, the requests sent and the seconds slept.
\<close>

section \<open>State\<close>

record counters =
  cn_succeeded :: int
  cn_dead_lettered :: int
  cn_failed :: int
  cn_claimed :: int
  cn_durations :: "rat list"

record http_request =
  rq_url :: string
  rq_content :: bytes
  rq_headers :: "(string \<times> string) list"
  rq_timeout :: rat

datatype http_outcome = Http_response int utext | Http_exception utext

record attempt_io =
  io_embed_now :: time
  io_ts :: int
  io_outcome :: http_outcome
  io_duration_ms :: int
  io_random :: rat
  io_backoff_now :: time
  io_flush_now :: time
  io_attempt_id :: uuid

record worker_env =
  we_hostname :: string
  we_pid :: int

record sess =
  s_db :: db
  s_counters :: counters
  s_sent :: "http_request list"
  s_slept :: "rat list"

section \<open>Names\<close>

definition default_worker_name :: "worker_env \<Rightarrow> string" where
  "default_worker_name env = we_hostname env @ '':'' @ show_int (we_pid env)"

definition resolve_worker_name :: "settings \<Rightarrow> worker_env \<Rightarrow> string option \<Rightarrow> string" where
  "resolve_worker_name st env name =
     (case name of
        Some w \<Rightarrow> if w \<noteq> [] then w else if worker_name st \<noteq> [] then worker_name st
                  else default_worker_name env
      | None \<Rightarrow> if worker_name st \<noteq> [] then worker_name st else default_worker_name env)"

section \<open>Claiming\<close>

definition due :: "time \<Rightarrow> delivery \<Rightarrow> bool" where
  "due now x \<longleftrightarrow> dl_status x = Pending \<and> dl_next_attempt_at x \<le> now"

text \<open>
  The rows the claim query returns: pending and due, by \<^verbatim>\<open>next_attempt_at\<close> (rows with equal times
  in table order, one of the orders the database may choose), locked rows skipped, at most
  \<open>n\<close> of them.
\<close>

definition claim_rows :: "nat \<Rightarrow> (uuid \<Rightarrow> bool) \<Rightarrow> time \<Rightarrow> db \<Rightarrow> delivery list" where
  "claim_rows n locked now d =
     take n (filter (\<lambda>x. \<not> locked (dl_id x))
       (sort_key dl_next_attempt_at (filter (due now) (deliveries d))))"

definition stamp_claim :: "time \<Rightarrow> string \<Rightarrow> time \<Rightarrow> delivery \<Rightarrow> delivery" where
  "stamp_claim lease_until claimer flush_now x =
     x\<lparr>dl_status := In_flight, dl_leased_until := Some lease_until, dl_claimed_by := Some claimer,
       dl_updated_at := flush_now\<rparr>"

definition put_all :: "delivery list \<Rightarrow> db \<Rightarrow> db" where
  "put_all xs d = foldl (\<lambda>d x. put_delivery x d) d xs"

definition claim_due_deliveries ::
  "settings \<Rightarrow> worker_env \<Rightarrow> int option \<Rightarrow> string option \<Rightarrow> (uuid \<Rightarrow> bool) \<Rightarrow> time \<Rightarrow> time \<Rightarrow> db
   \<Rightarrow> py_exc + delivery list \<times> db" where
  "claim_due_deliveries st env batch_size name locked now flush_now d =
     (let n = (case batch_size of None \<Rightarrow> worker_batch_size st | Some b \<Rightarrow> b);
          claimer = resolve_worker_name st env name;
          lease_until = now + seconds (worker_lease_seconds st)
      in if n < 0 then Inl DataError
         else let rows = map (stamp_claim lease_until claimer flush_now) (claim_rows (nat n) locked now d)
              in Inr (rows, put_all rows d))"

text \<open>The bulk UPDATE that returns expired leases to the queue.\<close>

definition lease_expired :: "time \<Rightarrow> delivery \<Rightarrow> bool" where
  "lease_expired now x \<longleftrightarrow>
     dl_status x = In_flight \<and> (case dl_leased_until x of None \<Rightarrow> False | Some t \<Rightarrow> t < now)"

definition recover_expired_leases :: "time \<Rightarrow> db \<Rightarrow> db" where
  "recover_expired_leases now d =
     d\<lparr>deliveries := map (\<lambda>x. if lease_expired now x
         then x\<lparr>dl_status := Pending, dl_leased_until := None, dl_updated_at := now\<rparr> else x) (deliveries d)\<rparr>"

section \<open>One attempt\<close>

text \<open>PostgreSQL text holds no NUL character; the driver refuses such a value.\<close>

definition has_nul :: "utext option \<Rightarrow> bool" where
  "has_nul t \<longleftrightarrow> (case t of None \<Rightarrow> False | Some s \<Rightarrow> 0 \<in> set s)"

text \<open>
  The flush that writes the changed delivery and inserts the attempt: the row may be gone, a text
  may be refused, and the attempt's keys must be new.
\<close>

definition flush_attempt :: "delivery_attempt \<Rightarrow> delivery \<Rightarrow> db \<Rightarrow> py_exc + db" where
  "flush_attempt a x d =
     (if find_delivery (dl_id x) d = None then Inl StaleDataError
      else if has_nul (at_response_body a) \<or> has_nul (at_error a) then Inl DataError
      else if at_id a \<in> at_id ` set (attempts d)
           \<or> (at_delivery a, at_number a) \<in> (\<lambda>b. (at_delivery b, at_number b)) ` set (attempts d)
      then Inl IntegrityError
      else Inr ((put_delivery x d)\<lparr>attempts := attempts d @ [a]\<rparr>))"

definition attempt_headers :: "string \<Rightarrow> int \<Rightarrow> bytes \<Rightarrow> int \<Rightarrow> (string \<times> string) list" where
  "attempt_headers secret ts body n =
     [(''Content-Type'', ''application/json''),
      (''X-Webhook-Timestamp'', show_int ts),
      (''X-Webhook-Signature'', build_signature_header secret ts body),
      (''X-Webhook-Attempt'', show_int n)]"

definition http_succeeded :: "http_outcome \<Rightarrow> bool" where
  "http_succeeded r \<longleftrightarrow> (case r of Http_response c _ \<Rightarrow> 200 \<le> c \<and> c < 300 | Http_exception _ \<Rightarrow> False)"

definition attempt_row ::
  "delivery \<Rightarrow> int \<Rightarrow> string \<Rightarrow> attempt_io \<Rightarrow> delivery_attempt" where
  "attempt_row x n worker io =
   \<lparr> at_id = io_attempt_id io, at_delivery = dl_id x, at_number = n,
     at_response_status = (case io_outcome io of Http_response c _ \<Rightarrow> Some c | _ \<Rightarrow> None),
     at_response_body = (case io_outcome io of Http_response _ b \<Rightarrow> Some (take 1024 b) | _ \<Rightarrow> None),
     at_error = (case io_outcome io of Http_exception e \<Rightarrow> Some (take 1024 e) | _ \<Rightarrow> None),
     at_duration_ms = Some (io_duration_ms io), at_worker_id = Some worker,
     at_created_at = io_flush_now io \<rparr>"

definition ssrf_attempt_row ::
  "delivery \<Rightarrow> int \<Rightarrow> string \<Rightarrow> string \<Rightarrow> attempt_io \<Rightarrow> delivery_attempt" where
  "ssrf_attempt_row x n msg worker io =
   \<lparr> at_id = io_attempt_id io, at_delivery = dl_id x, at_number = n,
     at_response_status = None, at_response_body = None, at_error = Some (ucode msg),
     at_duration_ms = Some 0, at_worker_id = Some worker, at_created_at = io_flush_now io \<rparr>"

text \<open>
  The decision after the request: succeeded, dead-lettered at the attempt limit, or pending again
  at the next time of the schedule, each with its counter.
\<close>

definition settle ::
  "settings \<Rightarrow> attempt_io \<Rightarrow> int \<Rightarrow> delivery \<Rightarrow> counters \<Rightarrow> counters \<times> (py_exc + delivery)" where
  "settle st io n x c =
     (let x1 = x\<lparr>dl_attempt_count := n, dl_updated_at := io_flush_now io\<rparr>;
          c1 = c\<lparr>cn_durations := cn_durations c @ [of_int (io_duration_ms io) / 1000]\<rparr>
      in if http_succeeded (io_outcome io) then
           (c1\<lparr>cn_succeeded := cn_succeeded c + 1\<rparr>, Inr (x1\<lparr>dl_status := Succeeded\<rparr>))
         else if max_delivery_attempts st \<le> n then
           (c1\<lparr>cn_dead_lettered := cn_dead_lettered c + 1\<rparr>, Inr (x1\<lparr>dl_status := Dead_lettered\<rparr>))
         else
           (c1\<lparr>cn_failed := cn_failed c + 1\<rparr>,
            bind_exc (compute_next_attempt_at n (retry_base_seconds st) (retry_cap_seconds st)
                (io_random io) (io_backoff_now io))
              (\<lambda>t. Inr (x1\<lparr>dl_status := Pending, dl_next_attempt_at := t, dl_leased_until := None\<rparr>))))"

definition flush_session :: "sess \<Rightarrow> delivery_attempt \<Rightarrow> delivery \<Rightarrow> sess \<times> (py_exc + unit)" where
  "flush_session s a x =
     (case flush_attempt a x (s_db s) of Inl e \<Rightarrow> (s, Inl e) | Inr d \<Rightarrow> (s\<lparr>s_db := d\<rparr>, Inr ()))"

definition process_delivery ::
  "fernet_dec \<Rightarrow> settings \<Rightarrow> worker_env \<Rightarrow> delivery \<Rightarrow> attempt_io \<Rightarrow> string option \<Rightarrow> sess
   \<Rightarrow> sess \<times> (py_exc + unit)" where
  "process_delivery fdec st env x io name s =
     (case find_endpoint (dl_endpoint x) (s_db s) of
        None \<Rightarrow> (s, Inl AttributeError)
      | Some ep \<Rightarrow>
     (case decrypt_secret fdec st (ep_secret_enc ep) of
        Inl e \<Rightarrow> (s, Inl e)
      | Inr secret \<Rightarrow>
     (case find_event (dl_event x) (s_db s) of
        None \<Rightarrow> (s, Inl AttributeError)
      | Some ev \<Rightarrow>
     (let worker = resolve_worker_name st env name;
          body = build_delivery_body (ep_payload_format ep) (ev_id ev) (ev_type ev) (ev_payload ev)
                   (io_embed_now io);
          n = dl_attempt_count x + 1;
          headers = attempt_headers secret (io_ts io) body n
      in case validate_url_not_ssrf (ep_url ep) of
           Inl (SSRFError msg) \<Rightarrow>
             (let c = s_counters s;
                  x' = x\<lparr>dl_attempt_count := n, dl_status := Dead_lettered,
                         dl_updated_at := io_flush_now io\<rparr>
              in flush_session (s\<lparr>s_counters := c\<lparr>cn_dead_lettered := cn_dead_lettered c + 1\<rparr>\<rparr>)
                   (ssrf_attempt_row x n msg worker io) x')
         | Inl e \<Rightarrow> (s, Inl e)
         | Inr _ \<Rightarrow>
             (let rq = \<lparr> rq_url = ep_url ep, rq_content = body, rq_headers = headers,
                         rq_timeout = delivery_timeout_seconds st \<rparr>
              in case settle st io n x (s_counters s) of
                   (c, Inl e) \<Rightarrow> (s\<lparr>s_counters := c, s_sent := s_sent s @ [rq]\<rparr>, Inl e)
                 | (c, Inr x') \<Rightarrow>
                     flush_session (s\<lparr>s_counters := c, s_sent := s_sent s @ [rq]\<rparr>)
                       (attempt_row x n worker io) x')))))"

section \<open>One batch\<close>

text \<open>
  \<^verbatim>\<open>time.sleep(1.0 / rate_limit_rps)\<close>: a zero rate divides by zero, a negative one is refused by
  \<^verbatim>\<open>sleep\<close>.
\<close>

definition sleep_for_rate_limit :: "rat option \<Rightarrow> sess \<Rightarrow> sess \<times> (py_exc + unit)" where
  "sleep_for_rate_limit rps s =
     (case rps of
        None \<Rightarrow> (s, Inr ())
      | Some r \<Rightarrow>
          if r = 0 then (s, Inl ZeroDivisionError)
          else if r < 0 then (s, Inl (ValueError ''sleep length must be non-negative''))
          else (s\<lparr>s_slept := s_slept s @ [1 / r]\<rparr>, Inr ()))"

definition throttle :: "delivery \<Rightarrow> uuid list \<Rightarrow> sess \<Rightarrow> sess \<times> (py_exc + unit)" where
  "throttle x seen s =
     (if dl_endpoint x \<in> set seen then
        (case find_endpoint (dl_endpoint x) (s_db s) of
           None \<Rightarrow> (s, Inl AttributeError)
         | Some ep \<Rightarrow> sleep_for_rate_limit (ep_rate_limit_rps ep) s)
      else (s, Inr ()))"

fun process_all ::
  "fernet_dec \<Rightarrow> settings \<Rightarrow> worker_env \<Rightarrow> string option \<Rightarrow> (uuid \<Rightarrow> attempt_io) \<Rightarrow> uuid list
   \<Rightarrow> delivery list \<Rightarrow> sess \<Rightarrow> sess \<times> (py_exc + unit)" where
  "process_all fdec st env name ios seen [] s = (s, Inr ())"
| "process_all fdec st env name ios seen (x # xs) s =
     (case throttle x seen s of
        (s1, Inl e) \<Rightarrow> (s1, Inl e)
      | (s1, Inr _) \<Rightarrow>
          (case process_delivery fdec st env x (ios (dl_id x)) name s1 of
             (s2, Inl e) \<Rightarrow> (s2, Inl e)
           | (s2, Inr _) \<Rightarrow>
               process_all fdec st env name ios
                 (if dl_endpoint x \<in> set seen then seen else dl_endpoint x # seen) xs s2))"

record tick_io =
  tk_recover_now :: time
  tk_now :: time
  tk_flush_now :: time
  tk_locked :: "uuid \<Rightarrow> bool"
  tk_attempts :: "uuid \<Rightarrow> attempt_io"

definition run_once ::
  "fernet_dec \<Rightarrow> settings \<Rightarrow> worker_env \<Rightarrow> string option \<Rightarrow> tick_io \<Rightarrow> sess \<Rightarrow> sess \<times> (py_exc + int)" where
  "run_once fdec st env name io s =
     (let d0 = recover_expired_leases (tk_recover_now io) (s_db s)
      in case claim_due_deliveries st env None name (tk_locked io) (tk_now io) (tk_flush_now io) d0 of
           Inl e \<Rightarrow> (s\<lparr>s_db := d0\<rparr>, Inl e)
         | Inr (rows, d1) \<Rightarrow>
             (let c = s_counters s;
                  s1 = s\<lparr>s_db := d1, s_counters := c\<lparr>cn_claimed := cn_claimed c + int (length rows)\<rparr>\<rparr>
              in case process_all fdec st env name (tk_attempts io) [] rows s1 of
                   (s2, Inl e) \<Rightarrow> (s2, Inl e)
                 | (s2, Inr _) \<Rightarrow> (s2, Inr (int (length rows)))))"

text \<open>
  The body of the loop's try block: commit, or roll the database back and report nothing processed.
\<close>

definition worker_tick ::
  "fernet_dec \<Rightarrow> settings \<Rightarrow> worker_env \<Rightarrow> string option \<Rightarrow> tick_io \<Rightarrow> sess \<Rightarrow> sess \<times> int" where
  "worker_tick fdec st env name io s =
     (case run_once fdec st env name io s of
        (s', Inr n) \<Rightarrow> (s', n)
      | (s', Inl _) \<Rightarrow> (s'\<lparr>s_db := s_db s\<rparr>, 0))"

section \<open>The loop around the ticks\<close>

datatype wait_result = Notified | Timed_out | Connection_lost

record loop_io =
  lo_listen_ok :: bool
  lo_tick :: tick_io
  lo_wait :: wait_result

datatype idle_action = Wait_notify rat | Sleep_for rat

text \<open>
  One iteration: (re)connect the listener, tick, and wait when the tick processed nothing. The
  state is whether a LISTEN connection is open.
\<close>

definition worker_loop_iter ::
  "fernet_dec \<Rightarrow> settings \<Rightarrow> worker_env \<Rightarrow> string \<Rightarrow> loop_io \<Rightarrow> bool \<times> sess
   \<Rightarrow> (bool \<times> sess) \<times> idle_action list" where
  "worker_loop_iter fdec st env name io ls =
     (let listening = (fst ls \<or> lo_listen_ok io);
          (s, n) = worker_tick fdec st env (Some name) (lo_tick io) (snd ls);
          poll = worker_fallback_poll_seconds st
      in if n \<noteq> 0 then ((listening, s), [])
         else if listening then
           (case lo_wait io of
              Connection_lost \<Rightarrow> ((False, s), [Wait_notify poll, Sleep_for 1])
            | _ \<Rightarrow> ((True, s), [Wait_notify poll]))
         else ((False, s), [Sleep_for poll]))"

definition loop_names :: "settings \<Rightarrow> worker_env \<Rightarrow> string list" where
  "loop_names st env =
     (let base = (if worker_name st \<noteq> [] then worker_name st else default_worker_name env)
      in if worker_concurrency st = 1 then [base]
         else map (\<lambda>i. base @ ''#'' @ show_nat (i + 1)) [0..<nat (worker_concurrency st)])"

end
