(* ===== verification/Samples.thy ===== *)
theory Samples
  imports Worker
begin

text \<open>
  A small world the concrete instances of the theorems are about: one project with a public, a
  private and a broken endpoint, one event, and a delivery to each endpoint. The Fernet parameters
  are a scheme that prefixes a letter and refuses anything without it.
\<close>

definition sample_enc :: fernet_enc where
  "sample_enc key rnd p = CHR ''g'' # p"

definition sample_dec :: fernet_dec where
  "sample_dec key c = (case c of [] \<Rightarrow> None | x # p \<Rightarrow> if x = CHR ''g'' then Some p else None)"

lemma sample_fernet_ok: "fernet_ok sample_enc sample_dec"
  by (simp add: fernet_ok_def sample_enc_def sample_dec_def)

definition sample_project :: project where
  "sample_project = \<lparr> pj_id = 1, pj_name = ucode ''acme'', pj_created_at = 0, pj_updated_at = 0 \<rparr>"

definition sample_type :: utext where
  "sample_type = ucode ''order.created''"

definition sample_endpoint :: endpoint where
  "sample_endpoint =
   \<lparr> ep_id = 2, ep_project = 1, ep_url = ''http://'' @ dotted 93 184 216 34 @ ''/hook'',
     ep_event_types = [sample_type], ep_secret_enc = ''gs3cret'', ep_status = Active,
     ep_payload_format = Raw, ep_created_at = 0, ep_updated_at = 0, ep_rate_limit_rps = None \<rparr>"

definition private_endpoint :: endpoint where
  "private_endpoint = sample_endpoint\<lparr>ep_id := 3, ep_url := ''http://'' @ dotted 10 0 0 5 @ ''/hook''\<rparr>"

definition broken_endpoint :: endpoint where
  "broken_endpoint = sample_endpoint\<lparr>ep_id := 4, ep_secret_enc := ''xs3cret''\<rparr>"

definition sample_event :: event where
  "sample_event =
   \<lparr> ev_id = 5, ev_project = 1, ev_type = sample_type, ev_payload = [(ucode ''n'', JInt 1)],
     ev_idempotency_key = None, ev_created_at = 0 \<rparr>"

definition sample_delivery :: delivery where
  "sample_delivery =
   \<lparr> dl_id = 6, dl_event = 5, dl_endpoint = 2, dl_status = Pending, dl_attempt_count = 0,
     dl_next_attempt_at = 0, dl_leased_until = None, dl_claimed_by = None,
     dl_created_at = 0, dl_updated_at = 0 \<rparr>"

definition private_delivery :: delivery where
  "private_delivery = sample_delivery\<lparr>dl_id := 7, dl_endpoint := 3, dl_next_attempt_at := 1\<rparr>"

definition broken_delivery :: delivery where
  "broken_delivery = sample_delivery\<lparr>dl_id := 8, dl_endpoint := 4, dl_next_attempt_at := 2\<rparr>"

definition sample_db :: "delivery list \<Rightarrow> db" where
  "sample_db xs = empty_db\<lparr>projects := [sample_project],
     endpoints := [sample_endpoint, private_endpoint, broken_endpoint], events := [sample_event],
     deliveries := xs\<rparr>"

definition zero_counters :: counters where
  "zero_counters = \<lparr> cn_succeeded = 0, cn_dead_lettered = 0, cn_failed = 0, cn_claimed = 0, cn_durations = [] \<rparr>"

definition sample_sess :: "delivery list \<Rightarrow> sess" where
  "sample_sess xs = \<lparr> s_db = sample_db xs, s_counters = zero_counters, s_sent = [], s_slept = [] \<rparr>"

definition sample_env :: worker_env where
  "sample_env = \<lparr> we_hostname = ''box'', we_pid = 7 \<rparr>"

definition sample_io :: attempt_io where
  "sample_io =
   \<lparr> io_embed_now = 1000, io_ts = 1700000000, io_outcome = Http_response 200 (ucode ''ok''),
     io_duration_ms = 12, io_random = 1 / 2, io_backoff_now = 2000, io_flush_now = 2000, io_attempt_id = 60 \<rparr>"

definition sample_tick :: tick_io where
  "sample_tick =
   \<lparr> tk_recover_now = 1000, tk_now = 1000, tk_flush_now = 1000, tk_locked = (\<lambda>_. False),
     tk_attempts = (\<lambda>i. sample_io\<lparr>io_attempt_id := i\<rparr>) \<rparr>"

lemmas sample_defs =
  sample_sess_def sample_db_def sample_delivery_def private_delivery_def broken_delivery_def
  sample_event_def sample_endpoint_def private_endpoint_def broken_endpoint_def sample_io_def
  sample_tick_def sample_env_def sample_project_def empty_db_def zero_counters_def

lemma sample_lookups [simp]:
  "find_endpoint 2 (sample_db xs) = Some sample_endpoint"
  "find_endpoint 3 (sample_db xs) = Some private_endpoint"
  "find_endpoint 4 (sample_db xs) = Some broken_endpoint"
  "find_event 5 (sample_db xs) = Some sample_event"
  "attempts (sample_db xs) = []" "deliveries (sample_db xs) = xs"
  by (simp_all add: sample_db_def find_endpoint_def find_event_def sample_endpoint_def private_endpoint_def
      broken_endpoint_def sample_event_def empty_db_def)

lemma sample_sess_simps [simp]:
  "s_db (sample_sess xs) = sample_db xs" "s_sent (sample_sess xs) = []"
  "s_counters (sample_sess xs) = zero_counters" "s_slept (sample_sess xs) = []"
  by (simp_all add: sample_sess_def)

lemma sample_public: "validate_url_not_ssrf (ep_url sample_endpoint) = Inr ()"
  using validate_dotted [of 93 184 216 34 "''/hook''"]
  by (simp add: sample_endpoint_def host_end_def private_quad_def code_def)

lemma sample_secret: "decrypt_secret sample_dec st (ep_secret_enc sample_endpoint) = Inr ''s3cret''"
  by (simp add: decrypt_secret_def sample_dec_def sample_endpoint_def)

end
