(* ===== verification/Worker_Attempt.thy ===== *)
theory Worker_Attempt
  imports Samples
begin

text \<open>
  One delivery attempt: what \<^verbatim>\<open>process_delivery\<close> leaves in the database, which request it sends
  and how it settles the delivery.
\<close>

section \<open>Lookups after a flush\<close>

lemma find_delivery_put [row_simps]:
  "find_delivery i (put_delivery x d) =
     (if i = dl_id x then (if find_delivery i d = None then None else Some x) else find_delivery i d)"
  using find_put_same [of dl_id x "deliveries d"] find_put_other [of i dl_id x "deliveries d"]
  by (auto simp: find_delivery_def find_pk_None)

lemma attempts_update [simp]:
  "find_delivery i (d\<lparr>attempts := as\<rparr>) = find_delivery i d"
  "find_endpoint i (d\<lparr>attempts := as\<rparr>) = find_endpoint i d"
  "find_event i (d\<lparr>attempts := as\<rparr>) = find_event i d"
  "attempts_of i (d\<lparr>attempts := attempts d' @ [a]\<rparr>) =
     attempts_of i d' @ (if at_delivery a = i then [a] else [])"
  by (simp_all add: find_delivery_def find_endpoint_def find_event_def attempts_of_def)

section \<open>Settling\<close>

lemma settle_spec:
  assumes "settle st io n x c = (c', Inr x')"
  shows "dl_id x' = dl_id x" "dl_event x' = dl_event x" "dl_endpoint x' = dl_endpoint x"
    and "dl_attempt_count x' = n" "dl_claimed_by x' = dl_claimed_by x" "dl_created_at x' = dl_created_at x"
    and "dl_status x' =
      (if http_succeeded (io_outcome io) then Succeeded
       else if max_delivery_attempts st \<le> n then Dead_lettered else Pending)"
    and "dl_status x' = Pending \<Longrightarrow>
      dl_leased_until x' = None
      \<and> compute_next_attempt_at n (retry_base_seconds st) (retry_cap_seconds st) (io_random io)
          (io_backoff_now io) = Inr (dl_next_attempt_at x')"
  using assms by (auto simp: settle_def Let_def bind_exc_Inr split: if_splits)

lemma settle_total:
  "n \<le> 1024 \<Longrightarrow> \<exists>x'. snd (settle st io n x c) = Inr x'"
  by (auto simp: settle_def Let_def compute_next_attempt_at_def)

section \<open>A processed delivery\<close>

text \<open>
  What a call that returns has done, whichever branch it took: the row of the delivery is replaced
  by one with the next attempt count and a settled status, and one attempt row with that number is
  added; nothing else of the database changes.
\<close>

definition attempt_recorded :: "delivery \<Rightarrow> db \<Rightarrow> delivery \<Rightarrow> delivery_attempt \<Rightarrow> db \<Rightarrow> bool" where
  "attempt_recorded x d x' a d' \<longleftrightarrow>
     d' = (put_delivery x' d)\<lparr>attempts := attempts d @ [a]\<rparr>
     \<and> find_delivery (dl_id x) d \<noteq> None
     \<and> dl_id x' = dl_id x \<and> dl_event x' = dl_event x \<and> dl_endpoint x' = dl_endpoint x
     \<and> dl_attempt_count x' = dl_attempt_count x + 1
     \<and> dl_claimed_by x' = dl_claimed_by x \<and> dl_created_at x' = dl_created_at x
     \<and> dl_status x' \<in> {Succeeded, Dead_lettered, Pending}
     \<and> at_delivery a = dl_id x \<and> at_number a = dl_attempt_count x + 1
     \<and> at_id a \<notin> at_id ` set (attempts d)
     \<and> (at_delivery a, at_number a) \<notin> (\<lambda>b. (at_delivery b, at_number b)) ` set (attempts d)"

text \<open>How the row of a claimed delivery ends, and that it can only be due again below the attempt limit and
  after its backoff.\<close>

definition settled_from :: "settings \<Rightarrow> attempt_io \<Rightarrow> delivery \<Rightarrow> delivery \<Rightarrow> bool" where
  "settled_from st io x x' \<longleftrightarrow>
     dl_id x' = dl_id x \<and> dl_event x' = dl_event x \<and> dl_endpoint x' = dl_endpoint x
     \<and> dl_attempt_count x' = dl_attempt_count x + 1
     \<and> dl_status x' \<in> {Succeeded, Dead_lettered, Pending}
     \<and> (dl_status x' = Pending \<longrightarrow>
         compute_next_attempt_at (dl_attempt_count x + 1) (retry_base_seconds st) (retry_cap_seconds st)
           (io_random io) (io_backoff_now io) = Inr (dl_next_attempt_at x')
         \<and> dl_attempt_count x + 1 < max_delivery_attempts st)"

lemma flush_session_Inr:
  "flush_session s a x = (s', Inr u) \<longleftrightarrow>
     (\<exists>d. flush_attempt a x (s_db s) = Inr d \<and> s' = s\<lparr>s_db := d\<rparr>)"
  by (auto simp: flush_session_def split: sum.splits)

lemma flush_attempt_Inr:
  "flush_attempt a x d = Inr d' \<Longrightarrow>
     d' = (put_delivery x d)\<lparr>attempts := attempts d @ [a]\<rparr> \<and> find_delivery (dl_id x) d \<noteq> None
     \<and> at_id a \<notin> at_id ` set (attempts d)
     \<and> (at_delivery a, at_number a) \<notin> (\<lambda>b. (at_delivery b, at_number b)) ` set (attempts d)"
  by (auto simp: flush_attempt_def split: if_splits)

text \<open>The three answers of the SSRF guard that \<^verbatim>\<open>process_delivery\<close> tells apart.\<close>

lemma guard_cases:
  obtains (blocked) msg where "validate_url_not_ssrf url = Inl (SSRFError msg)"
  | (invalid) e where "validate_url_not_ssrf url = Inl e" "\<And>msg. e \<noteq> SSRFError msg"
  | (public) "validate_url_not_ssrf url = Inr ()"
proof (cases "validate_url_not_ssrf url")
  case (Inl e)
  then show ?thesis
    using that(1,2) by (cases e) auto
next
  case (Inr u)
  then show ?thesis
    using that(3) by (cases u) simp
qed

lemma process_delivery_blocked:
  assumes "find_endpoint (dl_endpoint x) (s_db s) = Some ep"
    and "decrypt_secret fdec st (ep_secret_enc ep) = Inr secret"
    and "find_event (dl_event x) (s_db s) = Some ev"
    and "validate_url_not_ssrf (ep_url ep) = Inl (SSRFError msg)"
  shows "process_delivery fdec st env x io name s =
    flush_session (s\<lparr>s_counters := (s_counters s)\<lparr>cn_dead_lettered := cn_dead_lettered (s_counters s) + 1\<rparr>\<rparr>)
      (ssrf_attempt_row x (dl_attempt_count x + 1) msg (resolve_worker_name st env name) io)
      (x\<lparr>dl_attempt_count := dl_attempt_count x + 1, dl_status := Dead_lettered,
         dl_updated_at := io_flush_now io\<rparr>)"
  using assms by (simp add: process_delivery_def Let_def)

definition attempt_request ::
  "settings \<Rightarrow> endpoint \<Rightarrow> event \<Rightarrow> string \<Rightarrow> delivery \<Rightarrow> attempt_io \<Rightarrow> http_request" where
  "attempt_request st ep ev secret x io =
     (let body = build_delivery_body (ep_payload_format ep) (ev_id ev) (ev_type ev) (ev_payload ev)
                   (io_embed_now io)
      in \<lparr> rq_url = ep_url ep, rq_content = body,
           rq_headers = attempt_headers secret (io_ts io) body (dl_attempt_count x + 1),
           rq_timeout = delivery_timeout_seconds st \<rparr>)"

lemma process_delivery_public:
  assumes "find_endpoint (dl_endpoint x) (s_db s) = Some ep"
    and "decrypt_secret fdec st (ep_secret_enc ep) = Inr secret"
    and "find_event (dl_event x) (s_db s) = Some ev"
    and "validate_url_not_ssrf (ep_url ep) = Inr ()"
  shows "process_delivery fdec st env x io name s =
    (case settle st io (dl_attempt_count x + 1) x (s_counters s) of
       (c, Inl e) \<Rightarrow> (s\<lparr>s_counters := c, s_sent := s_sent s @ [attempt_request st ep ev secret x io]\<rparr>, Inl e)
     | (c, Inr x') \<Rightarrow>
         flush_session (s\<lparr>s_counters := c, s_sent := s_sent s @ [attempt_request st ep ev secret x io]\<rparr>)
           (attempt_row x (dl_attempt_count x + 1) (resolve_worker_name st env name) io) x')"
  using assms by (auto simp: process_delivery_def Let_def attempt_request_def split: prod.split sum.split)

lemma process_delivery_ok:
  assumes "process_delivery fdec st env x io name s = (s', Inr u)"
  obtains x' a where "attempt_recorded x (s_db s) x' a (s_db s')"
    and "settled_from st io x x'"
proof -
  obtain ep where ep: "find_endpoint (dl_endpoint x) (s_db s) = Some ep"
    using assms by (auto simp: process_delivery_def split: option.splits)
  obtain secret where secret: "decrypt_secret fdec st (ep_secret_enc ep) = Inr secret"
    using assms ep by (auto simp: process_delivery_def split: sum.splits)
  obtain ev where ev: "find_event (dl_event x) (s_db s) = Some ev"
    using assms ep secret by (auto simp: process_delivery_def split: option.splits)
  show thesis
  proof (cases rule: guard_cases [of "ep_url ep"])
    case (blocked msg)
    show ?thesis
      using assms that
      unfolding process_delivery_blocked [OF ep secret ev blocked] flush_session_Inr
      by (fastforce simp: attempt_recorded_def settled_from_def ssrf_attempt_row_def dest!: flush_attempt_Inr)
  next
    case (invalid e)
    then have "process_delivery fdec st env x io name s = (s, Inl e)"
      using ep secret ev by (simp add: process_delivery_def Let_def split: py_exc.splits)
    then show ?thesis
      using assms by simp
  next
    case public
    obtain c r where r: "settle st io (dl_attempt_count x + 1) x (s_counters s) = (c, r)"
      by fastforce
    then obtain x' where x': "r = Inr x'"
      using assms unfolding process_delivery_public [OF ep secret ev public] by (cases r) auto
    note sp = settle_spec [OF r [unfolded x']]
    obtain d where "flush_attempt (attempt_row x (dl_attempt_count x + 1)
          (resolve_worker_name st env name) io) x' (s_db s) = Inr d"
      and s': "s_db s' = d"
      using assms unfolding process_delivery_public [OF ep secret ev public]
      by (auto simp: r x' flush_session_Inr)
    then have "attempt_recorded x (s_db s) x'
        (attempt_row x (dl_attempt_count x + 1) (resolve_worker_name st env name) io) d"
      using sp by (auto simp: attempt_recorded_def attempt_row_def dest!: flush_attempt_Inr)
    moreover have "settled_from st io x x'"
      using sp by (auto simp: settled_from_def)
    ultimately show ?thesis
      using that s' by blast
  qed
qed

section \<open>Properties of one attempt\<close>

text \<open>
  What an attempt needs to go through: the endpoint and the event are there, the secret decrypts,
  the row is the delivery's, the attempt's keys are new, and the answer can be stored.
\<close>

definition deliverable ::
  "fernet_dec \<Rightarrow> settings \<Rightarrow> delivery \<Rightarrow> attempt_io \<Rightarrow> endpoint \<Rightarrow> event \<Rightarrow> string \<Rightarrow> db \<Rightarrow> bool" where
  "deliverable fdec st x io ep ev secret d \<longleftrightarrow>
     find_endpoint (dl_endpoint x) d = Some ep \<and> find_event (dl_event x) d = Some ev
     \<and> decrypt_secret fdec st (ep_secret_enc ep) = Inr secret
     \<and> find_delivery (dl_id x) d = Some x \<and> dl_attempt_count x < 1024
     \<and> io_attempt_id io \<notin> at_id ` set (attempts d)
     \<and> (dl_id x, dl_attempt_count x + 1) \<notin> (\<lambda>b. (at_delivery b, at_number b)) ` set (attempts d)
     \<and> (case io_outcome io of Http_response _ b \<Rightarrow> 0 \<notin> set b | Http_exception e \<Rightarrow> 0 \<notin> set e)"

lemma ssrf_msg_no_nul: "0 \<notin> set (ucode ssrf_error_msg)"
  by (simp add: ssrf_error_msg_def)

lemma validate_message: "validate_url_not_ssrf url = Inl (SSRFError msg) \<Longrightarrow> msg = ssrf_error_msg"
  by (auto simp: validate_url_not_ssrf_def split: option.splits if_splits)

lemma process_deliverable:
  assumes "deliverable fdec st x io ep ev secret (s_db s)"
    and "validate_url_not_ssrf (ep_url ep) = Inr ()"
    and "settle st io (dl_attempt_count x + 1) x (s_counters s) = (c, Inr x')"
  shows "process_delivery fdec st env x io name s =
    (s\<lparr>s_counters := c, s_sent := s_sent s @ [attempt_request st ep ev secret x io],
       s_db := (put_delivery x' (s_db s))\<lparr>attempts := attempts (s_db s) @
         [attempt_row x (dl_attempt_count x + 1) (resolve_worker_name st env name) io]\<rparr>\<rparr>, Inr ())"
proof -
  have nul: "\<not> has_nul (at_response_body (attempt_row x n w io)) \<and> \<not> has_nul (at_error (attempt_row x n w io))"
    for n w
    using assms(1)
    by (cases "io_outcome io") (auto simp: deliverable_def attempt_row_def has_nul_def dest: in_set_takeD)
  have "flush_attempt (attempt_row x (dl_attempt_count x + 1) (resolve_worker_name st env name) io) x' (s_db s)
      = Inr ((put_delivery x' (s_db s))\<lparr>attempts := attempts (s_db s) @
         [attempt_row x (dl_attempt_count x + 1) (resolve_worker_name st env name) io]\<rparr>)"
    using assms(1) settle_spec(1) [OF assms(3)] nul
    by (simp add: flush_attempt_def deliverable_def) (simp add: attempt_row_def)
  then show ?thesis
    using assms by (simp add: process_delivery_public deliverable_def flush_session_def)
qed

lemma sample_deliverable:
  "deliverable sample_dec default_settings sample_delivery sample_io sample_endpoint sample_event ''s3cret''
     (sample_db [sample_delivery])"
  by (simp add: deliverable_def sample_secret) (simp add: sample_delivery_def sample_io_def find_delivery_def ucode_def)

text \<open>C3: An attempt on a public URL that can be stored ends the way the retry policy says: one
  request is sent, one attempt row numbered one past the old count is added, the count becomes that
  number, and the delivery succeeds on a 2xx answer, is dead-lettered at the attempt limit, and
  otherwise is pending again with its lease cleared and a next time no earlier than the backoff
  delay after the clock.\<close>

theorem attempt_outcome:
  assumes "deliverable fdec st x io ep ev secret (s_db s)"
    and "validate_url_not_ssrf (ep_url ep) = Inr ()"
    and "0 \<le> retry_base_seconds st" "0 \<le> retry_cap_seconds st" "0 \<le> io_random io" "io_random io \<le> 1"
  shows "\<exists>s' x'. process_delivery fdec st env x io name s = (s', Inr ())
    \<and> find_delivery (dl_id x) (s_db s') = Some x'
    \<and> dl_attempt_count x' = dl_attempt_count x + 1
    \<and> dl_status x' = (if http_succeeded (io_outcome io) then Succeeded
         else if max_delivery_attempts st \<le> dl_attempt_count x + 1 then Dead_lettered else Pending)
    \<and> (dl_status x' \<noteq> Pending \<or> dl_leased_until x' = None \<and> io_backoff_now io
          + timedelta_seconds (backoff_delay (dl_attempt_count x + 1) (retry_base_seconds st) (retry_cap_seconds st))
          \<le> dl_next_attempt_at x')
    \<and> attempts_of (dl_id x) (s_db s') = attempts_of (dl_id x) (s_db s) @
         [attempt_row x (dl_attempt_count x + 1) (resolve_worker_name st env name) io]
    \<and> s_sent s' = s_sent s @ [attempt_request st ep ev secret x io]"
proof -
  let ?n = "dl_attempt_count x + 1"
  obtain c r where r: "settle st io ?n x (s_counters s) = (c, r)"
    by fastforce
  moreover have "?n \<le> 1024"
    using assms(1) by (simp add: deliverable_def)
  ultimately obtain x' where x': "r = Inr x'"
    using settle_total [of ?n st io x "s_counters s"] by auto
  note sp = settle_spec [OF r [unfolded x']]
  have "dl_status x' \<noteq> Pending \<or> io_backoff_now io
      + timedelta_seconds (backoff_delay ?n (retry_base_seconds st) (retry_cap_seconds st)) \<le> dl_next_attempt_at x'"
    using sp(8) compute_next_attempt_at_Inr [of ?n "retry_base_seconds st" "retry_cap_seconds st" "io_random io"
        "io_backoff_now io"] assms(3-6) \<open>?n \<le> 1024\<close> by auto
  moreover have "at_delivery (attempt_row x m w io) = dl_id x" for m w
    by (simp add: attempt_row_def)
  moreover have "find_delivery (dl_id x) (s_db s) = Some x"
    using assms(1) by (simp add: deliverable_def)
  ultimately show ?thesis
    using process_deliverable [OF assms(1,2) r [unfolded x'], of env name] sp
    by (intro exI conjI) (auto simp: find_delivery_put)
qed

theorem attempt_outcome_witness:
  "\<exists>s' x'. process_delivery sample_dec default_settings sample_env sample_delivery sample_io None
        (sample_sess [sample_delivery]) = (s', Inr ())
    \<and> find_delivery 6 (s_db s') = Some x' \<and> dl_attempt_count x' = 1 \<and> dl_status x' = Succeeded
    \<and> length (s_sent s') = 1 \<and> length (attempts_of 6 (s_db s')) = 1"
proof -
  have "dl_id sample_delivery = 6" "dl_attempt_count sample_delivery = 0"
    "http_succeeded (io_outcome sample_io)" "0 \<le> io_random sample_io" "io_random sample_io \<le> 1"
    "attempts_of 6 (sample_db [sample_delivery]) = []"
    by (simp_all add: sample_delivery_def sample_io_def http_succeeded_def attempts_of_def)
  then show ?thesis
    using attempt_outcome [of sample_dec default_settings sample_delivery sample_io sample_endpoint sample_event
        "''s3cret''" "sample_sess [sample_delivery]" sample_env None] sample_deliverable sample_public
    by fastforce
qed

text \<open>C10: The guard runs again at delivery time: an attempt on an endpoint whose URL names a private
  IPv4 address sends no request, whatever the receiver would have answered, and dead-letters the
  delivery at once with an attempt row that carries the guard's message.\<close>

theorem ssrf_dead_letters:
  assumes "deliverable fdec st x io ep ev secret (s_db s)"
    and "ep_url ep = ''http://'' @ dotted a b c d @ rest" "a < 256" "b < 256" "c < 256" "d < 256"
    and "host_end rest" "\<forall>ch \<in> set rest. code ch \<notin> {9, 10, 13}" "private_quad a b c d"
  shows "\<exists>s' x' row. process_delivery fdec st env x io name s = (s', Inr ())
    \<and> s_sent s' = s_sent s
    \<and> find_delivery (dl_id x) (s_db s') = Some x' \<and> dl_status x' = Dead_lettered
    \<and> dl_attempt_count x' = dl_attempt_count x + 1
    \<and> attempts_of (dl_id x) (s_db s') = attempts_of (dl_id x) (s_db s) @ [row]
    \<and> at_error row = Some (ucode ssrf_error_msg) \<and> at_response_status row = None
    \<and> cn_dead_lettered (s_counters s') = cn_dead_lettered (s_counters s) + 1"
proof -
  let ?row = "ssrf_attempt_row x (dl_attempt_count x + 1) ssrf_error_msg (resolve_worker_name st env name) io"
  let ?x = "x\<lparr>dl_attempt_count := dl_attempt_count x + 1, dl_status := Dead_lettered,
              dl_updated_at := io_flush_now io\<rparr>"
  have v: "validate_url_not_ssrf (ep_url ep) = Inl (SSRFError ssrf_error_msg)"
    using validate_dotted [of a b c d rest] assms by simp
  have "flush_attempt ?row ?x (s_db s) = Inr ((put_delivery ?x (s_db s))\<lparr>attempts := attempts (s_db s) @ [?row]\<rparr>)"
    using assms(1) ssrf_msg_no_nul
    by (simp add: flush_attempt_def deliverable_def has_nul_def) (simp add: ssrf_attempt_row_def has_nul_def)
  moreover have "process_delivery fdec st env x io name s =
      flush_session (s\<lparr>s_counters := (s_counters s)\<lparr>cn_dead_lettered := cn_dead_lettered (s_counters s) + 1\<rparr>\<rparr>) ?row ?x"
    using assms(1) v by (intro process_delivery_blocked) (auto simp: deliverable_def)
  moreover have "at_delivery ?row = dl_id x" "at_error ?row = Some (ucode ssrf_error_msg)"
    "at_response_status ?row = None"
    by (simp_all add: ssrf_attempt_row_def)
  ultimately show ?thesis
    using assms(1) by (auto simp: flush_session_def find_delivery_put deliverable_def)
qed

theorem ssrf_dead_letters_witness:
  "\<exists>s' x' row. process_delivery sample_dec default_settings sample_env private_delivery sample_io None
        (sample_sess [private_delivery]) = (s', Inr ())
    \<and> s_sent s' = [] \<and> find_delivery 7 (s_db s') = Some x' \<and> dl_status x' = Dead_lettered
    \<and> attempts_of 7 (s_db s') = [row] \<and> at_error row = Some (ucode ssrf_error_msg)"
proof -
  have "deliverable sample_dec default_settings private_delivery sample_io private_endpoint sample_event ''s3cret''
      (s_db (sample_sess [private_delivery]))"
    by (simp add: deliverable_def)
       (simp add: private_delivery_def sample_delivery_def sample_io_def find_delivery_def ucode_def
        private_endpoint_def sample_endpoint_def sample_dec_def decrypt_secret_def)
  moreover have "dl_id private_delivery = 7" "attempts_of 7 (sample_db [private_delivery]) = []"
    by (simp_all add: private_delivery_def attempts_of_def)
  ultimately show ?thesis
    using ssrf_dead_letters [of sample_dec default_settings private_delivery sample_io private_endpoint sample_event
        "''s3cret''" "sample_sess [private_delivery]" 10 0 0 5 "''/hook''" sample_env None]
    by (fastforce simp: private_endpoint_def host_end_def private_quad_def code_def)
qed

lemma sent_public:
  assumes "process_delivery fdec st env x io name s = (s', r)" "s_sent s' \<noteq> s_sent s"
  obtains ep ev secret where "find_endpoint (dl_endpoint x) (s_db s) = Some ep" "decrypt_secret fdec st (ep_secret_enc ep) = Inr secret"
    and "find_event (dl_event x) (s_db s) = Some ev" "validate_url_not_ssrf (ep_url ep) = Inr ()"
    and "s_sent s' = s_sent s @ [attempt_request st ep ev secret x io]"
proof -
  obtain ep where ep: "find_endpoint (dl_endpoint x) (s_db s) = Some ep"
    using assms(1,2) by (auto simp: process_delivery_def split: option.splits)
  obtain secret where secret: "decrypt_secret fdec st (ep_secret_enc ep) = Inr secret"
    using assms(1,2) ep by (auto simp: process_delivery_def split: sum.splits)
  obtain ev where ev: "find_event (dl_event x) (s_db s) = Some ev"
    using assms(1,2) ep secret by (auto simp: process_delivery_def split: option.splits)
  have keep: "s_sent (fst (flush_session t row y)) = s_sent t" for t row y
    by (simp add: flush_session_def split: sum.split)
  show thesis
  proof (cases rule: guard_cases [of "ep_url ep"])
    case (blocked msg)
    then have "s_sent s' = s_sent s"
      using assms(1) keep process_delivery_blocked [OF ep secret ev blocked, of env io name]
      by (metis fst_conv sess.select_convs(3) sess.surjective sess.update_convs(2))
    then show thesis
      using assms(2) by simp
  next
    case (invalid e)
    then have "process_delivery fdec st env x io name s = (s, Inl e)"
      using ep secret ev by (simp add: process_delivery_def Let_def split: py_exc.splits)
    then show thesis
      using assms by simp
  next
    case public
    have "s_sent s' = s_sent s @ [attempt_request st ep ev secret x io]"
      using assms(1) keep process_delivery_public [OF ep secret ev public, of env io name]
      by (auto split: prod.splits sum.splits) (metis fst_conv sess.select_convs(3) sess.surjective sess.update_convs)
    then show thesis
      using that ep secret ev public by blast
  qed
qed

lemma request_signature:
  "map_of (rq_headers (attempt_request st ep ev secret x io)) ''X-Webhook-Signature''
     = Some (build_signature_header secret (io_ts io) (rq_content (attempt_request st ep ev secret x io)))"
  "map_of (rq_headers (attempt_request st ep ev secret x io)) ''X-Webhook-Attempt'' = Some (show_int (dl_attempt_count x + 1))"
  "map_of (rq_headers (attempt_request st ep ev secret x io)) ''X-Webhook-Timestamp'' = Some (show_int (io_ts io))"
  "rq_url (attempt_request st ep ev secret x io) = ep_url ep"
  by (simp_all add: attempt_request_def attempt_headers_def Let_def)

text \<open>C9: Every request the worker sends can be checked by its receiver: the signature header it
  carries is accepted by the verifier for the bytes of the body, under the endpoint's secret, at any
  time within five minutes of the attempt.\<close>

theorem sent_request_verifies:
  assumes "process_delivery fdec st env x io name s = (s', r)" "s_sent s' \<noteq> s_sent s"
    and "\<bar>io_ts io\<bar> < 2 ^ 64" "\<bar>now - of_int (io_ts io)\<bar> \<le> 300"
  shows "\<exists>rq ep secret. s_sent s' = s_sent s @ [rq]
    \<and> find_endpoint (dl_endpoint x) (s_db s) = Some ep \<and> rq_url rq = ep_url ep
    \<and> decrypt_secret fdec st (ep_secret_enc ep) = Inr secret
    \<and> verify_signature secret (map_of (rq_headers rq) ''X-Webhook-Signature'') (rq_content rq) now
        = Inr (True, ''ok'')"
proof -
  obtain ep ev secret where sent: "find_endpoint (dl_endpoint x) (s_db s) = Some ep" "decrypt_secret fdec st (ep_secret_enc ep) = Inr secret"
    "s_sent s' = s_sent s @ [attempt_request st ep ev secret x io]"
    using sent_public [OF assms(1,2)] by blast
  then show ?thesis
    using webhook.accepts [OF assms(3,4)]
    by (intro exI [of _ "attempt_request st ep ev secret x io"] exI [of _ ep] exI [of _ secret])
       (simp add: request_signature)
qed

theorem sent_request_verifies_witness:
  "\<exists>rq. s_sent (fst (process_delivery sample_dec default_settings sample_env sample_delivery sample_io None
        (sample_sess [sample_delivery]))) = [rq]
    \<and> verify_signature ''s3cret'' (map_of (rq_headers rq) ''X-Webhook-Signature'') (rq_content rq) 1700000100
        = Inr (True, ''ok'')"
proof -
  let ?p = "process_delivery sample_dec default_settings sample_env sample_delivery sample_io None
      (sample_sess [sample_delivery])"
  have "\<exists>c x'. settle default_settings sample_io (dl_attempt_count sample_delivery + 1) sample_delivery
      zero_counters = (c, Inr x')"
    by (simp add: settle_def Let_def sample_io_def http_succeeded_def)
  then have "s_sent (fst ?p) \<noteq> s_sent (sample_sess [sample_delivery])"
    using process_deliverable [of sample_dec default_settings sample_delivery sample_io sample_endpoint sample_event
        "''s3cret''" "sample_sess [sample_delivery]"] sample_deliverable sample_public by fastforce
  moreover have "?p = (fst ?p, snd ?p)"
    by simp
  moreover have "find_endpoint (dl_endpoint sample_delivery) (sample_db [sample_delivery]) = Some sample_endpoint"
    by (simp add: sample_delivery_def)
  ultimately show ?thesis
    using sent_request_verifies [of sample_dec default_settings sample_env sample_delivery sample_io None
        "sample_sess [sample_delivery]" "fst ?p" "snd ?p" 1700000100] sample_secret
    by (fastforce simp: sample_io_def)
qed

end
