(* ===== verification/Worker_Batch.thy ===== *)
theory Worker_Batch
  imports Worker_Attempt
begin

text \<open>
  A batch of the worker: which deliveries a claim takes, what a tick leaves behind whether it
  commits or rolls back, and the invariants every tick keeps.
\<close>

section \<open>Claims\<close>

lemma claim_rows_due: "x \<in> set (claim_rows n locked now d) \<Longrightarrow> x \<in> set (deliveries d) \<and> due now x \<and> \<not> locked (dl_id x)"
  by (auto simp: claim_rows_def dest!: in_set_takeD)

lemma claim_rows_sorted: "sorted (map dl_next_attempt_at (claim_rows n locked now d))"
  unfolding claim_rows_def by (simp add: take_map [symmetric] filter_sort_key_comm sorted_wrt_take)

lemma claim_rows_distinct:
  "distinct (map dl_id (deliveries d)) \<Longrightarrow> distinct (map dl_id (claim_rows n locked now d))"
  by (simp add: claim_rows_def distinct_map_take filter_sort_key_comm distinct_map_filter)
     (auto simp: distinct_map inj_on_def dest!: in_set_takeD)

lemma claim_rows_length:
  "length (claim_rows n locked now d)
     = min n (length (filter (\<lambda>x. due now x \<and> \<not> locked (dl_id x)) (deliveries d)))"
  by (simp add: claim_rows_def filter_sort_key_comm conj_commute min.commute)

text \<open>A row the claim leaves behind although it could have taken it is due no earlier.\<close>

lemma claim_rows_earliest:
  assumes "x \<in> set (claim_rows n locked now d)"
    and "y \<in> set (deliveries d)" "due now y" "\<not> locked (dl_id y)" "y \<notin> set (claim_rows n locked now d)"
  shows "dl_next_attempt_at x \<le> dl_next_attempt_at y"
proof -
  let ?all = "filter (\<lambda>x. \<not> locked (dl_id x)) (sort_key dl_next_attempt_at (filter (due now) (deliveries d)))"
  have "sorted (map dl_next_attempt_at ?all)"
    by (simp add: filter_sort_key_comm)
  moreover have "y \<in> set ?all"
    using assms(2-4) by simp
  then have "y \<in> set (drop n ?all)"
    using assms(5) append_take_drop_id [of n ?all] unfolding claim_rows_def
    by (metis Un_iff set_append)
  ultimately show ?thesis
    using assms(1) unfolding claim_rows_def by (blast intro: sorted_take_le_drop)
qed

lemma stamp_claim_simps [simp]:
  "dl_id (stamp_claim l w t x) = dl_id x" "dl_event (stamp_claim l w t x) = dl_event x"
  "dl_endpoint (stamp_claim l w t x) = dl_endpoint x" "dl_status (stamp_claim l w t x) = In_flight"
  "dl_attempt_count (stamp_claim l w t x) = dl_attempt_count x"
  "dl_next_attempt_at (stamp_claim l w t x) = dl_next_attempt_at x"
  by (simp_all add: stamp_claim_def)

section \<open>Writing back a batch\<close>

lemma put_all_simps [simp]:
  "put_all [] d = d" "put_all (x # xs) d = put_all xs (put_delivery x d)"
  by (simp_all add: put_all_def)

lemma put_all_keeps [simp]:
  "endpoints (put_all xs d) = endpoints d" "events (put_all xs d) = events d"
  "projects (put_all xs d) = projects d" "attempts (put_all xs d) = attempts d"
  "find_endpoint i (put_all xs d) = find_endpoint i d" "find_event i (put_all xs d) = find_event i d"
  "attempts_of i (put_all xs d) = attempts_of i d"
  by (induction xs arbitrary: d) simp_all

lemma put_all_ids [simp]: "map dl_id (deliveries (put_all xs d)) = map dl_id (deliveries d)"
  by (induction xs arbitrary: d) (simp_all add: map_pk_put_pk)

lemma find_put_all_other: "i \<notin> dl_id ` set xs \<Longrightarrow> find_delivery i (put_all xs d) = find_delivery i d"
  by (induction xs arbitrary: d) (simp_all add: find_delivery_put)

lemma find_put_all:
  assumes "distinct (map dl_id xs)" "x \<in> set xs" "find_delivery (dl_id x) d \<noteq> None"
  shows "find_delivery (dl_id x) (put_all xs d) = Some x"
  using assms
proof (induction xs arbitrary: d)
  case (Cons y ys)
  show ?case
  proof (cases "x = y")
    case True
    then have "dl_id x \<notin> dl_id ` set ys"
      using Cons.prems(1) by auto
    then show ?thesis
      using True Cons.prems(3) by (simp add: find_put_all_other find_delivery_put)
  next
    case False
    then have "x \<in> set ys" "dl_id x \<noteq> dl_id y"
      using Cons.prems(1,2) by (auto simp: image_iff)
    then show ?thesis
      using Cons.IH [of "put_delivery y d"] Cons.prems by (simp add: find_delivery_put)
  qed
qed simp

lemma find_delivery_row:
  "distinct (map dl_id (deliveries d)) \<Longrightarrow> x \<in> set (deliveries d) \<Longrightarrow> find_delivery (dl_id x) d = Some x"
  by (simp add: find_delivery_def find_pk_unique)

lemma find_delivery_mem: "find_delivery i d = Some x \<Longrightarrow> x \<in> set (deliveries d) \<and> dl_id x = i"
  unfolding find_delivery_def by (auto dest: find_pk_Some)

lemma delivery_rows_iff:
  "distinct (map dl_id (deliveries d)) \<Longrightarrow> x \<in> set (deliveries d) \<longleftrightarrow> find_delivery (dl_id x) d = Some x"
  using find_delivery_row find_delivery_mem by blast

section \<open>A recorded attempt\<close>

text \<open>Facts about the database after an attempt, from the description of the branch-free effect.\<close>

lemma recorded_ids: "attempt_recorded x d x' a d' \<Longrightarrow> map dl_id (deliveries d') = map dl_id (deliveries d)"
  by (simp add: attempt_recorded_def map_pk_put_pk)

lemma recorded_keeps:
  assumes "attempt_recorded x d x' a d'"
  shows "endpoints d' = endpoints d" "events d' = events d" "projects d' = projects d"
    "find_endpoint i d' = find_endpoint i d" "find_event i d' = find_event i d"
  using assms by (auto simp: attempt_recorded_def)

lemma recorded_find:
  assumes "attempt_recorded x d x' a d'"
  shows "find_delivery i d' = (if i = dl_id x then Some x' else find_delivery i d)"
  using assms by (auto simp: attempt_recorded_def find_delivery_put)

lemma recorded_attempts:
  assumes "attempt_recorded x d x' a d'"
  shows "attempts_of i d' = attempts_of i d @ (if i = dl_id x then [a] else [])"
  using assms by (auto simp: attempt_recorded_def)

section \<open>Processing a batch\<close>

definition batch_ok :: "delivery list \<Rightarrow> db \<Rightarrow> bool" where
  "batch_ok xs d \<longleftrightarrow> distinct (map dl_id xs) \<and> (\<forall>x \<in> set xs. find_delivery (dl_id x) d = Some x)"

lemma batch_ok_recorded:
  assumes "batch_ok (x # xs) d" and r: "attempt_recorded x d x' a d'"
  shows "batch_ok xs d'"
  unfolding batch_ok_def
proof (intro conjI ballI)
  show "distinct (map dl_id xs)"
    using assms(1) by (simp add: batch_ok_def)
  fix y assume "y \<in> set xs"
  then have "dl_id y \<noteq> dl_id x" "find_delivery (dl_id y) d = Some y"
    using assms(1) by (auto simp: batch_ok_def image_iff)
  then show "find_delivery (dl_id y) d' = Some y"
    by (simp add: recorded_find [OF r])
qed

lemma throttle_db: "throttle x seen s = (s', r) \<Longrightarrow> s_db s' = s_db s \<and> s_sent s' = s_sent s"
  by (auto simp: throttle_def sleep_for_rate_limit_def split: if_splits option.splits)

lemma process_all_Cons:
  assumes "process_all fdec st env name ios seen (x # xs) s = (s', Inr u)"
  obtains s1 s2 seen' where "throttle x seen s = (s1, Inr ())" "s_db s1 = s_db s"
    and "process_delivery fdec st env x (ios (dl_id x)) name s1 = (s2, Inr ())"
    and "process_all fdec st env name ios seen' xs s2 = (s', Inr u)"
proof -
  obtain s1 where 1: "throttle x seen s = (s1, Inr ())"
    using assms by (auto split: prod.splits sum.splits)
  obtain s2 where 2: "process_delivery fdec st env x (ios (dl_id x)) name s1 = (s2, Inr ())"
    using assms 1 by (auto split: prod.splits sum.splits)
  show thesis
    using that [OF 1 _ 2] throttle_db [OF 1] assms 1 2 by simp
qed

text \<open>Whatever every recorded attempt keeps, a batch keeps.\<close>

lemma process_all_inv:
  assumes "process_all fdec st env name ios seen xs s = (s', Inr u)"
    and "batch_ok xs (s_db s)" "P (s_db s)"
    and step: "\<And>x d x' a d'. P d \<Longrightarrow> find_delivery (dl_id x) d = Some x \<Longrightarrow> attempt_recorded x d x' a d' \<Longrightarrow> P d'"
  shows "P (s_db s')"
  using assms(1-3)
proof (induction xs arbitrary: seen s)
  case (Cons x xs)
  from Cons.prems(1) obtain s1 s2 seen' where s1: "s_db s1 = s_db s"
    and p: "process_delivery fdec st env x (ios (dl_id x)) name s1 = (s2, Inr ())"
    and rest: "process_all fdec st env name ios seen' xs s2 = (s', Inr u)"
    by (rule process_all_Cons)
  from p obtain x' a where "attempt_recorded x (s_db s1) x' a (s_db s2)"
    by (rule process_delivery_ok)
  then have r: "attempt_recorded x (s_db s) x' a (s_db s2)"
    by (simp only: s1)
  have "batch_ok xs (s_db s2)"
    using Cons.prems(2) r by (rule batch_ok_recorded)
  moreover have "P (s_db s2)"
    using step [OF Cons.prems(3) _ r] Cons.prems(2) by (simp add: batch_ok_def)
  ultimately show ?case
    using Cons.IH [OF rest] by blast
qed simp

lemma process_all_rows:
  assumes "process_all fdec st env name ios seen xs s = (s', Inr u)" "batch_ok xs (s_db s)"
  shows "map dl_id (deliveries (s_db s')) = map dl_id (deliveries (s_db s))
    \<and> (\<forall>i. i \<notin> dl_id ` set xs \<longrightarrow> find_delivery i (s_db s') = find_delivery i (s_db s)
              \<and> attempts_of i (s_db s') = attempts_of i (s_db s))
    \<and> (\<forall>x \<in> set xs. (\<exists>x'. find_delivery (dl_id x) (s_db s') = Some x' \<and> settled_from st (ios (dl_id x)) x x')
         \<and> (\<exists>a. attempts_of (dl_id x) (s_db s') = attempts_of (dl_id x) (s_db s) @ [a]
                \<and> at_number a = dl_attempt_count x + 1))"
  using assms
proof (induction xs arbitrary: seen s)
  case (Cons x xs)
  from Cons.prems(1) obtain s1 s2 seen' where s1: "s_db s1 = s_db s"
    and p: "process_delivery fdec st env x (ios (dl_id x)) name s1 = (s2, Inr ())"
    and rest: "process_all fdec st env name ios seen' xs s2 = (s', Inr u)"
    by (rule process_all_Cons)
  from p obtain x' a where r1: "attempt_recorded x (s_db s1) x' a (s_db s2)"
    and settled: "settled_from st (ios (dl_id x)) x x'"
    by (rule process_delivery_ok)
  from r1 have r: "attempt_recorded x (s_db s) x' a (s_db s2)"
    by (simp only: s1)
  have "batch_ok xs (s_db s2)"
    using Cons.prems(2) r by (rule batch_ok_recorded)
  note IH = Cons.IH [OF rest this]
  have x: "dl_id x \<notin> dl_id ` set xs"
    using Cons.prems(2) by (auto simp: batch_ok_def)
  have "at_number a = dl_attempt_count x + 1"
    using r by (simp add: attempt_recorded_def)
  moreover have "dl_id y \<noteq> dl_id x" if "y \<in> set xs" for y
    using x that by (metis imageI)
  ultimately show ?case
    using IH x settled by (auto simp: recorded_find [OF r] recorded_attempts [OF r] recorded_ids [OF r])
qed simp

end
