(* ===== verification/Worker_Tick.thy ===== *)
theory Worker_Tick
  imports Worker_Batch
begin

text \<open>
  The tick of the worker loop: what a committed batch has done, what a failed one undoes, the audit
  invariant that ties each delivery's count to its attempt rows, and the draining of the queue.
\<close>

section \<open>Lease recovery\<close>

definition recovered :: "time \<Rightarrow> delivery \<Rightarrow> delivery" where
  "recovered now x = (if lease_expired now x
     then x\<lparr>dl_status := Pending, dl_leased_until := None, dl_updated_at := now\<rparr> else x)"

lemma recover_deliveries: "deliveries (recover_expired_leases now d) = map (recovered now) (deliveries d)"
  by (simp add: recover_expired_leases_def recovered_def)

lemma recover_keeps [simp]:
  "endpoints (recover_expired_leases now d) = endpoints d"
  "events (recover_expired_leases now d) = events d"
  "attempts (recover_expired_leases now d) = attempts d"
  "find_endpoint i (recover_expired_leases now d) = find_endpoint i d"
  "find_event i (recover_expired_leases now d) = find_event i d"
  "attempts_of i (recover_expired_leases now d) = attempts_of i d"
  by (simp_all add: recover_expired_leases_def find_endpoint_def find_event_def attempts_of_def)

lemma recovered_simps [simp]:
  "dl_id (recovered now x) = dl_id x" "dl_event (recovered now x) = dl_event x"
  "dl_endpoint (recovered now x) = dl_endpoint x" "dl_attempt_count (recovered now x) = dl_attempt_count x"
  "dl_next_attempt_at (recovered now x) = dl_next_attempt_at x"
  by (simp_all add: recovered_def)

lemma recover_ids [simp]:
  "map dl_id (deliveries (recover_expired_leases now d)) = map dl_id (deliveries d)"
  by (simp add: recover_deliveries comp_def)

lemma find_pk_map: "(\<And>x. pk (f x) = pk x) \<Longrightarrow> find_pk pk k (map f xs) = map_option f (find_pk pk k xs)"
  by (induction xs) auto

lemma find_recovered: "find_delivery i (recover_expired_leases now d) = map_option (recovered now) (find_delivery i d)"
  by (simp add: find_delivery_def recover_deliveries find_pk_map)

section \<open>A claim that returns\<close>

abbreviation claim_stamp :: "settings \<Rightarrow> worker_env \<Rightarrow> string option \<Rightarrow> time \<Rightarrow> time \<Rightarrow> delivery \<Rightarrow> delivery" where
  "claim_stamp st env name now flush_now \<equiv>
     stamp_claim (now + seconds (worker_lease_seconds st)) (resolve_worker_name st env name) flush_now"

lemma claim_Inr:
  assumes "claim_due_deliveries st env b name locked now flush_now d = Inr (rows, d')"
  shows "\<exists>n. n = nat (case b of None \<Rightarrow> worker_batch_size st | Some k \<Rightarrow> k)
     \<and> rows = map (claim_stamp st env name now flush_now) (claim_rows n locked now d)
     \<and> d' = put_all rows d"
  using assms by (auto simp: claim_due_deliveries_def Let_def split: if_splits)

lemma claim_batch_ok:
  assumes "distinct (map dl_id (deliveries d))"
    and rows: "rows = map (claim_stamp st env name now flush_now) (claim_rows n locked now d)"
  shows "batch_ok rows (put_all rows d)"
  unfolding batch_ok_def
proof (intro conjI ballI)
  show dist: "distinct (map dl_id rows)"
    using claim_rows_distinct [OF assms(1)] by (simp add: rows comp_def)
  fix x assume x: "x \<in> set rows"
  then obtain y where "y \<in> set (deliveries d)" "dl_id x = dl_id y"
    by (auto simp: rows dest: claim_rows_due)
  then have "find_delivery (dl_id x) d \<noteq> None"
    using find_delivery_row [OF assms(1)] by simp
  then show "find_delivery (dl_id x) (put_all rows d) = Some x"
    using find_put_all [OF dist x] by blast
qed

lemma claim_ids: "dl_id ` set (map (claim_stamp st env name now flush_now) xs) = dl_id ` set xs"
  by (simp add: image_image)

text \<open>C5: A claim takes only deliveries that are pending, due and not locked by another session, at
  most the batch size of them, each at most once, and never one while leaving an earlier one it could
  have taken; each is stored in flight, leased and stamped with the claimer, and no other row changes.\<close>

theorem claim_spec:
  assumes "claim_due_deliveries st env b name locked now flush_now d = Inr (rows, d')"
    and "distinct (map dl_id (deliveries d))"
  shows "int (length rows) \<le> (case b of None \<Rightarrow> worker_batch_size st | Some k \<Rightarrow> k)
    \<and> distinct (map dl_id rows)
    \<and> (\<forall>x \<in> set rows. find_delivery (dl_id x) d' = Some x \<and> dl_status x = In_flight
         \<and> dl_leased_until x = Some (now + seconds (worker_lease_seconds st))
         \<and> dl_claimed_by x = Some (resolve_worker_name st env name)
         \<and> (\<exists>y. find_delivery (dl_id x) d = Some y \<and> due now y \<and> \<not> locked (dl_id x)))
    \<and> (\<forall>x \<in> set rows. \<forall>y \<in> set (deliveries d). due now y \<and> \<not> locked (dl_id y) \<and> dl_id y \<notin> dl_id ` set rows
         \<longrightarrow> dl_next_attempt_at x \<le> dl_next_attempt_at y)
    \<and> (\<forall>i. i \<notin> dl_id ` set rows \<longrightarrow> find_delivery i d' = find_delivery i d)"
proof -
  let ?b = "case b of None \<Rightarrow> worker_batch_size st | Some k \<Rightarrow> k"
  let ?c = "claim_rows (nat ?b) locked now d"
  have rows: "rows = map (claim_stamp st env name now flush_now) ?c" and d': "d' = put_all rows d"
    using claim_Inr [OF assms(1)] by auto
  have "0 \<le> ?b"
    using assms(1) by (auto simp: claim_due_deliveries_def Let_def split: if_splits)
  moreover have "length rows \<le> nat ?b"
    by (simp add: rows claim_rows_length)
  ultimately have len: "int (length rows) \<le> ?b"
    by linarith
  have ok: "batch_ok rows d'"
    unfolding d' using claim_batch_ok [OF assms(2) rows] .
  have row: "find_delivery (dl_id x) d' = Some x \<and> dl_status x = In_flight
      \<and> dl_leased_until x = Some (now + seconds (worker_lease_seconds st))
      \<and> dl_claimed_by x = Some (resolve_worker_name st env name)
      \<and> (\<exists>y. find_delivery (dl_id x) d = Some y \<and> due now y \<and> \<not> locked (dl_id x))" if x: "x \<in> set rows" for x
  proof -
    obtain y where y: "y \<in> set ?c" "x = claim_stamp st env name now flush_now y"
      using x by (auto simp: rows)
    have "y \<in> set (deliveries d)" "due now y" "\<not> locked (dl_id y)"
      using claim_rows_due [OF y(1)] by auto
    moreover have "find_delivery (dl_id x) d' = Some x"
      using ok x by (simp add: batch_ok_def)
    moreover have "find_delivery (dl_id y) d = Some y"
      using find_delivery_row [OF assms(2)] calculation(1) by blast
    ultimately show ?thesis
      using y(2) by (simp add: stamp_claim_def)
  qed
  have early: "dl_next_attempt_at x \<le> dl_next_attempt_at y"
    if "x \<in> set rows" "y \<in> set (deliveries d)" "due now y" "\<not> locked (dl_id y)" "dl_id y \<notin> dl_id ` set rows" for x y
  proof -
    have "y \<notin> set ?c"
      using that(5) by (auto simp: rows image_image)
    then show ?thesis
      using that(1-4) claim_rows_earliest by (fastforce simp: rows)
  qed
  have "find_delivery i d' = find_delivery i d" if "i \<notin> dl_id ` set rows" for i
    using that by (simp add: d' find_put_all_other)
  then show ?thesis
    using len ok row early by (simp add: batch_ok_def)
qed

theorem claim_spec_witness:
  "\<exists>x d'. claim_due_deliveries default_settings sample_env (Some 1) None (\<lambda>_. False) 1000 1000
        (sample_db [private_delivery, sample_delivery]) = Inr ([x], d')
    \<and> dl_id x = 6 \<and> find_delivery 6 d' = Some x \<and> dl_status x = In_flight
    \<and> find_delivery 7 d' = find_delivery 7 (sample_db [private_delivery, sample_delivery])"
proof -
  let ?d = "sample_db [private_delivery, sample_delivery]"
  let ?x = "claim_stamp default_settings sample_env None 1000 1000 sample_delivery"
  have "claim_rows 1 (\<lambda>_. False) 1000 ?d = [sample_delivery]"
    by (simp add: claim_rows_def due_def private_delivery_def sample_delivery_def)
  then have c: "claim_due_deliveries default_settings sample_env (Some 1) None (\<lambda>_. False) 1000 1000 ?d
      = Inr ([?x], put_all [?x] ?d)"
    by (simp add: claim_due_deliveries_def)
  have "distinct (map dl_id (deliveries ?d))" "dl_id ?x = 6"
    by (simp_all add: private_delivery_def sample_delivery_def)
  then show ?thesis
    using claim_spec [OF c] c by fastforce
qed

section \<open>A batch that returns\<close>

abbreviation tick_batch :: "settings \<Rightarrow> tick_io \<Rightarrow> db \<Rightarrow> delivery list" where
  "tick_batch st io d \<equiv>
     claim_rows (nat (worker_batch_size st)) (tk_locked io) (tk_now io)
       (recover_expired_leases (tk_recover_now io) d)"

text \<open>A committed batch: recovery everywhere, one settled attempt for each claimed delivery.\<close>

lemma run_once_Inr:
  assumes "run_once fdec st env name io s = (s', Inr n)" "distinct (map dl_id (deliveries (s_db s)))"
  defines "d0 \<equiv> recover_expired_leases (tk_recover_now io) (s_db s)" and "c \<equiv> tick_batch st io (s_db s)"
  shows "n = int (length c)"
    and "map dl_id (deliveries (s_db s')) = map dl_id (deliveries (s_db s))"
    and "i \<notin> dl_id ` set c \<Longrightarrow> find_delivery i (s_db s') = find_delivery i d0
           \<and> attempts_of i (s_db s') = attempts_of i (s_db s)"
    and "x \<in> set c \<Longrightarrow>
      (\<exists>x'. find_delivery (dl_id x) (s_db s') = Some x'
         \<and> settled_from st (tk_attempts io (dl_id x)) x x')
      \<and> (\<exists>a. attempts_of (dl_id x) (s_db s') = attempts_of (dl_id x) (s_db s) @ [a]
            \<and> at_number a = dl_attempt_count x + 1)"
proof -
  obtain rows d1 where cl: "claim_due_deliveries st env None name (tk_locked io) (tk_now io) (tk_flush_now io) d0
      = Inr (rows, d1)"
    using assms(1) unfolding run_once_def d0_def Let_def by (auto split: sum.splits)
  have rows: "rows = map (claim_stamp st env name (tk_now io) (tk_flush_now io)) c" and d1: "d1 = put_all rows d0"
    using claim_Inr [OF cl] by (auto simp: c_def d0_def)
  define s1 where "s1 = s\<lparr>s_db := d1, s_counters := (s_counters s)
      \<lparr>cn_claimed := cn_claimed (s_counters s) + int (length rows)\<rparr>\<rparr>"
  obtain u where pa: "process_all fdec st env name (tk_attempts io) [] rows s1 = (s', Inr u)"
    and n: "n = int (length rows)"
    using assms(1) cl unfolding run_once_def d0_def s1_def Let_def
    by (auto split: prod.splits sum.splits)
  have dist: "distinct (map dl_id (deliveries d0))"
    using assms(2) by (simp add: d0_def)
  have s1: "s_db s1 = d1"
    by (simp add: s1_def)
  have "batch_ok rows (s_db s1)"
    unfolding s1 d1 using dist rows unfolding c_def d0_def by (rule claim_batch_ok)
  note ro = process_all_rows [OF pa this]
  have ids: "dl_id ` set rows = dl_id ` set c"
    by (simp add: rows image_image)
  show "n = int (length c)"
    by (simp add: n rows)
  show "map dl_id (deliveries (s_db s')) = map dl_id (deliveries (s_db s))"
    using ro by (simp add: s1 d1 d0_def)
  show "find_delivery i (s_db s') = find_delivery i d0 \<and> attempts_of i (s_db s') = attempts_of i (s_db s)"
    if "i \<notin> dl_id ` set c"
    using ro that ids by (simp add: s1 d1 find_put_all_other) (simp add: d0_def)
  assume "x \<in> set c"
  then have "claim_stamp st env name (tk_now io) (tk_flush_now io) x \<in> set rows"
    by (simp add: rows)
  with ro show "(\<exists>x'. find_delivery (dl_id x) (s_db s') = Some x'
         \<and> settled_from st (tk_attempts io (dl_id x)) x x')
      \<and> (\<exists>a. attempts_of (dl_id x) (s_db s') = attempts_of (dl_id x) (s_db s) @ [a]
            \<and> at_number a = dl_attempt_count x + 1)"
    unfolding s1 d1 by (fastforce simp: settled_from_def d0_def)
qed

lemma run_once_other:
  assumes "run_once fdec st env name io s = (s', Inr n)" "distinct (map dl_id (deliveries (s_db s)))"
    and "find_delivery i (s_db s') = Some x'" "i \<notin> dl_id ` set (tick_batch st io (s_db s))"
  shows "\<exists>y. find_delivery i (s_db s) = Some y \<and> x' = recovered (tk_recover_now io) y"
proof -
  have "map_option (recovered (tk_recover_now io)) (find_delivery i (s_db s)) = Some x'"
    using run_once_Inr(3) [OF assms(1,2,4)] assms(3) unfolding find_recovered by simp
  then show ?thesis
    by auto
qed

section \<open>A tick of the sample world\<close>

lemma sample_run:
  "\<exists>s'. run_once sample_dec default_settings sample_env None sample_tick (sample_sess [sample_delivery]) = (s', Inr 1)"
proof -
  let ?x = "claim_stamp default_settings sample_env None 1000 1000 sample_delivery"
  let ?d = "sample_db [sample_delivery]" and ?io = "tk_attempts sample_tick 6"
  have d0: "recover_expired_leases 1000 ?d = ?d"
    by (simp add: recover_expired_leases_def lease_expired_def sample_db_def sample_delivery_def)
  have "claim_rows 10 (\<lambda>_. False) 1000 ?d = [sample_delivery]"
    by (simp add: claim_rows_def due_def sample_delivery_def)
  then have c: "claim_due_deliveries default_settings sample_env None None (\<lambda>_. False) 1000 1000 ?d
      = Inr ([?x], put_delivery ?x ?d)"
    by (simp add: claim_due_deliveries_def)
  define s1 where "s1 = (sample_sess [sample_delivery])\<lparr>s_db := put_delivery ?x ?d,
      s_counters := zero_counters\<lparr>cn_claimed := cn_claimed zero_counters + 1\<rparr>\<rparr>"
  have ids: "dl_id ?x = 6" "dl_endpoint ?x = 2" "dl_event ?x = 5"
    by (simp_all add: sample_delivery_def)
  have "find_delivery 6 (put_delivery ?x ?d) = Some ?x"
    unfolding find_delivery_put ids(1) by (simp add: find_delivery_def sample_delivery_def)
  then have dv: "deliverable sample_dec default_settings ?x ?io sample_endpoint sample_event ''s3cret'' (s_db s1)"
    unfolding deliverable_def s1_def
    by (simp add: ids sample_secret) (simp add: sample_delivery_def sample_tick_def sample_io_def ucode_def)
  obtain c1 x' where "settle default_settings ?io (dl_attempt_count ?x + 1) ?x (s_counters s1) = (c1, Inr x')"
    by (simp add: settle_def Let_def sample_io_def sample_tick_def http_succeeded_def)
  note p = process_deliverable [OF dv sample_public this, of sample_env None]
  have th: "throttle ?x [] s1 = (s1, Inr ())"
    by (simp add: throttle_def)
  have "\<exists>s2. process_all sample_dec default_settings sample_env None (tk_attempts sample_tick) [] [?x] s1 = (s2, Inr ())"
    using th p ids by simp
  moreover have "run_once sample_dec default_settings sample_env None sample_tick (sample_sess [sample_delivery])
      = (case process_all sample_dec default_settings sample_env None (tk_attempts sample_tick) [] [?x] s1 of
           (s2, Inl e) \<Rightarrow> (s2, Inl e) | (s2, Inr _) \<Rightarrow> (s2, Inr 1))"
    using c d0 by (simp add: run_once_def s1_def Let_def sample_tick_def)
  ultimately show ?thesis
    by auto
qed

lemma sample_ids: "distinct (map dl_id (deliveries (s_db (sample_sess [sample_delivery]))))"
  by simp

section \<open>Properties of a tick\<close>

lemma worker_tick_cases:
  assumes "worker_tick fdec st env name io s = (s', n)"
  obtains (committed) "run_once fdec st env name io s = (s', Inr n)"
  | (rolled_back) e s1 where "run_once fdec st env name io s = (s1, Inl e)"
      "s' = s1\<lparr>s_db := s_db s\<rparr>" "n = 0"
  using assms by (auto simp: worker_tick_def split: prod.splits sum.splits)

text \<open>
  No delivery is in flight: what every transaction of the worker leaves in the database.
\<close>

definition none_in_flight :: "db \<Rightarrow> bool" where
  "none_in_flight d \<longleftrightarrow> (\<forall>x \<in> set (deliveries d). dl_status x \<noteq> In_flight)"

lemma tick_keeps_none_in_flight:
  assumes "worker_tick fdec st env name io s = (s', n)"
    and "distinct (map dl_id (deliveries (s_db s)))" "none_in_flight (s_db s)"
  shows "none_in_flight (s_db s')"
  using assms(1)
proof (cases rule: worker_tick_cases)
  case committed
  note ro = run_once_Inr [OF committed assms(2)]
  show ?thesis
    unfolding none_in_flight_def
  proof
    fix x' assume x': "x' \<in> set (deliveries (s_db s'))"
    have f: "find_delivery (dl_id x') (s_db s') = Some x'"
      using x' ro(2) assms(2) by (intro find_delivery_row) simp_all
    show "dl_status x' \<noteq> In_flight"
    proof (cases "dl_id x' \<in> dl_id ` set (tick_batch st io (s_db s))")
      case True
      then show ?thesis
        using ro(4) f by (fastforce simp: settled_from_def)
    next
      case False
      then obtain y where "find_delivery (dl_id x') (s_db s) = Some y" "x' = recovered (tk_recover_now io) y"
        using run_once_other [OF committed assms(2) f] by blast
      then show ?thesis
        using assms(3) by (auto simp: none_in_flight_def recovered_def dest: find_delivery_mem)
    qed
  qed
next
  case rolled_back
  then show ?thesis
    using assms(3) by simp
qed

text \<open>C12: The leased state never reaches the database: a tick that starts with no delivery in flight
  ends with none, whether it commits or rolls back, because the batch is claimed and settled in one
  transaction. So the lease recovery has nothing to recover.\<close>

theorem tick_none_in_flight:
  assumes "worker_tick fdec st env name io s = (s', n)"
    and "distinct (map dl_id (deliveries (s_db s)))" "none_in_flight (s_db s)"
  shows "none_in_flight (s_db s')
    \<and> recover_expired_leases now (s_db s') = s_db s'"
proof -
  have "recover_expired_leases now d = d" if "none_in_flight d" for d
  proof -
    have "map (recovered now) (deliveries d) = deliveries d"
      using that by (intro map_idI) (auto simp: none_in_flight_def recovered_def lease_expired_def)
    then show ?thesis
      using recover_deliveries [of now d] by (simp add: recover_expired_leases_def)
  qed
  then show ?thesis
    using tick_keeps_none_in_flight [OF assms] by blast
qed

theorem tick_none_in_flight_witness:
  "\<exists>s'. worker_tick sample_dec default_settings sample_env None sample_tick (sample_sess [sample_delivery]) = (s', 1)
    \<and> none_in_flight (s_db s') \<and> recover_expired_leases 9000000000 (s_db s') = s_db s'"
proof -
  obtain s' where "worker_tick sample_dec default_settings sample_env None sample_tick
      (sample_sess [sample_delivery]) = (s', 1)"
    using sample_run by (auto simp: worker_tick_def)
  moreover have "none_in_flight (s_db (sample_sess [sample_delivery]))"
    by (simp add: none_in_flight_def sample_delivery_def)
  ultimately show ?thesis
    using tick_none_in_flight [OF _ sample_ids] by blast
qed

text \<open>
  The audit trail: every delivery's attempt rows are numbered from 1 to its attempt count, in order.
\<close>

definition audited :: "db \<Rightarrow> bool" where
  "audited d \<longleftrightarrow> (\<forall>x \<in> set (deliveries d).
     0 \<le> dl_attempt_count x \<and> map at_number (attempts_of (dl_id x) d) = [1..dl_attempt_count x])"

lemma audited_find:
  "audited d \<Longrightarrow> find_delivery i d = Some x \<Longrightarrow>
     0 \<le> dl_attempt_count x \<and> map at_number (attempts_of i d) = [1..dl_attempt_count x]"
  using find_delivery_mem by (fastforce simp: audited_def)

lemma tick_audit:
  assumes "worker_tick fdec st env name io s = (s', n)"
    and "distinct (map dl_id (deliveries (s_db s)))" "audited (s_db s)"
  shows "audited (s_db s')
    \<and> (n = 0 \<or> (\<forall>x \<in> set (deliveries (s_db s)).
          length (attempts_of (dl_id x) (s_db s')) = length (attempts_of (dl_id x) (s_db s))
            + (if dl_id x \<in> dl_id ` set (tick_batch st io (s_db s)) then 1 else 0)))"
  using assms(1)
proof (cases rule: worker_tick_cases)
  case committed
  note ro = run_once_Inr [OF committed assms(2)]
  let ?c = "tick_batch st io (s_db s)"
  have row: "0 \<le> dl_attempt_count x' \<and> map at_number (attempts_of (dl_id x') (s_db s')) = [1..dl_attempt_count x']"
    if x': "x' \<in> set (deliveries (s_db s'))" for x'
  proof -
    have f: "find_delivery (dl_id x') (s_db s') = Some x'"
      using x' ro(2) assms(2) by (intro find_delivery_row) simp_all
    show ?thesis
    proof (cases "dl_id x' \<in> dl_id ` set ?c")
      case True
      then obtain x where x: "x \<in> set ?c" "dl_id x' = dl_id x"
        by auto
      obtain y where y: "find_delivery (dl_id x) (s_db s) = Some y" "dl_attempt_count y = dl_attempt_count x"
        using claim_rows_due [OF x(1)] assms(2)
        by (auto simp: recover_deliveries dest: find_delivery_row)
      then show ?thesis
        using ro(4) [OF x(1)] f x(2) audited_find [OF assms(3) y(1)]
        by (auto simp: settled_from_def upto_rec2)
    next
      case False
      then obtain y where "find_delivery (dl_id x') (s_db s) = Some y" "x' = recovered (tk_recover_now io) y"
        using run_once_other [OF committed assms(2) f] by blast
      then show ?thesis
        using ro(3) [OF False] audited_find [OF assms(3)] by simp
    qed
  qed
  moreover have "length (attempts_of i (s_db s')) = length (attempts_of i (s_db s))
      + (if i \<in> dl_id ` set ?c then 1 else 0)" for i
  proof (cases "i \<in> dl_id ` set ?c")
    case True
    then obtain y where "y \<in> set ?c" "i = dl_id y"
      by auto
    then show ?thesis
      using ro(4) [of y] by auto
  next
    case False
    then show ?thesis
      using ro(3) by simp
  qed
  ultimately show ?thesis
    by (simp add: audited_def)
next
  case rolled_back
  then show ?thesis
    using assms(3) by simp
qed

lemma tick_keeps_audited:
  assumes "worker_tick fdec st env name io s = (s', n)"
    and "distinct (map dl_id (deliveries (s_db s)))" "audited (s_db s)"
  shows "audited (s_db s')"
  using tick_audit [OF assms] by blast

text \<open>A tick keeps the audit trail complete: if every delivery's attempt rows are numbered 1 to its
  attempt count, they still are after the tick, and a committed tick has added exactly one attempt to
  each delivery it claimed and none to any other.\<close>

theorem tick_audited:
  assumes "worker_tick fdec st env name io s = (s', n)"
    and "distinct (map dl_id (deliveries (s_db s)))" "audited (s_db s)"
  shows "audited (s_db s')
    \<and> (n = 0 \<or> (\<forall>x \<in> set (deliveries (s_db s)).
          length (attempts_of (dl_id x) (s_db s')) = length (attempts_of (dl_id x) (s_db s))
            + (if dl_id x \<in> dl_id ` set (tick_batch st io (s_db s)) then 1 else 0)))"
  using tick_audit [OF assms] .

theorem tick_audited_witness:
  "\<exists>s'. worker_tick sample_dec default_settings sample_env None sample_tick (sample_sess [sample_delivery]) = (s', 1)
    \<and> audited (s_db s') \<and> length (attempts_of 6 (s_db s')) = 1"
proof -
  let ?s = "sample_sess [sample_delivery]"
  obtain s' where t: "worker_tick sample_dec default_settings sample_env None sample_tick ?s = (s', 1)"
    using sample_run by (auto simp: worker_tick_def)
  have a: "audited (s_db ?s)" "attempts_of 6 (s_db ?s) = []"
    by (simp_all add: audited_def sample_delivery_def attempts_of_def)
  have "recover_expired_leases 1000 (sample_db [sample_delivery]) = sample_db [sample_delivery]"
    by (simp add: recover_expired_leases_def lease_expired_def sample_db_def sample_delivery_def)
  then have "6 \<in> dl_id ` set (tick_batch default_settings sample_tick (s_db ?s))"
    by (simp add: claim_rows_def sample_tick_def due_def) (simp add: sample_delivery_def due_def)
  moreover have "dl_id sample_delivery = 6"
    by (simp add: sample_delivery_def)
  ultimately show ?thesis
    using tick_audited [OF t sample_ids a(1)] t a(2) by simp
qed

end
