(* ===== verification/Worker_Progress.thy ===== *)
theory Worker_Progress
  imports Worker_Tick
begin

text \<open>
  Progress of the queue: a committed tick takes its share of the due deliveries and no retry comes
  back before its backoff, so ticks drain the queue; a delivery whose secret does not decrypt rolls
  every batch it is claimed in back, and the queue stands still.
\<close>

section \<open>The backlog\<close>

definition due_ids :: "time \<Rightarrow> db \<Rightarrow> uuid set" where
  "due_ids now d = {i. \<exists>x. find_delivery i d = Some x \<and> due now x}"

definition backlog :: "time \<Rightarrow> db \<Rightarrow> nat" where
  "backlog now d = length (filter (due now) (deliveries d))"

lemma due_ids_rows:
  "distinct (map dl_id (deliveries d)) \<Longrightarrow> due_ids now d = dl_id ` set (filter (due now) (deliveries d))"
  using find_delivery_row find_delivery_mem by (fastforce simp: due_ids_def)

lemma backlog_card:
  assumes "distinct (map dl_id (deliveries d))"
  shows "backlog now d = card (due_ids now d)"
proof -
  have "distinct (map dl_id (filter (due now) (deliveries d)))"
    using assms by (rule distinct_map_filter)
  then show ?thesis
    unfolding due_ids_rows [OF assms] backlog_def set_map [symmetric]
    by (simp only: distinct_card length_map)
qed

lemma finite_due_ids: "distinct (map dl_id (deliveries d)) \<Longrightarrow> finite (due_ids now d)"
  by (simp add: due_ids_rows)

text \<open>The rows a sorted list holds up to a bound are taken first.\<close>

lemma filter_take_sorted:
  assumes "sorted (map f xs)"
  shows "filter (\<lambda>x. f x \<le> t) (take n xs) = take n (filter (\<lambda>x. f x \<le> t) xs)"
  using assms
proof (induction xs arbitrary: n)
  case (Cons x xs)
  show ?case
  proof (cases "f x \<le> t")
    case True
    then show ?thesis
      using Cons by (cases n) simp_all
  next
    case False
    then have none: "\<not> f y \<le> t" if "y \<in> set (x # xs)" for y
      using Cons.prems that by auto
    then have "filter (\<lambda>x. f x \<le> t) (x # xs) = []"
      by (simp add: filter_empty_conv)
    moreover have "filter (\<lambda>x. f x \<le> t) (take n (x # xs)) = []"
      using none by (auto simp: filter_empty_conv dest: in_set_takeD)
    ultimately show ?thesis
      by simp
  qed
qed simp

lemma claim_rows_due_early:
  assumes "now \<le> tk"
  shows "length (filter (due now) (claim_rows n (\<lambda>_. False) tk d)) = min n (backlog now d)"
proof -
  let ?s = "sort_key dl_next_attempt_at (filter (due tk) (deliveries d))"
  have eq: "filter (due now) ys = filter (\<lambda>x. dl_next_attempt_at x \<le> now) ys"
    if "set ys \<subseteq> Collect (due tk)" for ys
    using that by (intro filter_cong) (auto simp: due_def)
  have sub: "set ?s \<subseteq> Collect (due tk)"
    by auto
  then have sub_n: "set (take n ?s) \<subseteq> Collect (due tk)"
    by (blast dest: in_set_takeD)
  have "filter (due now) (take n ?s) = take n (filter (due now) ?s)"
    unfolding eq [OF sub] eq [OF sub_n] by (rule filter_take_sorted) simp
  moreover have "filter (due now) ?s = sort_key dl_next_attempt_at (filter (due now) (filter (due tk) (deliveries d)))"
    by (simp only: filter_sort_key_comm)
  moreover have "filter (due now) (filter (due tk) (deliveries d)) = filter (due now) (deliveries d)"
    using assms by (auto simp: due_def intro: filter_cong)
  ultimately show ?thesis
    by (simp add: claim_rows_def backlog_def min.commute)
qed

section \<open>A committed tick makes progress\<close>

text \<open>
  What keeps a retry out of the queue for a while: delays of a second or more, counted from an
  instant not before the bound.
\<close>

definition retries_later :: "settings \<Rightarrow> time \<Rightarrow> tick_io \<Rightarrow> bool" where
  "retries_later st now io \<longleftrightarrow>
     1 \<le> retry_base_seconds st \<and> 1 \<le> retry_cap_seconds st
     \<and> (\<forall>i. 0 \<le> io_random (tk_attempts io i) \<and> io_random (tk_attempts io i) \<le> 1
            \<and> now \<le> io_backoff_now (tk_attempts io i))"

lemma backoff_at_least_base:
  assumes "1 \<le> n" "1 \<le> base" "1 \<le> cap"
  shows "1 \<le> backoff_delay n base cap"
proof -
  have "(1 :: rat) \<le> power_int 2 (n - 1)"
    using assms(1) by (intro one_le_power_int) simp_all
  then have "1 * 1 \<le> base * power_int 2 (n - 1)"
    using assms(2) by (intro mult_mono) simp_all
  then show ?thesis
    using assms(3) by (simp add: backoff_delay_def)
qed

lemma settled_not_due:
  assumes "settled_from st (tk_attempts io i) x x'" "retries_later st now io" "0 \<le> dl_attempt_count x"
  shows "\<not> due now x'"
proof
  assume due: "due now x'"
  let ?n = "dl_attempt_count x + 1"
  have c: "compute_next_attempt_at ?n (retry_base_seconds st) (retry_cap_seconds st)
      (io_random (tk_attempts io i)) (io_backoff_now (tk_attempts io i)) = Inr (dl_next_attempt_at x')"
    using assms(1) due by (simp add: settled_from_def due_def)
  have "?n \<le> 1024"
    using c by (simp add: compute_next_attempt_at_def split: if_splits)
  moreover have "0 \<le> retry_base_seconds st" "0 \<le> retry_cap_seconds st"
    using assms(2) by (auto simp: retries_later_def)
  ultimately have "io_backoff_now (tk_attempts io i)
      + timedelta_seconds (backoff_delay ?n (retry_base_seconds st) (retry_cap_seconds st)) \<le> dl_next_attempt_at x'"
    using compute_next_attempt_at_Inr [of ?n "retry_base_seconds st" "retry_cap_seconds st"
        "io_random (tk_attempts io i)" "io_backoff_now (tk_attempts io i)"] assms(2) c
    by (auto simp: retries_later_def)
  moreover have "timedelta_seconds 1 \<le>
      timedelta_seconds (backoff_delay ?n (retry_base_seconds st) (retry_cap_seconds st))"
    using assms(2,3) by (intro timedelta_seconds_mono backoff_at_least_base) (auto simp: retries_later_def)
  moreover have "timedelta_seconds 1 = 1000000"
    using timedelta_seconds_int [of 1] by simp
  moreover have "now \<le> io_backoff_now (tk_attempts io i)"
    using assms(2) by (simp add: retries_later_def)
  ultimately show False
    using due by (simp add: due_def)
qed

lemma committed_backlog:
  assumes "run_once fdec st env name io s = (s', Inr n)"
    and dist: "distinct (map dl_id (deliveries (s_db s)))"
    and "none_in_flight (s_db s)" "audited (s_db s)"
    and "tk_locked io = (\<lambda>_. False)" "now \<le> tk_now io" "retries_later st now io"
  shows "backlog now (s_db s') = backlog now (s_db s) - nat (worker_batch_size st)"
proof -
  let ?c = "tick_batch st io (s_db s)" and ?d = "s_db s"
  note ro = run_once_Inr [OF assms(1) dist]
  have d0: "recover_expired_leases (tk_recover_now io) ?d = ?d"
    using assms(3) unfolding none_in_flight_def recover_expired_leases_def lease_expired_def
    by (simp add: map_idI)
  have c_rows: "x \<in> set (deliveries ?d) \<and> find_delivery (dl_id x) ?d = Some x" if "x \<in> set ?c" for x
    using claim_rows_due [OF that] find_delivery_row [OF dist] unfolding d0 by simp
  have dist': "distinct (map dl_id (deliveries (s_db s')))"
    using ro(2) dist by simp
  have "due_ids now (s_db s') = due_ids now ?d - dl_id ` set (filter (due now) ?c)"
  proof (intro set_eqI)
    fix i
    show "i \<in> due_ids now (s_db s') \<longleftrightarrow> i \<in> due_ids now ?d - dl_id ` set (filter (due now) ?c)"
    proof (cases "i \<in> dl_id ` set ?c")
      case True
      then obtain x where x: "x \<in> set ?c" "i = dl_id x"
        by auto
      have "0 \<le> dl_attempt_count x"
        using c_rows [OF x(1)] assms(4) by (simp add: audited_def)
      then have "i \<notin> due_ids now (s_db s')"
        using ro(4) [OF x(1)] settled_not_due [OF _ assms(7)] x(2) by (fastforce simp: due_ids_def)
      moreover have "i \<in> due_ids now ?d \<Longrightarrow> i \<in> dl_id ` set (filter (due now) ?c)"
        using c_rows [OF x(1)] x by (auto simp: due_ids_def)
      ultimately show ?thesis
        by blast
    next
      case False
      then have "find_delivery i (s_db s') = find_delivery i ?d"
        using ro(3) [OF False] d0 by simp
      then show ?thesis
        using False by (auto simp: due_ids_def)
    qed
  qed
  moreover have "dl_id ` set (filter (due now) ?c) \<subseteq> due_ids now ?d"
    using c_rows by (auto simp: due_ids_def)
  moreover have "card (dl_id ` set (filter (due now) ?c)) = length (filter (due now) ?c)"
  proof -
    have "distinct (map dl_id (filter (due now) ?c))"
      using dist by (intro distinct_map_filter claim_rows_distinct) simp
    then show ?thesis
      unfolding set_map [symmetric] by (simp only: distinct_card length_map)
  qed
  moreover have "length (filter (due now) ?c) = min (nat (worker_batch_size st)) (backlog now ?d)"
    unfolding assms(5) d0 using assms(6) by (rule claim_rows_due_early)
  ultimately show ?thesis
    using finite_due_ids [OF dist, of now] backlog_card [OF dist] backlog_card [OF dist']
    by (simp add: card_Diff_subset finite_subset min_def)
qed

section \<open>Runs of ticks\<close>

fun run_ticks ::
  "fernet_dec \<Rightarrow> settings \<Rightarrow> worker_env \<Rightarrow> string option \<Rightarrow> tick_io list \<Rightarrow> sess \<Rightarrow> sess" where
  "run_ticks fdec st env name [] s = s"
| "run_ticks fdec st env name (io # ios) s =
     run_ticks fdec st env name ios (fst (worker_tick fdec st env name io s))"

fun all_commit ::
  "fernet_dec \<Rightarrow> settings \<Rightarrow> worker_env \<Rightarrow> string option \<Rightarrow> tick_io list \<Rightarrow> sess \<Rightarrow> bool" where
  "all_commit fdec st env name [] s = True"
| "all_commit fdec st env name (io # ios) s =
     ((case snd (run_once fdec st env name io s) of Inl _ \<Rightarrow> False | Inr _ \<Rightarrow> True)
      \<and> all_commit fdec st env name ios (fst (worker_tick fdec st env name io s)))"

lemma worker_tick_commit: "run_once fdec st env name io s = (s', Inr n) \<Longrightarrow> worker_tick fdec st env name io s = (s', n)"
  by (simp add: worker_tick_def)

lemma tick_distinct:
  assumes "run_once fdec st env name io s = (s', Inr n)" "distinct (map dl_id (deliveries (s_db s)))"
  shows "distinct (map dl_id (deliveries (s_db s')))"
  using run_once_Inr(2) [OF assms] assms(2) by simp

text \<open>C7: The queue drains: while the ticks of a worker commit, with nothing locked by others and
  retries scheduled a second or more ahead, each tick takes a batch off the deliveries that are due at
  an instant, so enough ticks leave none of them due.\<close>

theorem queue_drains:
  assumes "all_commit fdec st env name ios s"
    and "distinct (map dl_id (deliveries (s_db s)))" "none_in_flight (s_db s)" "audited (s_db s)"
    and "\<forall>io \<in> set ios. tk_locked io = (\<lambda>_. False) \<and> now \<le> tk_now io \<and> retries_later st now io"
  shows "backlog now (s_db (run_ticks fdec st env name ios s))
    = backlog now (s_db s) - length ios * nat (worker_batch_size st)"
  using assms
proof (induction ios arbitrary: s)
  case (Cons io ios)
  obtain s1 n where r: "run_once fdec st env name io s = (s1, Inr n)"
    using Cons.prems(1) by (cases "run_once fdec st env name io s") (auto split: sum.splits)
  then have t: "worker_tick fdec st env name io s = (s1, n)"
    by (rule worker_tick_commit)
  have "backlog now (s_db s1) = backlog now (s_db s) - nat (worker_batch_size st)"
    using committed_backlog [OF r Cons.prems(2-4)] Cons.prems(5) by simp
  moreover have "backlog now (s_db (run_ticks fdec st env name ios s1))
      = backlog now (s_db s1) - length ios * nat (worker_batch_size st)"
    using Cons.IH [of s1] Cons.prems t tick_distinct [OF r Cons.prems(2)]
      tick_keeps_none_in_flight [OF t Cons.prems(2,3)] tick_keeps_audited [OF t Cons.prems(2,4)]
    by simp
  ultimately show ?case
    using t by simp
qed simp

theorem queue_drains_witness:
  "backlog 1000 (s_db (run_ticks sample_dec default_settings sample_env None [sample_tick]
      (sample_sess [sample_delivery]))) = 0"
proof -
  let ?s = "sample_sess [sample_delivery]"
  have "all_commit sample_dec default_settings sample_env None [sample_tick] ?s"
    using sample_run by auto
  moreover have "none_in_flight (s_db ?s)" "audited (s_db ?s)" "backlog 1000 (s_db ?s) = 1"
    by (simp_all add: none_in_flight_def audited_def backlog_def attempts_of_def sample_delivery_def due_def)
  moreover have "retries_later default_settings 1000 sample_tick"
    by (simp add: retries_later_def sample_tick_def sample_io_def)
  moreover have "tk_locked sample_tick = (\<lambda>_. False)" "1000 \<le> tk_now sample_tick"
    by (simp_all add: sample_tick_def)
  ultimately show ?thesis
    using queue_drains [of sample_dec default_settings sample_env None "[sample_tick]" ?s 1000] sample_ids by simp
qed

section \<open>A delivery that cannot be decrypted\<close>

definition undecryptable :: "fernet_dec \<Rightarrow> settings \<Rightarrow> db \<Rightarrow> delivery \<Rightarrow> bool" where
  "undecryptable fdec st d x \<longleftrightarrow>
     (\<exists>ep. find_endpoint (dl_endpoint x) d = Some ep \<and> fdec (endpoint_secret_key st) (ep_secret_enc ep) = None)"

lemma process_undecryptable:
  "undecryptable fdec st (s_db s) x \<Longrightarrow> process_delivery fdec st env x io name s = (s, Inl InvalidToken)"
  by (auto simp: undecryptable_def process_delivery_def decrypt_secret_def)

lemma process_keeps_endpoints:
  "process_delivery fdec st env x io name s = (s', Inr u) \<Longrightarrow> find_endpoint i (s_db s') = find_endpoint i (s_db s)"
  by (erule process_delivery_ok) (auto simp: recorded_keeps)

lemma process_all_undecryptable:
  assumes "x \<in> set xs" "undecryptable fdec st (s_db s) x"
  shows "\<exists>e. snd (process_all fdec st env name ios seen xs s) = Inl e"
  using assms
proof (induction xs arbitrary: seen s)
  case (Cons y ys)
  obtain s1 r1 where t: "throttle y seen s = (s1, r1)"
    by fastforce
  note db = throttle_db [OF t]
  show ?case
  proof (cases r1)
    case (Inl e)
    then show ?thesis
      using t by simp
  next
    case (Inr u)
    obtain s2 r2 where p: "process_delivery fdec st env y (ios (dl_id y)) name s1 = (s2, r2)"
      by fastforce
    show ?thesis
    proof (cases r2)
      case (Inl e)
      then show ?thesis
        using t Inr p by simp
    next
      case (Inr v)
      then have "y \<noteq> x"
        using p process_undecryptable Cons.prems(2) db by fastforce
      moreover have "undecryptable fdec st (s_db s2) x"
        using Cons.prems(2) process_keeps_endpoints [OF p [unfolded Inr]] db
        by (simp add: undecryptable_def)
      ultimately show ?thesis
        using Cons t p \<open>r1 = Inr u\<close> Inr by simp
    qed
  qed
qed simp

lemma undecryptable_stamp [simp]:
  "undecryptable fdec st d (stamp_claim l w t x) = undecryptable fdec st d x"
  by (simp add: undecryptable_def)

lemma run_once_undecryptable:
  assumes "x \<in> set (tick_batch st io (s_db s))" "undecryptable fdec st (s_db s) x"
  shows "\<exists>s' e. run_once fdec st env name io s = (s', Inl e)"
proof -
  let ?d0 = "recover_expired_leases (tk_recover_now io) (s_db s)"
  show ?thesis
  proof (cases "claim_due_deliveries st env None name (tk_locked io) (tk_now io) (tk_flush_now io) ?d0")
    case (Inl e)
    then show ?thesis
      by (simp add: run_once_def Let_def)
  next
    case (Inr cl)
    obtain rows d1 where cl: "cl = (rows, d1)"
      by fastforce
    let ?s1 = "s\<lparr>s_db := d1, s_counters := (s_counters s)
        \<lparr>cn_claimed := cn_claimed (s_counters s) + int (length rows)\<rparr>\<rparr>"
    let ?x = "claim_stamp st env name (tk_now io) (tk_flush_now io) x"
    have rows: "rows = map (claim_stamp st env name (tk_now io) (tk_flush_now io)) (tick_batch st io (s_db s))"
      and d1: "d1 = put_all rows ?d0"
      using claim_Inr [OF Inr [unfolded cl]] by auto
    have "?x \<in> set rows"
      using assms(1) by (simp add: rows)
    moreover have "undecryptable fdec st (s_db ?s1) ?x"
      using assms(2) by (simp add: d1 undecryptable_def)
    ultimately obtain e where "snd (process_all fdec st env name (tk_attempts io) [] rows ?s1) = Inl e"
      using process_all_undecryptable by blast
    then show ?thesis
      using Inr cl by (cases "process_all fdec st env name (tk_attempts io) [] rows ?s1")
        (simp add: run_once_def Let_def)
  qed
qed

text \<open>C11: One endpoint secret that no longer decrypts stops every batch it is part of: each tick that
  claims one of its deliveries rolls back and reports nothing processed, so through any number of such
  ticks the database stays exactly as it was and no delivery of those batches ever advances.\<close>

theorem undecryptable_stalls:
  assumes "undecryptable fdec st (s_db s) x"
    and "\<forall>io \<in> set ios. x \<in> set (tick_batch st io (s_db s))"
  shows "s_db (run_ticks fdec st env name ios s) = s_db s
    \<and> (\<forall>io \<in> set ios. snd (worker_tick fdec st env name io s) = 0)"
proof -
  have tick: "s_db (fst (worker_tick fdec st env name io t)) = s_db t \<and> snd (worker_tick fdec st env name io t) = 0"
    if "io \<in> set ios" "s_db t = s_db s" for io t
    using run_once_undecryptable [of x st io t fdec env name] assms that by (auto simp: worker_tick_def)
  have "s_db (run_ticks fdec st env name js t) = s_db s" if "set js \<subseteq> set ios" "s_db t = s_db s" for js t
    using that
  proof (induction js arbitrary: t)
    case (Cons j js)
    then show ?case
      using tick [of j t] by simp
  qed simp
  then show ?thesis
    using tick by blast
qed

theorem undecryptable_stalls_witness:
  "s_db (run_ticks sample_dec default_settings sample_env None [sample_tick, sample_tick]
      (sample_sess [sample_delivery, broken_delivery])) = sample_db [sample_delivery, broken_delivery]"
proof -
  let ?s = "sample_sess [sample_delivery, broken_delivery]"
  have "undecryptable sample_dec default_settings (s_db ?s) broken_delivery"
    by (simp add: undecryptable_def broken_delivery_def sample_delivery_def)
       (simp add: broken_endpoint_def sample_dec_def)
  moreover have "recover_expired_leases 1000 (s_db ?s) = s_db ?s"
    by (simp add: recover_expired_leases_def lease_expired_def sample_db_def sample_delivery_def broken_delivery_def)
  then have "broken_delivery \<in> set (tick_batch default_settings sample_tick (s_db ?s))"
    by (simp add: claim_rows_def sample_tick_def due_def broken_delivery_def sample_delivery_def)
  ultimately show ?thesis
    using undecryptable_stalls [of sample_dec default_settings ?s broken_delivery "[sample_tick, sample_tick]"
        sample_env None] by simp
qed

end
