(* ===== verification/Isoparse.thy ===== *)
theory Isoparse
  imports Datetime
begin

text \<open>
  \<^verbatim>\<open>datetime.fromisoformat\<close> of CPython 3.12, and the proof that it reads \<^verbatim>\<open>isoformat()\<close> back. A
  datetime with an offset is the instant it names, one without is its wall clock as microseconds.
\<close>

datatype datetime = Aware time | Naive time

section \<open>The calendar\<close>

definition days_in_month :: "bool \<Rightarrow> nat \<Rightarrow> int" where
  "days_in_month leap m =
     (if m = 2 then (if leap then 29 else 28) else if m \<in> {4, 6, 9, 11} then 30 else 31)"

definition date_ok :: "int \<times> nat \<times> int \<Rightarrow> bool" where
  "date_ok = (\<lambda>(y, m, d). 1 \<le> y \<and> y \<le> 9999 \<and> 1 \<le> m \<and> m \<le> 12 \<and> 1 \<le> d \<and> d \<le> days_in_month (is_leap y) m)"

text \<open>The Monday that starts ISO week 1 of a year, as a day number.\<close>

definition iso_week1_monday :: "int \<Rightarrow> int" where
  "iso_week1_monday y =
     (let first = ymd2ord (y, 1, 1); wd = (first + 6) mod 7; mon = first - wd
      in if 3 < wd then mon + 7 else mon)"

definition iso_week_date :: "int \<Rightarrow> int \<Rightarrow> int \<Rightarrow> (int \<times> nat \<times> int) option" where
  "iso_week_date y w d =
     (if y < 1 \<or> 9999 < y then None
      else let first = (ymd2ord (y, 1, 1) + 6) mod 7;
               long = (first = 3 \<or> (first = 2 \<and> is_leap y))
           in if \<not> (1 \<le> w \<and> (w \<le> 52 \<or> (w = 53 \<and> long))) \<or> d < 1 \<or> 7 < d then None
              else let n = iso_week1_monday y + (w - 1) * 7 + d - 1
                   in if n < 1 \<or> 3652059 < n then None else Some (ord2ymd n))"

section \<open>Parsing\<close>

text \<open>Exactly \<open>k\<close> digits.\<close>

definition digits :: "nat \<Rightarrow> string \<Rightarrow> nat option" where
  "digits k s = (if length s = k \<and> s \<noteq> [] \<and> list_all is_digit s then Some (digits_value s) else None)"

definition separator_pos :: "string \<Rightarrow> nat" where
  "separator_pos s =
     (let n = length s
      in if n = 7 then 7
         else if s ! 4 = CHR ''-'' then
           (if s ! 5 = CHR ''W'' then
              (if 8 < n \<and> s ! 8 = CHR ''-'' then (if 10 < n \<and> is_digit (s ! 10) then 8 else 10) else 8)
            else 10)
         else if s ! 4 = CHR ''W'' then
           (let run = 7 + length (takeWhile is_digit (drop 7 s))
            in if run < 9 then run else if even run then 7 else 8)
         else 8)"

definition parse_date :: "string \<Rightarrow> (int \<times> nat \<times> int) option" where
  "parse_date s =
     (case digits 4 (take 4 s) of
        None \<Rightarrow> None
      | Some y \<Rightarrow>
          (let sep = (take 1 (drop 4 s) = ''-'');
               r = (if sep then drop 5 s else drop 4 s)
           in if take 1 r = ''W'' then
                (case digits 2 (take 2 (drop 1 r)) of
                   None \<Rightarrow> None
                 | Some w \<Rightarrow>
                     (let t = drop 3 r
                      in if t = [] then iso_week_date (int y) (int w) 1
                         else if (take 1 t = ''-'') \<noteq> sep then None
                         else case digits 1 (if sep then drop 1 t else t) of
                             None \<Rightarrow> None
                           | Some d \<Rightarrow> iso_week_date (int y) (int w) (int d)))
              else
                (case digits 2 (take 2 r) of
                   None \<Rightarrow> None
                 | Some m \<Rightarrow>
                     (let t = drop 2 r
                      in if (take 1 t = ''-'') \<noteq> sep then None
                         else case digits 2 (if sep then drop 1 t else t) of
                             None \<Rightarrow> None
                           | Some d \<Rightarrow> Some (int y, m, int d)))))"

text \<open>The fraction after the seconds: six digits count, further digits are dropped.\<close>

definition parse_fraction :: "string \<Rightarrow> int option" where
  "parse_fraction s =
     (case s of
        [] \<Rightarrow> Some 0
      | c # f \<Rightarrow>
          if c \<notin> {CHR ''.'', CHR '',''} \<or> f = [] \<or> \<not> list_all is_digit f then None
          else Some (int (digits_value (take 6 f)) * 10 ^ (6 - min 6 (length f))))"

text \<open>\<^verbatim>\<open>HH[:MM[:SS[.ffffff]]]\<close>, with or without colons: hour, minute, second, microsecond.\<close>

definition parse_hms :: "string \<Rightarrow> (int \<times> int \<times> int \<times> int) option" where
  "parse_hms s =
     (case digits 2 (take 2 s) of
        None \<Rightarrow> None
      | Some h \<Rightarrow>
          (let t = drop 2 s; sep = (take 1 t = '':''); t' = (if sep then drop 1 t else t)
           in if t = [] then Some (int h, 0, 0, 0)
              else case digits 2 (take 2 t') of
                  None \<Rightarrow> None
                | Some m \<Rightarrow>
                    (let u = drop 2 t'; u' = (if sep then drop 1 u else u)
                     in if u = [] then Some (int h, int m, 0, 0)
                        else if sep \<and> take 1 u \<noteq> '':'' then None
                        else case digits 2 (take 2 u') of
                            None \<Rightarrow> None
                          | Some sec \<Rightarrow> map_option (\<lambda>f. (int h, int m, int sec, f)) (parse_fraction (drop 2 u')))))"

definition hms_us :: "int \<times> int \<times> int \<times> int \<Rightarrow> int" where
  "hms_us = (\<lambda>(h, m, s, f). ((h * 60 + m) * 60 + s) * 1000000 + f)"

definition time_ok :: "int \<times> int \<times> int \<times> int \<Rightarrow> bool" where
  "time_ok = (\<lambda>(h, m, s, f). h < 24 \<and> m < 60 \<and> s < 60)"

text \<open>The time after the separator: the wall clock and the offset, if one is given.\<close>

definition parse_time :: "string \<Rightarrow> (int \<times> int option) option" where
  "parse_time s =
     (let zone = (\<lambda>c. c \<in> {CHR ''+'', CHR ''-'', CHR ''Z''});
          t = takeWhile (\<lambda>c. \<not> zone c) s; z = dropWhile (\<lambda>c. \<not> zone c) s
      in case parse_hms t of
           None \<Rightarrow> None
         | Some hms \<Rightarrow>
             if \<not> time_ok hms then None
             else (case z of
                 [] \<Rightarrow> Some (hms_us hms, None)
               | c # r \<Rightarrow>
                   if c = CHR ''Z'' then (if r = [] then Some (hms_us hms, Some 0) else None)
                   else if length r \<in> {0, 1, 3} then None
                   else case parse_hms r of
                       None \<Rightarrow> None
                     | Some off \<Rightarrow>
                         if day_us \<le> hms_us off then None
                         else Some (hms_us hms, Some (if c = CHR ''-'' then - hms_us off else hms_us off))))"

definition fromisoformat :: "string \<Rightarrow> datetime option" where
  "fromisoformat s =
     (if length s < 7 then None
      else let p = separator_pos s
           in case parse_date (take p s) of
                None \<Rightarrow> None
              | Some ymd \<Rightarrow>
                  if \<not> date_ok ymd then None
                  else let day = (ymd2ord ymd - 719163) * day_us
                       in if drop p s = [] then Some (Naive day)
                          else case parse_time (drop (p + 1) s) of
                              None \<Rightarrow> None
                            | Some (us, None) \<Rightarrow> Some (Naive (day + us))
                            | Some (us, Some off) \<Rightarrow> Some (Aware (day + us - off)))"

section \<open>The calendar read back\<close>

lemma days_before_year_parts:
  fixes a b c d :: int
  assumes "0 \<le> b" "b \<le> 3" "0 \<le> c" "c \<le> 24" "0 \<le> d" "d \<le> 3"
  shows "days_before_year (400 * a + 100 * b + 4 * c + d + 1) = 146097 * a + 36524 * b + 1461 * c + 365 * d"
proof -
  let ?z = "400 * a + 100 * b + 4 * c + d"
  have "?z div 4 = 100 * a + 25 * b + c" "?z div 100 = 4 * a + b" "?z div 400 = a"
    using assms by (intro int_div_pos_eq [where r = d] int_div_pos_eq [where r = "4 * c + d"]
        int_div_pos_eq [where r = "100 * b + 4 * c + d"]; simp)+
  then show ?thesis
    by (simp add: days_before_year_def Let_def)
qed

lemma ymd2ord_parts:
  "ymd2ord (y, m, r - days_before_month (is_leap y) m + 1) = days_before_year y + r + 1"
  by (simp add: ymd2ord_def)

lemma is_leap_parts:
  fixes a b c :: int
  assumes "0 \<le> b" "b \<le> 3" "0 \<le> c" "c < 24"
  shows "is_leap (400 * a + 100 * b + 4 * c + 4)" and "is_leap (400 * a + 400)"
proof -
  have "(400 * a + 100 * b + 4 * c + 4) mod 4 = 0"
    by (intro int_mod_pos_eq [where q = "100 * a + 25 * b + c + 1"]) simp_all
  moreover have "(400 * a + 100 * b + 4 * c + 4) mod 100 = 4 * c + 4"
    using assms by (intro int_mod_pos_eq [where q = "4 * a + b"]) simp_all
  ultimately show "is_leap (400 * a + 100 * b + 4 * c + 4)"
    using assms by (simp add: is_leap_def)
  have "(400 * a + 400) mod 4 = 0"
    by (intro int_mod_pos_eq [where q = "100 * a + 100"]) simp_all
  moreover have "(400 * a + 400) mod 400 = 0"
    by (intro int_mod_pos_eq [where q = "a + 1"]) simp_all
  ultimately show "is_leap (400 * a + 400)"
    by (simp add: is_leap_def)
qed

lemma last_filter_sorted:
  assumes "sorted xs" "x \<in> set xs" "P x"
  shows "last (filter P xs) \<in> set xs" "P (last (filter P xs))"
    and "y \<in> set xs \<Longrightarrow> last (filter P xs) < y \<Longrightarrow> \<not> P y"
proof -
  have ne: "filter P xs \<noteq> []"
    using assms(2,3) by (auto simp: filter_empty_conv)
  then have "last (filter P xs) \<in> set (filter P xs)"
    by (rule last_in_set)
  then show "last (filter P xs) \<in> set xs" "P (last (filter P xs))"
    by auto
  have "z \<le> last (filter P xs)" if "z \<in> set (filter P xs)" for z
  proof -
    have "sorted (butlast (filter P xs) @ [last (filter P xs)])"
      using sorted_filter [of "\<lambda>x. x" xs P] assms(1) ne by simp
    moreover have "z \<in> set (butlast (filter P xs)) \<or> z = last (filter P xs)"
    proof -
      have "filter P xs = butlast (filter P xs) @ [last (filter P xs)]"
        using ne by simp
      then have "set (filter P xs) = set (butlast (filter P xs) @ [last (filter P xs)])"
        by (rule arg_cong)
      then show ?thesis
        using that by auto
    qed
    ultimately show ?thesis
      by (auto simp: sorted_append)
  qed
  then show "y \<in> set xs \<Longrightarrow> last (filter P xs) < y \<Longrightarrow> \<not> P y"
    by fastforce
qed

lemma month_of_day_bounds:
  assumes "0 \<le> r" "r < (if leap then 366 else 365)"
  defines "m \<equiv> month_of_day leap r"
  shows "1 \<le> m" "m \<le> 12" "days_before_month leap m \<le> r" "r - days_before_month leap m + 1 \<le> days_in_month leap m"
proof -
  have one: "1 \<in> set [1..<13]" "days_before_month leap 1 \<le> r"
    using assms(1) by (simp_all add: days_before_month_def)
  note l = last_filter_sorted [where P = "\<lambda>m. days_before_month leap m \<le> r", OF sorted_upt one]
  have m: "m \<in> {1..<13}" "days_before_month leap m \<le> r"
    using l(1,2) unfolding m_def month_of_day_def by simp_all
  then show "1 \<le> m" "m \<le> 12" "days_before_month leap m \<le> r"
    by auto
  have next_m: "r < days_before_month leap (Suc m)" if "m < 12"
    using l(3) [of "Suc m"] that m unfolding m_def month_of_day_def by fastforce
  have "m \<in> {1, 2, 3, 4, 5, 6, 7, 8, 9, 10, 11, 12}"
    using m(1) by (simp, arith)
  then show "r - days_before_month leap m + 1 \<le> days_in_month leap m"
    using next_m assms(2) by (elim insertE) (auto simp: days_before_month_def days_in_month_def)
qed

lemma ord2ymd_cases:
  obtains (year_end) y where "ord2ymd n = (y, 12, 31)" "is_leap y" "days_before_year y + 366 = n"
      "1 \<le> n \<longrightarrow> 1 \<le> y" "n \<le> 3652059 \<longrightarrow> y \<le> 9999"
  | (inside) y r where "ord2ymd n = (y, month_of_day (is_leap y) r,
        r - days_before_month (is_leap y) (month_of_day (is_leap y) r) + 1)"
      "0 \<le> r" "r < 365" "days_before_year y + r + 1 = n"
      "1 \<le> n \<longrightarrow> 1 \<le> y" "n \<le> 3652059 \<longrightarrow> y \<le> 9999"
proof -
  define a where "a = (n - 1) div 146097"
  define r400 where "r400 = (n - 1) mod 146097"
  define b where "b = r400 div 36524"
  define r100 where "r100 = r400 mod 36524"
  define c where "c = r100 div 1461"
  define r4 where "r4 = r100 mod 1461"
  define d where "d = r4 div 365"
  define r1 where "r1 = r4 mod 365"
  have n: "n = 146097 * a + r400 + 1"
    unfolding a_def r400_def using mult_div_mod_eq [of 146097 "n - 1"] by linarith
  have r400: "r400 = 36524 * b + r100"
    unfolding b_def r100_def using mult_div_mod_eq [of 36524 r400] by linarith
  have r100: "r100 = 1461 * c + r4"
    unfolding c_def r4_def using mult_div_mod_eq [of 1461 r100] by linarith
  have r4: "r4 = 365 * d + r1"
    unfolding d_def r1_def using mult_div_mod_eq [of 365 r4] by linarith
  have bd: "0 \<le> r400" "r400 < 146097" "0 \<le> r100" "r100 < 36524" "0 \<le> r4" "r4 < 1461" "0 \<le> r1" "r1 < 365"
    unfolding r400_def r100_def r4_def r1_def by simp_all
  have b: "0 \<le> b" "b \<le> 4" and c: "0 \<le> c" "c \<le> 24" and d: "0 \<le> d" "d \<le> 4"
    using bd r400 r100 r4 by linarith+
  have a0: "1 \<le> n \<longrightarrow> 0 \<le> a" and a24: "n \<le> 3652059 \<longrightarrow> a \<le> 24"
    using n bd by linarith+
  let ?y = "a * 400 + b * 100 + c * 4 + d + 1"
  have o: "ord2ymd n = (if d = 4 \<or> b = 4 then (?y - 1, 12, 31)
      else (?y, month_of_day (is_leap ?y) r1, r1 - days_before_month (is_leap ?y) (month_of_day (is_leap ?y) r1) + 1))"
    unfolding ord2ymd_def Let_def a_def [symmetric] r400_def [symmetric] b_def [symmetric]
      r100_def [symmetric] c_def [symmetric] r4_def [symmetric] d_def [symmetric] r1_def [symmetric] by simp
  have y: "?y = 400 * a + 100 * b + 4 * c + d + 1"
    by simp
  consider (leap4) "d = 4" "b \<noteq> 4" | (leap100) "b = 4" | (plain) "d \<noteq> 4" "b \<noteq> 4"
    by blast
  then show thesis
  proof cases
    case leap4
    have bc: "b \<le> 3" "c < 24" and r1: "r1 = 0"
      using leap4 bd r400 r100 r4 b by linarith+
    have "days_before_year (400 * a + 100 * b + 4 * c + 4) = 146097 * a + 36524 * b + 1461 * c + 1095"
      using days_before_year_parts [of b c 3 a] bc b c by (simp add: algebra_simps)
    moreover have "ord2ymd n = (400 * a + 100 * b + 4 * c + 4, 12, 31)"
      unfolding o using leap4 by simp
    moreover have "is_leap (400 * a + 100 * b + 4 * c + 4)"
      using is_leap_parts(1) b c bc by blast
    moreover have "1 \<le> n \<longrightarrow> 1 \<le> 400 * a + 100 * b + 4 * c + 4"
    proof
      assume "1 \<le> n"
      with a0 have "0 \<le> a" by blast
      then show "1 \<le> 400 * a + 100 * b + 4 * c + 4"
        using b c by linarith
    qed
    moreover have "n \<le> 3652059 \<longrightarrow> 400 * a + 100 * b + 4 * c + 4 \<le> 9999"
    proof
      assume "n \<le> 3652059"
      with a24 have "a \<le> 24" by blast
      then show "400 * a + 100 * b + 4 * c + 4 \<le> 9999"
        using bc by linarith
    qed
    ultimately show ?thesis
      using n r400 r100 r4 r1 leap4 by (intro year_end) (assumption | simp)+
  next
    case leap100
    have "r100 = 0"
      using leap100 bd r400 by linarith
    then have z: "c = 0" "d = 0" "r1 = 0" "r4 = 0"
      using bd r100 r4 c d by linarith+
    have "days_before_year (400 * a + 400) = 146097 * a + 145731"
      using days_before_year_parts [of 3 24 3 a] by (simp add: algebra_simps)
    moreover have "ord2ymd n = (400 * a + 400, 12, 31)"
      unfolding o using leap100 z by simp
    moreover have "is_leap (400 * a + 400)"
      using is_leap_parts(2) [of 0 0 a] by simp
    moreover have "n \<le> 3652059 \<longrightarrow> a \<le> 23"
      using leap100 n r400 r100 z by auto
    moreover have "1 \<le> n \<longrightarrow> 1 \<le> 400 * a + 400"
    proof
      assume "1 \<le> n"
      with a0 have "0 \<le> a" by blast
      then show "1 \<le> 400 * a + 400"
        using a0 by linarith
    qed
    ultimately show ?thesis
      using leap100 n r400 r100 r4 z by (intro year_end) (assumption | simp)+
  next
    case plain
    have "days_before_year ?y = 146097 * a + 36524 * b + 1461 * c + 365 * d"
      unfolding y using plain b c d by (intro days_before_year_parts) linarith+
    moreover have "b \<le> 3" "d \<le> 3"
      using plain b d by linarith+
    moreover have "1 \<le> n \<longrightarrow> 1 \<le> ?y"
    proof
      assume "1 \<le> n"
      with a0 have "0 \<le> a" by blast
      then show "1 \<le> ?y"
        using b c d by linarith
    qed
    moreover have "n \<le> 3652059 \<longrightarrow> ?y \<le> 9999"
    proof
      assume "n \<le> 3652059"
      then show "?y \<le> 9999"
        using a24 c n r400 r100 r4 bd \<open>b \<le> 3\<close> \<open>d \<le> 3\<close> by linarith
    qed
    moreover have "ord2ymd n = (?y, month_of_day (is_leap ?y) r1,
        r1 - days_before_month (is_leap ?y) (month_of_day (is_leap ?y) r1) + 1)"
      unfolding o using plain by simp
    ultimately show ?thesis
      using n r400 r100 r4 bd by (intro inside) (assumption | simp)+
  qed
qed

lemma ymd2ord_ord2ymd: "ymd2ord (ord2ymd n) = n"
  by (cases rule: ord2ymd_cases [of n]) (simp_all add: ymd2ord_def days_before_month_def)

lemma date_ok_ord2ymd:
  assumes "1 \<le> n" "n \<le> 3652059"
  shows "date_ok (ord2ymd n)"
proof (cases rule: ord2ymd_cases [of n])
  case (year_end y)
  then show ?thesis
    using assms by (simp add: date_ok_def days_in_month_def)
next
  case (inside y r)
  then show ?thesis
    using assms month_of_day_bounds [of r "is_leap y"] by (simp add: date_ok_def)
qed

section \<open>Fixed-width numbers\<close>

fun decimals :: "nat \<Rightarrow> nat \<Rightarrow> nat list" where
  "decimals 0 n = []"
| "decimals (Suc k) n = decimals k (n div 10) @ [n mod 10]"

definition padded :: "nat \<Rightarrow> int \<Rightarrow> string" where
  "padded k i = map digit (decimals k (nat i))"

lemma length_decimals [simp]: "length (decimals k n) = k"
  by (induction k arbitrary: n) auto

lemma decimals_lt: "d \<in> set (decimals k n) \<Longrightarrow> d < 10"
  by (induction k arbitrary: n) auto

lemma decimals_0: "decimals k 0 = replicate k 0"
  by (induction k) (simp_all add: replicate_append_same)

lemma digit_0: "CHR ''0'' = digit 0"
  by code_simp

lemma pad_show_nat:
  "n < 10 ^ k \<Longrightarrow> 0 < k \<Longrightarrow>
   replicate (k - length (show_nat n)) CHR ''0'' @ show_nat n = map digit (decimals k n)"
proof (induction k arbitrary: n)
  case (Suc k)
  show ?case
  proof (cases "n < 10")
    case True
    then show ?thesis
      by (simp add: show_nat.simps [of n] decimals_0 digit_0)
  next
    case False
    then have "0 < k" "n div 10 < 10 ^ k"
      using Suc.prems by (cases k; simp)+
    then show ?thesis
      using Suc.IH [of "n div 10"] False by (simp add: show_nat.simps [of n])
  qed
qed simp

lemma pad0_padded: "0 \<le> i \<Longrightarrow> i < 10 ^ k \<Longrightarrow> 0 < k \<Longrightarrow> pad0 k i = padded k i"
  using pad_show_nat [of "nat i" k] by (simp add: pad0_def padded_def show_int_def Let_def nat_less_iff)

lemma padded_digit: "c \<in> set (padded k i) \<Longrightarrow> is_digit c"
  using decimals_lt by (fastforce simp: padded_def)

lemma length_padded [simp]: "length (padded k i) = k"
  by (simp add: padded_def)

lemma digits_value_map: "\<forall>d \<in> set ds. d < 10 \<Longrightarrow> digits_value (map digit ds) = foldl (\<lambda>a d. 10 * a + d) 0 ds"
proof (induction ds rule: rev_induct)
  case (snoc d ds)
  then show ?case
    by (simp add: digits_value_def)
qed (simp add: digits_value_def)

lemma foldl_decimals: "foldl (\<lambda>a d. 10 * a + d) 0 (decimals k n) = n mod 10 ^ k"
  by (induction k arbitrary: n) (simp_all add: mod_mult2_eq)

lemma digits_value_padded: "0 \<le> i \<Longrightarrow> i < 10 ^ k \<Longrightarrow> digits_value (padded k i) = nat i"
  unfolding padded_def using decimals_lt
  by (subst digits_value_map) (blast, simp add: foldl_decimals nat_less_iff)

lemma digits_padded: "0 \<le> i \<Longrightarrow> i < 10 ^ k \<Longrightarrow> 0 < k \<Longrightarrow> digits k (padded k i) = Some (nat i)"
  using padded_digit length_padded [of k i] by (auto simp: digits_def digits_value_padded list_all_iff simp del: length_padded)

lemma padded_head: "0 < k \<Longrightarrow> \<exists>c r. padded k i = c # r \<and> is_digit c"
proof (cases "padded k i")
  case Nil
  then show "0 < k \<Longrightarrow> ?thesis"
    using length_padded [of k i] by simp
next
  case (Cons c r)
  then show ?thesis
    using padded_digit [of c k i] by simp
qed

section \<open>Parsing a printed date and time\<close>

lemma not_digit_chars:
  "\<not> is_digit CHR ''-''" "\<not> is_digit CHR ''W''" "\<not> is_digit CHR '':''" "\<not> is_digit CHR ''+''"
  "\<not> is_digit CHR ''Z''" "\<not> is_digit CHR ''T''" "\<not> is_digit CHR ''.''" "\<not> is_digit CHR '',''"
  by (simp_all add: is_digit_def code_def)

lemma parse_date_padded:
  assumes "0 \<le> y" "y < 10000" "m < 100" "0 \<le> d" "d < 100"
  shows "parse_date (padded 4 y @ ''-'' @ padded 2 (int m) @ ''-'' @ padded 2 d) = Some (y, m, d)"
proof -
  obtain c r where h: "padded 2 (int m) = c # r" "is_digit c"
    using padded_head [of 2 "int m"] by auto
  then have "c \<noteq> CHR ''W''"
    using not_digit_chars by auto
  then have w: "take 1 (padded 2 (int m) @ t) \<noteq> ''W''" for t
    using h by simp
  have "digits 4 (padded 4 y) = Some (nat y)" "digits 2 (padded 2 (int m)) = Some m" "digits 2 (padded 2 d) = Some (nat d)"
    using assms by (simp_all add: digits_padded)
  then show ?thesis
    using assms w by (simp add: parse_date_def Let_def)
qed

lemma parse_hms_padded:
  assumes "0 \<le> h" "h < 100" "0 \<le> m" "m < 100" "0 \<le> s" "s < 100" "0 \<le> us" "us < 1000000"
    and "f = (if us = 0 then [] else ''.'' @ padded 6 us)"
  shows "parse_hms (padded 2 h @ '':'' @ padded 2 m @ '':'' @ padded 2 s @ f) = Some (h, m, s, us)"
proof -
  have d: "digits 2 (padded 2 h) = Some (nat h)" "digits 2 (padded 2 m) = Some (nat m)"
    "digits 2 (padded 2 s) = Some (nat s)"
    using assms by (simp_all add: digits_padded)
  have "parse_fraction f = Some us"
  proof (cases "us = 0")
    case False
    have "padded 6 us \<noteq> []"
      using length_padded [of 6 us] by (metis list.size(3) zero_neq_numeral)
    moreover have "list_all is_digit (padded 6 us)"
      using padded_digit by (auto simp: list_all_iff)
    ultimately show ?thesis
      using False assms by (simp add: parse_fraction_def digits_value_padded)
  qed (simp add: assms(9) parse_fraction_def)
  then show ?thesis
    using assms d by (simp add: parse_hms_def Let_def)
qed

lemma time_chars:
  assumes "c \<in> set (padded 2 h @ '':'' @ padded 2 m @ '':'' @ padded 2 s @ (if us = 0 then [] else ''.'' @ padded 6 us))"
  shows "c \<notin> {CHR ''+'', CHR ''-'', CHR ''Z''}"
proof -
  have "is_digit c \<or> c = CHR '':'' \<or> c = CHR ''.''"
    using assms padded_digit by (auto split: if_splits)
  then show ?thesis
    using not_digit_chars by auto
qed

lemma parse_time_padded:
  assumes "0 \<le> h" "h < 24" "0 \<le> m" "m < 60" "0 \<le> s" "s < 60" "0 \<le> us" "us < 1000000"
    and "t = padded 2 h @ '':'' @ padded 2 m @ '':'' @ padded 2 s @ (if us = 0 then [] else ''.'' @ padded 6 us)"
  shows "parse_time (t @ ''+00:00'') = Some (((h * 60 + m) * 60 + s) * 1000000 + us, Some 0)"
proof -
  have z: "\<forall>c \<in> set t. c \<notin> {CHR ''+'', CHR ''-'', CHR ''Z''}"
    using time_chars unfolding assms(9) by blast
  have "parse_hms t = Some (h, m, s, us)"
    unfolding assms(9) using assms by (intro parse_hms_padded) simp_all
  moreover have "parse_hms ''00:00'' = Some (0, 0, 0, 0)"
    by (simp add: parse_hms_def digits_def is_digit_def code_def digits_value_def Let_def)
  ultimately show ?thesis
    using z assms(1-8)
    by (simp add: parse_time_def takeWhile_append dropWhile_append time_ok_def hms_us_def day_us_def Let_def)
qed

lemma isoformat_shape:
  assumes "date_ok (ord2ymd (t div day_us + 719163))"
  shows "\<exists>y m d h mi s us. ord2ymd (t div day_us + 719163) = (y, m, d)
     \<and> 0 \<le> h \<and> h < 24 \<and> 0 \<le> mi \<and> mi < 60 \<and> 0 \<le> s \<and> s < 60 \<and> 0 \<le> us \<and> us < 1000000
     \<and> t mod day_us = ((h * 60 + mi) * 60 + s) * 1000000 + us
     \<and> isoformat t = padded 4 y @ ''-'' @ padded 2 (int m) @ ''-'' @ padded 2 d @ ''T''
         @ (padded 2 h @ '':'' @ padded 2 mi @ '':'' @ padded 2 s @ (if us = 0 then [] else ''.'' @ padded 6 us))
         @ ''+00:00''"
proof -
  obtain y m d where ymd: "ord2ymd (t div day_us + 719163) = (y, m, d)"
    by (cases "ord2ymd (t div day_us + 719163)")
  define X where "X = t mod day_us"
  define us where "us = X mod 1000000"
  define A where "A = X div 1000000"
  define s where "s = A mod 60"
  define B where "B = A div 60"
  define mi where "mi = B mod 60"
  define h where "h = B div 60"
  have x: "0 \<le> X" "X < 86400000000"
    by (simp_all add: X_def day_us_def)
  have parts: "X = 1000000 * A + us" "A = 60 * B + s" "B = 60 * h + mi"
    by (simp_all add: us_def A_def s_def B_def mi_def h_def)
  have bounds: "0 \<le> us" "us < 1000000" "0 \<le> s" "s < 60" "0 \<le> mi" "mi < 60"
    by (simp_all add: us_def s_def mi_def)
  have eq: "X = ((h * 60 + mi) * 60 + s) * 1000000 + us"
    using parts by simp
  have hb: "0 \<le> h" "h < 24"
    using parts bounds x by linarith+
  have B: "X div 60000000 = B" "X div 3600000000 = h"
    by (simp_all add: A_def B_def h_def zdiv_zmult2_eq [symmetric])
  have "1 \<le> y" "y \<le> 9999" "1 \<le> m" "m \<le> 12" "1 \<le> d" "d \<le> 31"
    using assms unfolding ymd by (auto simp: date_ok_def days_in_month_def split: if_splits)
  then have "isoformat t = padded 4 y @ ''-'' @ padded 2 (int m) @ ''-'' @ padded 2 d @ ''T''
      @ (padded 2 h @ '':'' @ padded 2 mi @ '':'' @ padded 2 s @ (if us = 0 then [] else ''.'' @ padded 6 us))
      @ ''+00:00''"
    using bounds hb unfolding isoformat_def ymd Let_def X_def [symmetric] B A_def [symmetric] us_def [symmetric]
      s_def [symmetric] mi_def [symmetric] by (simp add: pad0_padded)
  then show ?thesis
    using ymd eq bounds hb unfolding X_def [symmetric] by blast
qed

text \<open>The years \<^verbatim>\<open>datetime\<close> covers.\<close>

definition time_in_range :: "time \<Rightarrow> bool" where
  "time_in_range t \<longleftrightarrow> - 719162 * day_us \<le> t \<and> t < 2932897 * day_us"

lemma date_ok_in_range:
  assumes "time_in_range t"
  shows "date_ok (ord2ymd (t div day_us + 719163))"
proof -
  have "t = 86400000000 * (t div day_us) + t mod day_us" "0 \<le> t mod day_us" "t mod day_us < 86400000000"
    using mult_div_mod_eq [of day_us t] by (simp_all add: day_us_def)
  then have "1 \<le> t div day_us + 719163" "t div day_us + 719163 \<le> 3652059"
    using assms unfolding time_in_range_def day_us_def by linarith+
  then show ?thesis
    by (rule date_ok_ord2ymd)
qed

lemma fromisoformat_isoformat:
  assumes "time_in_range t"
  shows "fromisoformat (isoformat t) = Some (Aware t)"
proof -
  let ?n = "t div day_us + 719163"
  have ok: "date_ok (ord2ymd ?n)"
    using assms by (rule date_ok_in_range)
  obtain y m d h mi s us where ymd: "ord2ymd ?n = (y, m, d)"
    and b: "0 \<le> h" "h < 24" "0 \<le> mi" "mi < 60" "0 \<le> s" "s < 60" "0 \<le> us" "us < 1000000"
    and x: "t mod day_us = ((h * 60 + mi) * 60 + s) * 1000000 + us"
    and iso: "isoformat t = padded 4 y @ ''-'' @ padded 2 (int m) @ ''-'' @ padded 2 d @ ''T''
         @ (padded 2 h @ '':'' @ padded 2 mi @ '':'' @ padded 2 s @ (if us = 0 then [] else ''.'' @ padded 6 us))
         @ ''+00:00''"
    using isoformat_shape [OF ok] by blast
  let ?date = "padded 4 y @ ''-'' @ padded 2 (int m) @ ''-'' @ padded 2 d"
  let ?time = "padded 2 h @ '':'' @ padded 2 mi @ '':'' @ padded 2 s @ (if us = 0 then [] else ''.'' @ padded 6 us)"
  have iso': "isoformat t = ?date @ CHR ''T'' # (?time @ ''+00:00'')"
    by (simp add: iso)
  obtain c r where h: "padded 2 (int m) = c # r" "is_digit c"
    using padded_head [of 2 "int m"] by auto
  then have "c \<noteq> CHR ''W''"
    using not_digit_chars by auto
  moreover have len: "length (isoformat t) = 17 + length ?time" "length ?date = 10"
    by (simp_all add: iso')
  moreover have "isoformat t ! 4 = CHR ''-''"
    by (simp add: iso' nth_append)
  moreover have "isoformat t ! 5 = c"
    by (simp add: iso' nth_append h)
  ultimately have p: "separator_pos (isoformat t) = 10"
    by (simp add: separator_pos_def Let_def)
  have "take 10 (isoformat t) = ?date" "drop 10 (isoformat t) = CHR ''T'' # (?time @ ''+00:00'')"
    "drop 11 (isoformat t) = ?time @ ''+00:00''"
    using len(2) unfolding iso' by simp_all
  moreover have "parse_date ?date = Some (y, m, d)"
    using ok unfolding ymd
    by (intro parse_date_padded) (auto simp: date_ok_def days_in_month_def split: if_splits)
  moreover have "parse_time (?time @ ''+00:00'') = Some (t mod day_us, Some 0)"
    unfolding x using b by (intro parse_time_padded) simp_all
  moreover have "ymd2ord (y, m, d) = ?n"
    using ymd2ord_ord2ymd [of ?n] ymd by simp
  moreover have "(?n - 719163) * day_us + t mod day_us = t"
    by simp
  ultimately show ?thesis
    using ok ymd len by (simp add: fromisoformat_def p Let_def)
qed

end
