(* ===== verification/Pagination.thy ===== *)
theory Pagination
  imports Models Isoparse Base64 Uuids "HOL-Library.Product_Lexorder"
begin

text \<open>
  Keyset pagination (\<^verbatim>\<open>app/routers/_pagination.py\<close> and the paging block every list route repeats):
  the cursor codec, one page, and a client that follows \<^verbatim>\<open>next_cursor\<close> until it is null, as
  \<^verbatim>\<open>benchmark/runner.py\<close> does. A row's place is its pair (created at, id) in lexicographic order.
\<close>

section \<open>Cursors\<close>

definition encode_cursor :: "time \<Rightarrow> uuid \<Rightarrow> string" where
  "encode_cursor created_at row_id =
     (let raw = isoformat created_at @ ''|'' @ show_uuid row_id
      in urlsafe_b64encode (map code raw))"

definition invalid_cursor :: py_exc where
  "invalid_cursor = HTTPException 422 ''Invalid cursor''"

text \<open>
  Every exception of the block becomes 422: bytes that are not base64, a text without a bar, a date
  or UUID that does not parse. Only ASCII bytes can decode to a text with a valid date and UUID.
\<close>

definition decode_cursor :: "string \<Rightarrow> py_exc + datetime \<times> uuid" where
  "decode_cursor cursor =
     (case urlsafe_b64decode cursor of
        None \<Rightarrow> Inl invalid_cursor
      | Some raw \<Rightarrow>
          if \<not> list_all (\<lambda>n. n < 128) raw then Inl invalid_cursor
          else (case partition_on CHR ''|'' (map char_of raw) of (created_at_str, found, id_str) \<Rightarrow>
            if \<not> found then Inl invalid_cursor
            else case (fromisoformat created_at_str, parse_uuid id_str) of
                (Some t, Some i) \<Rightarrow> Inr (t, i)
              | _ \<Rightarrow> Inl invalid_cursor))"

text \<open>PostgreSQL compares a naive datetime as one in the session's time zone (\<open>tz\<close> east of UTC).\<close>

definition instant :: "int \<Rightarrow> datetime \<Rightarrow> time" where
  "instant tz dt = (case dt of Aware t \<Rightarrow> t | Naive w \<Rightarrow> w - tz)"

section \<open>One page\<close>

type_synonym place = "time \<times> uuid"

text \<open>The cursor filter: \<^verbatim>\<open>created_at < c or (created_at = c and id < i)\<close>.\<close>

definition after_cursor :: "('r \<Rightarrow> place) \<Rightarrow> place \<Rightarrow> 'r \<Rightarrow> bool" where
  "after_cursor place c r \<longleftrightarrow>
     fst (place r) < fst c \<or> (fst (place r) = fst c \<and> snd (place r) < snd c)"

text \<open>\<^verbatim>\<open>order_by(created_at.desc(), id.desc())\<close>.\<close>

definition newest_first :: "('r \<Rightarrow> place) \<Rightarrow> 'r list \<Rightarrow> 'r list" where
  "newest_first place rs = rev (sort_key place rs)"

text \<open>
  The rest of a list route: the rows that match its filters, past the cursor, newest first, one more
  than the limit to know whether a page follows.
\<close>

definition page_of :: "('r \<Rightarrow> place) \<Rightarrow> nat \<Rightarrow> place option \<Rightarrow> 'r list \<Rightarrow> 'r list \<times> string option" where
  "page_of place limit cursor matching =
     (let stmt = (case cursor of None \<Rightarrow> matching | Some c \<Rightarrow> filter (after_cursor place c) matching);
          rows = take (limit + 1) (newest_first place stmt);
          has_next = limit < length rows;
          page = take limit rows
      in (page, if has_next \<and> page \<noteq> []
                then Some (encode_cursor (fst (place (last page))) (snd (place (last page)))) else None))"

definition decode_option :: "int \<Rightarrow> string option \<Rightarrow> py_exc + place option" where
  "decode_option tz cursor =
     (case cursor of
        None \<Rightarrow> Inr None
      | Some c \<Rightarrow> bind_exc (decode_cursor c) (\<lambda>(t, i). Inr (Some (instant tz t, i))))"

definition list_page :: "('r \<Rightarrow> place) \<Rightarrow> int \<Rightarrow> nat \<Rightarrow> string option \<Rightarrow> 'r list \<Rightarrow> py_exc + 'r list \<times> string option" where
  "list_page place tz limit cursor matching =
     bind_exc (decode_option tz cursor) (\<lambda>c. Inr (page_of place limit c matching))"

section \<open>The cursor codec\<close>

lemma padded_chars: "c \<in> set (padded k i) \<Longrightarrow> code c < 128 \<and> c \<noteq> CHR ''|''"
  using padded_digit [of c k i] by (auto simp: is_digit_def code_def)

lemma isoformat_chars:
  assumes "time_in_range t" "c \<in> set (isoformat t)"
  shows "code c < 128 \<and> c \<noteq> CHR ''|''"
proof -
  obtain y m d h mi s us where "isoformat t = padded 4 y @ ''-'' @ padded 2 (int m) @ ''-'' @ padded 2 d @ ''T''
         @ (padded 2 h @ '':'' @ padded 2 mi @ '':'' @ padded 2 s @ (if us = 0 then [] else ''.'' @ padded 6 us))
         @ ''+00:00''"
    using isoformat_shape [OF date_ok_in_range [OF assms(1)]] by blast
  then have "c \<in> set (padded 4 y) \<or> c \<in> set (padded 2 (int m)) \<or> c \<in> set (padded 2 d) \<or> c \<in> set (padded 2 h)
    \<or> c \<in> set (padded 2 mi) \<or> c \<in> set (padded 2 s) \<or> c \<in> set (padded 6 us) \<or> c \<in> set ''-T:.+0''"
    using assms(2) by (auto split: if_splits)
  then show ?thesis
    using padded_chars by (auto simp: code_def)
qed

lemma show_uuid_ascii: "c \<in> set (show_uuid u) \<Longrightarrow> code c < 128"
proof -
  assume "c \<in> set (show_uuid u)"
  then consider "c \<in> set (uuid_hex u)" | "c = CHR ''-''"
    using show_uuid_chars by blast
  then show ?thesis
  proof cases
    case 1
    then obtain d where "d < 16" "c = hex_digit d"
      using nibbles_lt by (auto simp: uuid_hex_def)
    then show ?thesis
      by (simp add: hex_digit_def code_def of_char_of)
  qed (simp add: code_def)
qed

lemma decode_encode:
  assumes "time_in_range t"
  shows "decode_cursor (encode_cursor t u) = Inr (Aware t, u)"
proof -
  let ?raw = "isoformat t @ ''|'' @ show_uuid u"
  have ascii: "\<forall>c \<in> set ?raw. code c < 128"
    using isoformat_chars [OF assms] show_uuid_ascii by (auto simp: code_def)
  have "\<forall>x \<in> set (map code ?raw). x < 256"
    unfolding set_map using ascii by fastforce
  then have "urlsafe_b64decode (urlsafe_b64encode (map code ?raw)) = Some (map code ?raw)"
    by (rule b64_roundtrip)
  moreover have "list_all (\<lambda>n. n < 128) (map code ?raw)"
    using ascii by (auto simp: list_all_iff)
  moreover have "map char_of (map code ?raw) = ?raw"
    unfolding map_map by (rule map_idI) (simp add: code_def)
  moreover have "partition_on CHR ''|'' ?raw = (isoformat t, True, show_uuid u)"
    using partition_on_append [of "CHR ''|''" "isoformat t" "show_uuid u"] isoformat_chars [OF assms] by auto
  ultimately show ?thesis
    using fromisoformat_isoformat [OF assms] parse_show_uuid [of u]
    by (simp add: decode_cursor_def encode_cursor_def Let_def del: map_append)
qed

section \<open>The order of the pages\<close>

lemma after_cursor_less: "after_cursor place c r \<longleftrightarrow> place r < c"
  by (auto simp: after_cursor_def less_prod_def)

lemma newest_first_simps [simp]:
  "length (newest_first place rs) = length rs" "set (newest_first place rs) = set rs"
  by (simp_all add: newest_first_def)

lemma filter_newest_first: "newest_first place (filter P rs) = filter P (newest_first place rs)"
  by (simp add: newest_first_def rev_filter [symmetric] filter_sort)

lemma newest_first_sorted:
  assumes "distinct (map place rs)"
  shows "sorted_wrt (\<lambda>a b. place b < place a) (newest_first place rs)"
proof -
  have "sorted_wrt (<) (map place (sort_key place rs))"
    using assms by (simp add: strict_sorted_iff distinct_map)
  then show ?thesis
    by (simp add: newest_first_def sorted_wrt_rev sorted_wrt_map)
qed

text \<open>In a descending list the rows past a cursor are what follows the rows at or before it.\<close>

lemma filter_after:
  assumes "sorted_wrt (\<lambda>a b. place b \<le> place a) xs"
  shows "filter (after_cursor place c) xs = drop (length (filter (\<lambda>r. c \<le> place r) xs)) xs"
  using assms
proof (induction xs)
  case (Cons x xs)
  show ?case
  proof (cases "c \<le> place x")
    case True
    then show ?thesis
      using Cons by (simp add: after_cursor_less leD)
  next
    case False
    then have "\<forall>r \<in> set (x # xs). place r < c"
      using Cons.prems by auto
    then have "filter (after_cursor place c) (x # xs) = x # xs" "filter (\<lambda>r. c \<le> place r) (x # xs) = []"
      by (auto simp: after_cursor_less filter_id_conv filter_empty_conv)
    then show ?thesis
      by simp
  qed
qed simp

lemma newest_first_le: "sorted_wrt (\<lambda>a b. place b \<le> place a) (newest_first place rs)"
proof -
  have "sorted_wrt (\<le>) (map place (sort_key place rs))"
    by simp
  then show ?thesis
    by (simp add: newest_first_def sorted_wrt_rev sorted_wrt_map)
qed

text \<open>A page cut off the front of what remains of the list.\<close>

definition cut :: "('r \<Rightarrow> place) \<Rightarrow> nat \<Rightarrow> 'r list \<Rightarrow> 'r list \<times> string option" where
  "cut place n rest = (take n rest, if n < length rest \<and> 0 < n
     then Some (encode_cursor (fst (place (rest ! (n - 1)))) (snd (place (rest ! (n - 1))))) else None)"

lemma page_cut:
  "(let rows = take (n + 1) rest; page = take n rows
    in (page, if n < length rows \<and> page \<noteq> []
              then Some (encode_cursor (fst (place (last page))) (snd (place (last page)))) else None)) = cut place n rest"
proof -
  have "last (take n rest) = rest ! (n - 1)" if "n < length rest" "0 < n"
  proof -
    have "take n rest \<noteq> []"
      using that by auto
    then show ?thesis
      using that by (simp add: last_conv_nth)
  qed
  then show ?thesis
    by (auto simp: cut_def Let_def min_def)
qed

lemma page_of_cut:
  "page_of place n c rs = cut place n (newest_first place
     (case c of None \<Rightarrow> rs | Some p \<Rightarrow> filter (after_cursor place p) rs))"
  unfolding page_of_def using page_cut by (simp only: Let_def)

lemma page_first: "page_of place n None rs = cut place n (newest_first place rs)"
  by (simp add: page_of_cut)

definition cursor_position :: "('r \<Rightarrow> place) \<Rightarrow> 'r list \<Rightarrow> place \<Rightarrow> nat" where
  "cursor_position place rs c = length (filter (\<lambda>r. c \<le> place r) rs)"

lemma cursor_position_newest: "length (filter (\<lambda>r. c \<le> place r) (newest_first place rs)) = cursor_position place rs c"
  unfolding filter_newest_first [symmetric] by (simp add: cursor_position_def)

lemma page_next:
  "page_of place n (Some c) rs = cut place n (drop (cursor_position place rs c) (newest_first place rs))"
  unfolding page_of_cut option.case filter_newest_first filter_after [OF newest_first_le] cursor_position_newest ..

text \<open>The cursor of the k-th row stands for the position after it.\<close>

lemma position_of_row:
  assumes "distinct (map place rs)" "0 < k" "k \<le> length rs"
  shows "cursor_position place rs (place (newest_first place rs ! (k - 1))) = k"
proof -
  let ?L = "newest_first place rs"
  let ?c = "place (?L ! (k - 1))"
  have L: "?L = take (k - 1) ?L @ ?L ! (k - 1) # drop k ?L"
    using id_take_nth_drop [of "k - 1" ?L] assms(2,3) by simp
  have s: "sorted_wrt (\<lambda>a b. place b < place a) (take (k - 1) ?L @ ?L ! (k - 1) # drop k ?L)"
    using newest_first_sorted [OF assms(1)] L by simp
  have f: "filter (\<lambda>r. ?c \<le> place r) (take (k - 1) ?L @ ?L ! (k - 1) # drop k ?L) = take (k - 1) ?L @ [?L ! (k - 1)]"
    using s by (auto simp: sorted_wrt_append filter_id_conv filter_empty_conv less_imp_le not_le)
  have "filter (\<lambda>r. ?c \<le> place r) ?L = take (k - 1) ?L @ [?L ! (k - 1)]"
    using arg_cong [OF L, of "filter (\<lambda>r. ?c \<le> place r)"] f by (rule trans)
  then have "length (filter (\<lambda>r. ?c \<le> place r) ?L) = k"
    using assms(2,3) by simp
  then show ?thesis
    by (simp add: cursor_position_newest)
qed

section \<open>Following the cursors\<close>

text \<open>
  The client's loop: ask with the cursor until no next cursor comes back (an empty one counts as
  none). The fuel bounds the number of requests; None stands for a loop that needs more.
\<close>

fun fetch_all :: "nat \<Rightarrow> (string option \<Rightarrow> 'e + 'r list \<times> string option) \<Rightarrow> string option \<Rightarrow> ('e + 'r list) option" where
  "fetch_all 0 get cursor = None"
| "fetch_all (Suc fuel) get cursor =
     (case get cursor of
        Inl e \<Rightarrow> Some (Inl e)
      | Inr (items, next_cursor) \<Rightarrow>
          if \<not> (case next_cursor of None \<Rightarrow> False | Some c \<Rightarrow> c \<noteq> []) then Some (Inr items)
          else (case fetch_all fuel get next_cursor of
              None \<Rightarrow> None
            | Some (Inl e) \<Rightarrow> Some (Inl e)
            | Some (Inr others) \<Rightarrow> Some (Inr (items @ others))))"

text \<open>
  What a client relies on, for every list of rows the server can page: the rows have one fixed order,
  a request without a cursor gets the first of them, and a cursor that a page handed out stands for
  the position after that page.
\<close>

locale paged =
  fixes pageable :: "'r list \<Rightarrow> bool"
    and listing :: "'r list \<Rightarrow> 'r list"
    and get :: "'r list \<Rightarrow> nat \<Rightarrow> string option \<Rightarrow> 'e + 'r list \<times> string option"
    and position :: "'r list \<Rightarrow> string \<Rightarrow> nat"
  assumes get_first: "pageable rs \<Longrightarrow> 0 < n \<Longrightarrow> \<exists>c. get rs n None = Inr (take n (listing rs), c)
        \<and> (c = None \<longleftrightarrow> length (listing rs) \<le> n)
        \<and> (\<forall>x. c = Some x \<longrightarrow> x \<noteq> [] \<and> position rs x = n)"
    and get_next: "pageable rs \<Longrightarrow> 0 < n \<Longrightarrow> position rs x = k \<Longrightarrow> 0 < k \<Longrightarrow> k < length (listing rs) \<Longrightarrow>
        \<exists>c. get rs n (Some x) = Inr (take n (drop k (listing rs)), c)
        \<and> (c = None \<longleftrightarrow> length (listing rs) \<le> k + n)
        \<and> (\<forall>y. c = Some y \<longrightarrow> y \<noteq> [] \<and> position rs y = k + n)"
begin

lemma fetch_from:
  assumes "pageable rs" "0 < n"
    and "position rs x = k" "0 < k" "k < length (listing rs)" "length (listing rs) \<le> k + fuel"
  shows "fetch_all fuel (get rs n) (Some x) = Some (Inr (drop k (listing rs)))"
  using assms(3-)
proof (induction fuel arbitrary: x k)
  case (Suc fuel)
  obtain c where g: "get rs n (Some x) = Inr (take n (drop k (listing rs)), c)"
    and last: "c = None \<longleftrightarrow> length (listing rs) \<le> k + n"
    and pos: "\<forall>y. c = Some y \<longrightarrow> y \<noteq> [] \<and> position rs y = k + n"
    using get_next [OF assms(1,2) Suc.prems(1-3)] by blast
  show ?case
  proof (cases c)
    case None
    then show ?thesis
      using g last by simp
  next
    case (Some y)
    then have "fetch_all fuel (get rs n) (Some y) = Some (Inr (drop (k + n) (listing rs)))"
      using Suc.IH [of y "k + n"] Suc.prems last pos assms(2) by simp
    then show ?thesis
      using g Some pos append_take_drop_id [of n "drop k (listing rs)"] by (simp add: add.commute)
  qed
qed simp

lemma fetch_everything:
  assumes "pageable rs" "0 < n" "length (listing rs) < fuel"
  shows "fetch_all fuel (get rs n) None = Some (Inr (listing rs))"
proof -
  obtain f where f: "fuel = Suc f" "length (listing rs) \<le> f"
    using assms(3) by (cases fuel) auto
  obtain c where g: "get rs n None = Inr (take n (listing rs), c)" and last: "c = None \<longleftrightarrow> length (listing rs) \<le> n"
    and pos: "\<forall>x. c = Some x \<longrightarrow> x \<noteq> [] \<and> position rs x = n"
    using get_first [OF assms(1,2)] by blast
  show ?thesis
  proof (cases c)
    case None
    then show ?thesis
      using g last f by simp
  next
    case (Some x)
    then have "fetch_all f (get rs n) (Some x) = Some (Inr (drop n (listing rs)))"
      using fetch_from [OF assms(1,2), of x n f] last pos assms(2) f by simp
    then show ?thesis
      using g Some pos f by simp
  qed
qed

end

section \<open>The list routes as an instance\<close>

definition rows_pageable :: "('r \<Rightarrow> place) \<Rightarrow> 'r list \<Rightarrow> bool" where
  "rows_pageable place rs \<longleftrightarrow> distinct (map place rs) \<and> list_all (\<lambda>r. time_in_range (fst (place r))) rs"

definition string_position :: "('r \<Rightarrow> place) \<Rightarrow> int \<Rightarrow> 'r list \<Rightarrow> string \<Rightarrow> nat" where
  "string_position place tz rs x =
     (case decode_cursor x of Inl _ \<Rightarrow> 0 | Inr (t, i) \<Rightarrow> cursor_position place rs (instant tz t, i))"

lemma encode_cursor_nonempty: "encode_cursor t u \<noteq> []"
proof -
  have "urlsafe_b64encode (x # xs) \<noteq> []" for x xs
    by (cases "x # xs" rule: urlsafe_b64encode.cases) simp_all
  moreover have "map code (isoformat t @ ''|'' @ show_uuid u) \<noteq> []"
    by simp
  ultimately show ?thesis
    unfolding encode_cursor_def Let_def by (metis neq_Nil_conv)
qed

lemma position_encoded:
  assumes "rows_pageable place rs" "0 < k" "k \<le> length rs"
    and "r = newest_first place rs ! (k - 1)"
  shows "string_position place tz rs (encode_cursor (fst (place r)) (snd (place r))) = k"
proof -
  have "r \<in> set rs"
    using assms(2-4) nth_mem [of "k - 1" "newest_first place rs"] by simp
  then have "time_in_range (fst (place r))"
    using assms(1) by (simp add: rows_pageable_def list_all_iff)
  then show ?thesis
    using assms position_of_row [of place rs k]
    by (simp add: string_position_def decode_encode instant_def rows_pageable_def)
qed

lemma cut_cases:
  assumes "rows_pageable place rs" "0 < n" "k \<le> length rs"
  shows "\<exists>c. cut place n (drop k (newest_first place rs)) = (take n (drop k (newest_first place rs)), c)
    \<and> (c = None \<longleftrightarrow> length rs \<le> k + n)
    \<and> (\<forall>y. c = Some y \<longrightarrow> y \<noteq> [] \<and> string_position place tz rs y = k + n)"
proof (cases "k + n < length rs")
  case True
  let ?r = "newest_first place rs ! (k + n - 1)"
  have "drop k (newest_first place rs) ! (n - 1) = ?r"
    using True assms(2) by simp
  moreover have "string_position place tz rs (encode_cursor (fst (place ?r)) (snd (place ?r))) = k + n"
    using position_encoded [OF assms(1), of "k + n" ?r] True assms(2) by simp
  ultimately show ?thesis
    using True assms(2) encode_cursor_nonempty by (auto simp: cut_def)
next
  case False
  then show ?thesis
    using assms(3) by (auto simp: cut_def)
qed

lemma list_page_paged:
  "paged (rows_pageable place) (newest_first place) (\<lambda>rs n c. list_page place tz n c rs) (string_position place tz)"
proof
  fix rs :: "'a list" and n :: nat
  assume "rows_pageable place rs" "0 < n"
  then show "\<exists>c. list_page place tz n None rs = Inr (take n (newest_first place rs), c)
        \<and> (c = None \<longleftrightarrow> length (newest_first place rs) \<le> n)
        \<and> (\<forall>x. c = Some x \<longrightarrow> x \<noteq> [] \<and> string_position place tz rs x = n)"
    using cut_cases [of place rs n 0 tz] by (simp add: list_page_def decode_option_def page_first)
next
  fix rs :: "'a list" and n k :: nat and x
  assume a: "rows_pageable place rs" "0 < n" "string_position place tz rs x = k" "0 < k" "k < length (newest_first place rs)"
  obtain t i where d: "decode_cursor x = Inr (t, i)" "cursor_position place rs (instant tz t, i) = k"
    using a(3,4) by (auto simp: string_position_def split: sum.splits)
  then have "list_page place tz n (Some x) rs = Inr (cut place n (drop k (newest_first place rs)))"
    by (simp add: list_page_def decode_option_def page_next)
  then show "\<exists>c. list_page place tz n (Some x) rs = Inr (take n (drop k (newest_first place rs)), c)
        \<and> (c = None \<longleftrightarrow> length (newest_first place rs) \<le> k + n)
        \<and> (\<forall>y. c = Some y \<longrightarrow> y \<noteq> [] \<and> string_position place tz rs y = k + n)"
    using cut_cases [OF a(1,2), of k tz] a(5) by simp
qed

section \<open>Property\<close>

text \<open>A cursor survives the trip through the client: decoding what a page handed out gives back the
  microsecond and the row id it was made from, for every instant a Python datetime can hold.\<close>

theorem cursor_roundtrip:
  assumes "time_in_range t"
  shows "decode_cursor (encode_cursor t u) = Inr (Aware t, u)"
  by (rule decode_encode [OF assms])

theorem cursor_roundtrip_witness:
  "decode_cursor (encode_cursor 1700000000123456 7) = Inr (Aware 1700000000123456, 7)"
  by (rule cursor_roundtrip) (simp add: time_in_range_def day_us_def)

end
