(* ===== verification/Projects.thy ===== *)
theory Projects
  imports Crypto Pagination
begin

text \<open>
  Projects, API keys and authentication: \<^verbatim>\<open>app/routers/projects.py\<close>, \<^verbatim>\<open>app/services/api_keys.py\<close>
  and \<^verbatim>\<open>app/auth/dependencies.py\<close>. A handler returns its answer or exception and the database the
  request leaves; a handler that raises leaves what it had committed before. UUIDs, random bytes and
  clock readings are arguments.
\<close>

section \<open>Schemas\<close>

record project_response =
  pjr_id :: uuid
  pjr_name :: utext
  pjr_created_at :: time

record api_key_create_response =
  akc_id :: uuid
  akc_key :: string
  akc_prefix :: string
  akc_name :: "utext option"
  akc_created_at :: time

record api_key_list_item =
  aki_id :: uuid
  aki_prefix :: string
  aki_name :: "utext option"
  aki_created_at :: time
  aki_last_used_at :: "time option"
  aki_revoked_at :: "time option"

definition name_ok :: "utext \<Rightarrow> bool" where
  "name_ok name \<longleftrightarrow> 1 \<le> length name \<and> length name \<le> 255"

definition project_view :: "project \<Rightarrow> project_response" where
  "project_view p = \<lparr> pjr_id = pj_id p, pjr_name = pj_name p, pjr_created_at = pj_created_at p \<rparr>"

definition api_key_view :: "api_key \<Rightarrow> api_key_list_item" where
  "api_key_view k =
   \<lparr> aki_id = ak_id k, aki_prefix = ak_key_prefix k, aki_name = ak_name k, aki_created_at = ak_created_at k,
     aki_last_used_at = ak_last_used_at k, aki_revoked_at = ak_revoked_at k \<rparr>"

section \<open>Lookups\<close>

definition http_404 :: "string \<Rightarrow> py_exc" where
  "http_404 detail = HTTPException 404 detail"

definition get_project_or_404 :: "uuid \<Rightarrow> db \<Rightarrow> py_exc + project" where
  "get_project_or_404 i d =
     (case find_project i d of None \<Rightarrow> Inl (http_404 ''Project not found'') | Some p \<Rightarrow> Inr p)"

definition find_api_key :: "uuid \<Rightarrow> db \<Rightarrow> api_key option" where
  "find_api_key i d = find_pk ak_id i (api_keys d)"

definition scoped_api_key :: "uuid \<Rightarrow> uuid \<Rightarrow> db \<Rightarrow> api_key option" where
  "scoped_api_key p i d =
     (case find_api_key i d of None \<Rightarrow> None | Some k \<Rightarrow> if ak_project k = p then Some k else None)"

definition get_api_key_or_404 :: "uuid \<Rightarrow> uuid \<Rightarrow> db \<Rightarrow> py_exc + api_key" where
  "get_api_key_or_404 p i d =
     (case scoped_api_key p i d of None \<Rightarrow> Inl (http_404 ''API key not found'') | Some k \<Rightarrow> Inr k)"

definition put_api_key :: "api_key \<Rightarrow> db \<Rightarrow> db" where
  "put_api_key k d = d\<lparr>api_keys := put_pk ak_id k (api_keys d)\<rparr>"

section \<open>Project routes\<close>

definition create_project :: "uuid \<Rightarrow> utext \<Rightarrow> time \<Rightarrow> db \<Rightarrow> (py_exc + project_response) \<times> db" where
  "create_project i name now d =
     (if \<not> name_ok name then (Inl (HTTPException 422 ''name''), d)
      else if 0 \<in> set name then (Inl DataError, d)
      else if i \<in> pj_id ` set (projects d) \<or> name \<in> pj_name ` set (projects d) then (Inl IntegrityError, d)
      else let p = \<lparr> pj_id = i, pj_name = name, pj_created_at = now, pj_updated_at = now \<rparr>
           in (Inr (project_view p), d\<lparr>projects := projects d @ [p]\<rparr>))"

definition project_place :: "project \<Rightarrow> place" where
  "project_place p = (pj_created_at p, pj_id p)"

definition limit_ok :: "int \<Rightarrow> int \<Rightarrow> bool" where
  "limit_ok max_limit limit \<longleftrightarrow> 1 \<le> limit \<and> limit \<le> max_limit"

definition list_projects :: "int \<Rightarrow> int \<Rightarrow> string option \<Rightarrow> db \<Rightarrow> py_exc + project_response list \<times> string option" where
  "list_projects tz limit cursor d =
     (if \<not> limit_ok 100 limit then Inl (HTTPException 422 ''limit'')
      else bind_exc (list_page project_place tz (nat limit) cursor (projects d))
             (\<lambda>(page, next_cursor). Inr (map project_view page, next_cursor)))"

definition get_project :: "uuid \<Rightarrow> db \<Rightarrow> py_exc + project_response" where
  "get_project i d = bind_exc (get_project_or_404 i d) (\<lambda>p. Inr (project_view p))"

section \<open>API key routes\<close>

definition create_api_key ::
  "uuid \<Rightarrow> uuid \<Rightarrow> utext \<Rightarrow> nat list \<Rightarrow> time \<Rightarrow> db \<Rightarrow> (py_exc + api_key_create_response) \<times> db" where
  "create_api_key p i name rnd now d =
     (if \<not> name_ok name then (Inl (HTTPException 422 ''name''), d)
      else case get_project_or_404 p d of
          Inl e \<Rightarrow> (Inl e, d)
        | Inr pj \<Rightarrow>
            (case generate_api_key rnd of (plaintext, prefix, h) \<Rightarrow>
              let k = \<lparr> ak_id = i, ak_project = pj_id pj, ak_name = Some name, ak_key_prefix = prefix,
                        ak_key_hash = h, ak_last_used_at = None, ak_revoked_at = None,
                        ak_created_at = now, ak_updated_at = now \<rparr>
              in if 0 \<in> set name then (Inl DataError, d)
                 else if i \<in> ak_id ` set (api_keys d) \<or> h \<in> ak_key_hash ` set (api_keys d)
                 then (Inl IntegrityError, d)
                 else (Inr \<lparr> akc_id = i, akc_key = plaintext, akc_prefix = prefix, akc_name = Some name,
                             akc_created_at = now \<rparr>, d\<lparr>api_keys := api_keys d @ [k]\<rparr>)))"

definition api_key_place :: "api_key \<Rightarrow> place" where
  "api_key_place k = (ak_created_at k, ak_id k)"

definition list_api_keys ::
  "int \<Rightarrow> uuid \<Rightarrow> int \<Rightarrow> string option \<Rightarrow> db \<Rightarrow> py_exc + api_key_list_item list \<times> string option" where
  "list_api_keys tz p limit cursor d =
     (if \<not> limit_ok 100 limit then Inl (HTTPException 422 ''limit'')
      else bind_exc (get_project_or_404 p d) (\<lambda>_.
        bind_exc (list_page api_key_place tz (nat limit) cursor (filter (\<lambda>k. ak_project k = p) (api_keys d)))
             (\<lambda>(page, next_cursor). Inr (map api_key_view page, next_cursor))))"

definition get_api_key :: "uuid \<Rightarrow> uuid \<Rightarrow> db \<Rightarrow> py_exc + api_key_list_item" where
  "get_api_key p i d = bind_exc (get_api_key_or_404 p i d) (\<lambda>k. Inr (api_key_view k))"

text \<open>\<^verbatim>\<open>services/api_keys.py\<close>: a revoked key stays revoked at its first instant.\<close>

definition revoke_api_key :: "uuid \<Rightarrow> uuid \<Rightarrow> time \<Rightarrow> db \<Rightarrow> (py_exc + bool) \<times> db" where
  "revoke_api_key p i now d =
     (case scoped_api_key p i d of
        None \<Rightarrow> (Inl (LookupError i), d)
      | Some k \<Rightarrow>
          if ak_revoked_at k = None
          then (Inr True, put_api_key (k\<lparr>ak_revoked_at := Some now, ak_updated_at := now\<rparr>) d)
          else (Inr True, d))"

definition delete_api_key :: "uuid \<Rightarrow> uuid \<Rightarrow> time \<Rightarrow> db \<Rightarrow> (py_exc + unit) \<times> db" where
  "delete_api_key p i now d =
     (case revoke_api_key p i now d of
        (Inl (LookupError _), d') \<Rightarrow> (Inl (http_404 ''API key not found''), d')
      | (Inl e, d') \<Rightarrow> (Inl e, d')
      | (Inr _, d') \<Rightarrow> (Inr (), d'))"

section \<open>Authentication\<close>

definition http_401 :: py_exc where
  "http_401 = HTTPException 401 ''Invalid or missing API key''"

definition keys_with_hash :: "string \<Rightarrow> db \<Rightarrow> api_key list" where
  "keys_with_hash h d = filter (\<lambda>k. ak_key_hash k = h) (api_keys d)"

text \<open>
  \<^verbatim>\<open>scalar_one_or_none\<close> raises on two rows. The owner is loaded before the commit; a key whose project
  is gone gives None, on which the routes fail.
\<close>

definition get_current_project :: "string option \<Rightarrow> time \<Rightarrow> db \<Rightarrow> (py_exc + project) \<times> db" where
  "get_current_project credentials now d =
     (case credentials of
        None \<Rightarrow> (Inl http_401, d)
      | Some token \<Rightarrow>
          (case keys_with_hash (hash_api_key token) d of
             [] \<Rightarrow> (Inl http_401, d)
           | [k] \<Rightarrow>
               if ak_revoked_at k \<noteq> None then (Inl http_401, d)
               else let d' = put_api_key (k\<lparr>ak_last_used_at := Some now, ak_updated_at := now\<rparr>) d
                    in (case find_project (ak_project k) d of
                          None \<Rightarrow> (Inl AttributeError, d') | Some p \<Rightarrow> (Inr p, d'))
           | _ \<Rightarrow> (Inl MultipleResultsFound, d)))"

text \<open>\<^verbatim>\<open>GET /me\<close>.\<close>

definition get_me :: "string option \<Rightarrow> time \<Rightarrow> db \<Rightarrow> (py_exc + string) \<times> db" where
  "get_me credentials now d =
     (case get_current_project credentials now d of
        (Inl e, d') \<Rightarrow> (Inl e, d') | (Inr p, d') \<Rightarrow> (Inr (show_uuid (pj_id p)), d'))"

section \<open>Facts about keys\<close>

lemma put_api_key_keeps [simp]:
  "projects (put_api_key k d) = projects d" "endpoints (put_api_key k d) = endpoints d"
  "events (put_api_key k d) = events d" "deliveries (put_api_key k d) = deliveries d"
  "attempts (put_api_key k d) = attempts d" "find_project i (put_api_key k d) = find_project i d"
  by (simp_all add: put_api_key_def find_project_def)

lemma filter_put_pk:
  assumes "\<And>x. x \<in> set rs \<Longrightarrow> pk x = pk r \<Longrightarrow> P x = P r"
  shows "filter P (put_pk pk r rs) = put_pk pk r (filter P rs)"
  using assms by (induction rs) auto

lemma put_pk_id: "(\<And>x. x \<in> set rs \<Longrightarrow> pk x \<noteq> pk r) \<Longrightarrow> put_pk pk r rs = rs"
  by (induction rs) auto

text \<open>A change of a key's row that keeps its hash changes no other key's lookup.\<close>

lemma keys_with_hash_put:
  assumes "find_api_key (ak_id k) d = Some k0" "ak_key_hash k0 = ak_key_hash k"
    and "distinct (map ak_id (api_keys d))"
  shows "keys_with_hash h (put_api_key k d) = put_pk ak_id k (keys_with_hash h d)"
proof -
  have "(ak_key_hash x = h) = (ak_key_hash k = h)" if "x \<in> set (api_keys d)" "ak_id x = ak_id k" for x
    using find_pk_unique [OF assms(3) that(1)] assms(1,2) that(2) by (simp add: find_api_key_def)
  then show ?thesis
    unfolding keys_with_hash_def put_api_key_def by (simp add: filter_put_pk)
qed

definition valid_key :: "string \<Rightarrow> project \<Rightarrow> db \<Rightarrow> bool" where
  "valid_key token p d \<longleftrightarrow> (\<exists>k. keys_with_hash (hash_api_key token) d = [k] \<and> ak_revoked_at k = None
      \<and> find_project (ak_project k) d = Some p)"

lemma authenticates_iff: "(\<exists>d'. get_current_project (Some token) now d = (Inr p, d')) \<longleftrightarrow> valid_key token p d"
  by (auto simp: get_current_project_def valid_key_def Let_def split: list.splits option.splits)

section \<open>Properties\<close>

text \<open>A minted key works: the plaintext that creating a key answers authenticates, at any later
  time and through any number of uses, as the project it was minted for.\<close>

theorem minted_key_authenticates:
  assumes "create_api_key p i name rnd now d = (Inr r, d')"
    and "distinct (map ak_id (api_keys d))"
  shows "\<exists>pj d1 d2. find_project p d = Some pj
    \<and> get_current_project (Some (akc_key r)) t1 d' = (Inr pj, d1)
    \<and> get_current_project (Some (akc_key r)) t2 d1 = (Inr pj, d2)"
proof -
  obtain pj where pj: "find_project p d = Some pj"
    using assms(1) by (auto simp: create_api_key_def get_project_or_404_def split: option.splits if_splits)
  obtain plaintext prefix h where g: "generate_api_key rnd = (plaintext, prefix, h)"
    by (cases "generate_api_key rnd")
  have id: "pj_id pj = p"
    using pj unfolding find_project_def by (rule find_pk_Some(1))
  define k where "k = \<lparr> ak_id = i, ak_project = pj_id pj, ak_name = Some name, ak_key_prefix = prefix,
      ak_key_hash = h, ak_last_used_at = None, ak_revoked_at = None, ak_created_at = now, ak_updated_at = now \<rparr>"
  have k: "ak_id k = i" "ak_project k = p" "ak_key_hash k = h" "ak_revoked_at k = None"
    by (simp_all add: k_def id)
  have d': "d' = d\<lparr>api_keys := api_keys d @ [k]\<rparr>" and r: "akc_key r = plaintext"
    and new: "h \<notin> ak_key_hash ` set (api_keys d)" "i \<notin> ak_id ` set (api_keys d)"
    using assms(1) pj g
    by (auto simp: create_api_key_def get_project_or_404_def Let_def k_def split: if_splits)
  have h: "h = hash_api_key plaintext"
    using g by (auto simp: generate_api_key_def Let_def)
  have one: "keys_with_hash h d' = [k]"
    using new(1) k(3) by (auto simp: keys_with_hash_def d' filter_empty_conv intro: rev_image_eqI)
  let ?k1 = "k\<lparr>ak_last_used_at := Some t1, ak_updated_at := t1\<rparr>"
  have "find_api_key i d' = Some k"
    using new(2) k(1) by (simp add: find_api_key_def d' find_pk_append find_pk_None [THEN iffD2])
  then have "keys_with_hash h (put_api_key ?k1 d') = put_pk ak_id ?k1 [k]"
    using keys_with_hash_put [of ?k1 d' k h] assms(2) new(2) k(1) one by (simp add: d')
  then have two: "keys_with_hash h (put_api_key ?k1 d') = [?k1]"
    by simp
  have f: "find_project (ak_project k) d' = Some pj"
    using pj k(2) by (simp add: d' find_project_def)
  have "get_current_project (Some plaintext) t1 d' = (Inr pj, put_api_key ?k1 d')"
    using one k(4) f by (simp add: get_current_project_def h [symmetric])
  moreover have "\<exists>d2. get_current_project (Some plaintext) t2 (put_api_key ?k1 d') = (Inr pj, d2)"
    using two k(4) f by (simp add: get_current_project_def h [symmetric])
  ultimately show ?thesis
    using pj r by auto
qed

text \<open>Revocation is final and exact: after a key is revoked no token that hashes to it authenticates
  again, every token of another key keeps its answer, and revoking it a second time changes nothing.\<close>

theorem revoked_key_rejected:
  assumes "delete_api_key p i t d = (Inr (), d')" "distinct (map ak_id (api_keys d))"
    and "find_api_key i d = Some k" "keys_with_hash (ak_key_hash k) d = [k]"
  shows "(\<forall>token now. hash_api_key token = ak_key_hash k \<longrightarrow> get_current_project (Some token) now d' = (Inl http_401, d'))
    \<and> (\<forall>token pj. hash_api_key token \<noteq> ak_key_hash k \<longrightarrow> valid_key token pj d' = valid_key token pj d)
    \<and> (\<forall>t'. delete_api_key p i t' d' = (Inr (), d'))"
proof -
  define k' where "k' = (if ak_revoked_at k = None then k\<lparr>ak_revoked_at := Some t, ak_updated_at := t\<rparr> else k)"
  have id: "ak_id k = i"
    using assms(3) unfolding find_api_key_def by (rule find_pk_Some(1))
  have p: "ak_project k = p"
    using assms(1,3) by (auto simp: delete_api_key_def revoke_api_key_def scoped_api_key_def split: if_splits)
  have same: "put_api_key k d = d"
  proof -
    have "put_pk ak_id k (api_keys d) = api_keys d"
      unfolding put_pk_def using find_pk_inj [OF assms(2) assms(3) [unfolded find_api_key_def]] id
      by (intro map_idI) auto
    then show ?thesis
      by (simp add: put_api_key_def)
  qed
  have d': "d' = put_api_key k' d"
    using assms(1,3) p same
    by (auto simp: delete_api_key_def revoke_api_key_def scoped_api_key_def k'_def split: if_splits)
  have k': "ak_id k' = i" "ak_key_hash k' = ak_key_hash k" "ak_revoked_at k' \<noteq> None" "ak_project k' = p"
    by (auto simp: k'_def id p)
  have look: "keys_with_hash h d' = put_pk ak_id k' (keys_with_hash h d)" for h
    unfolding d' using assms(2,3) k' id by (intro keys_with_hash_put) auto
  have "keys_with_hash (ak_key_hash k) d' = [k']"
    using look assms(4) k'(1) id by simp
  then have "get_current_project (Some token) now d' = (Inl http_401, d')" if "hash_api_key token = ak_key_hash k" for token now
    using that k'(3) by (simp add: get_current_project_def)
  moreover have "valid_key token pj d' = valid_key token pj d" if "hash_api_key token \<noteq> ak_key_hash k" for token pj
  proof -
    have "put_pk ak_id k' (keys_with_hash (hash_api_key token) d) = keys_with_hash (hash_api_key token) d"
    proof (rule put_pk_id)
      fix x assume "x \<in> set (keys_with_hash (hash_api_key token) d)"
      then show "ak_id x \<noteq> ak_id k'"
        using that find_pk_unique [OF assms(2), of x] assms(3) k'(1) by (auto simp: keys_with_hash_def find_api_key_def)
    qed
    then show ?thesis
      using look by (simp add: valid_key_def d')
  qed
  moreover have "delete_api_key p i t' d' = (Inr (), d')" for t'
  proof -
    have "find_api_key i d' = Some k'"
    proof -
      have "k \<in> set (api_keys d)"
        using assms(3) unfolding find_api_key_def by (rule find_pk_Some)
      then have "ak_id k' \<in> ak_id ` set (api_keys d)"
        using k'(1) id by (auto intro: rev_image_eqI)
      then show ?thesis
        using find_put_same [of ak_id k' "api_keys d"] k'(1) by (simp add: d' put_api_key_def find_api_key_def)
    qed
    then show ?thesis
      using k'(3,4) by (auto simp: delete_api_key_def revoke_api_key_def scoped_api_key_def)
  qed
  ultimately show ?thesis
    by blast
qed

section \<open>Instances\<close>

definition sample_key_db :: db where
  "sample_key_db = empty_db\<lparr>projects := [\<lparr> pj_id = 1, pj_name = [97], pj_created_at = 0, pj_updated_at = 0 \<rparr>]\<rparr>"

lemma sample_create_key:
  "\<exists>r d'. create_api_key 1 2 [98] [] 5 sample_key_db = (Inr r, d') \<and> api_keys d' = [\<lparr> ak_id = 2, ak_project = 1,
     ak_name = Some [98], ak_key_prefix = key_prefix, ak_key_hash = hash_api_key key_prefix, ak_last_used_at = None,
     ak_revoked_at = None, ak_created_at = 5, ak_updated_at = 5 \<rparr>]"
  by (simp add: create_api_key_def get_project_or_404_def sample_key_db_def empty_db_def find_project_def
      name_ok_def generate_api_key_def token_urlsafe_def rstrip_char_def Let_def)

theorem minted_key_authenticates_witness:
  "\<exists>r d' d1 d2 pj. create_api_key 1 2 [98] [] 5 sample_key_db = (Inr r, d')
    \<and> get_current_project (Some (akc_key r)) 6 d' = (Inr pj, d1)
    \<and> get_current_project (Some (akc_key r)) 7 d1 = (Inr pj, d2)"
proof -
  have "distinct (map ak_id (api_keys sample_key_db))"
    by (simp add: sample_key_db_def empty_db_def)
  then show ?thesis
    using sample_create_key minted_key_authenticates [of 1 2 "[98]" "[]" 5 sample_key_db] by fast
qed

theorem revoked_key_rejected_witness:
  "\<exists>r d' d2. create_api_key 1 2 [98] [] 5 sample_key_db = (Inr r, d')
    \<and> delete_api_key 1 2 9 d' = (Inr (), d2)
    \<and> get_current_project (Some key_prefix) 10 d2 = (Inl http_401, d2)"
proof -
  obtain r d' k where c: "create_api_key 1 2 [98] [] 5 sample_key_db = (Inr r, d')" and k: "api_keys d' = [k]"
    "ak_id k = 2" "ak_project k = 1" "ak_key_hash k = hash_api_key key_prefix"
    using sample_create_key by fastforce
  have f: "find_api_key 2 d' = Some k" "keys_with_hash (ak_key_hash k) d' = [k]" "distinct (map ak_id (api_keys d'))"
    using k by (simp_all add: find_api_key_def keys_with_hash_def)
  then obtain d2 where "delete_api_key 1 2 9 d' = (Inr (), d2)"
    using k by (cases "ak_revoked_at k = None") (auto simp: delete_api_key_def revoke_api_key_def scoped_api_key_def)
  moreover from this have "get_current_project (Some key_prefix) 10 d2 = (Inl http_401, d2)"
    using revoked_key_rejected [OF _ f(3,1,2), of 1 9 d2] k(4) by simp
  ultimately show ?thesis
    using c by blast
qed

end
