(* ===== verification/Endpoints.thy ===== *)
theory Endpoints
  imports Projects Samples
begin

text \<open>
  The endpoint routes (\<^verbatim>\<open>app/routers/endpoints.py\<close>, \<^verbatim>\<open>app/schemas/endpoint.py\<close>) for an
  authenticated project. \<^verbatim>\<open>str(body.url)\<close> is the normalised text the schema library hands over; the
  UUID, the random bytes of the secret and of its encryption, and the clock are arguments.
\<close>

section \<open>Schemas\<close>

definition reserved_prefix :: utext where
  "reserved_prefix = [95, 95]"

definition is_space_point :: "nat \<Rightarrow> bool" where
  "is_space_point n \<longleftrightarrow>
     (9 \<le> n \<and> n \<le> 13) \<or> (28 \<le> n \<and> n \<le> 32)
     \<or> n \<in> {133, 160, 5760, 8232, 8233, 8239, 8287, 12288} \<or> (8192 \<le> n \<and> n \<le> 8202)"

text \<open>Not blank, and not in the reserved namespace.\<close>

definition event_type_ok :: "utext \<Rightarrow> bool" where
  "event_type_ok t \<longleftrightarrow> \<not> list_all is_space_point t \<and> take 2 t \<noteq> reserved_prefix"

definition event_types_ok :: "utext list \<Rightarrow> bool" where
  "event_types_ok ts \<longleftrightarrow> ts \<noteq> [] \<and> list_all event_type_ok ts"

definition rate_ok :: "rat option \<Rightarrow> bool" where
  "rate_ok r \<longleftrightarrow> (case r of None \<Rightarrow> True | Some x \<Rightarrow> 0 < x \<and> x \<le> 1000)"

record endpoint_create =
  ec_url :: string
  ec_event_types :: "utext list"
  ec_status :: endpoint_status
  ec_payload_format :: payload_format
  ec_rate_limit_rps :: "rat option"

definition endpoint_create_ok :: "endpoint_create \<Rightarrow> bool" where
  "endpoint_create_ok b \<longleftrightarrow> event_types_ok (ec_event_types b) \<and> rate_ok (ec_rate_limit_rps b)"

record endpoint_update =
  eu_url :: "string option"
  eu_event_types :: "utext list option"
  eu_status :: "endpoint_status option"
  eu_payload_format :: "payload_format option"
  eu_rate_limit_rps :: "rat option"

definition endpoint_update_ok :: "endpoint_update \<Rightarrow> bool" where
  "endpoint_update_ok b \<longleftrightarrow>
     (case eu_event_types b of None \<Rightarrow> True | Some ts \<Rightarrow> event_types_ok ts) \<and> rate_ok (eu_rate_limit_rps b)"

record endpoint_response =
  er_id :: uuid
  er_project :: uuid
  er_url :: string
  er_event_types :: "utext list"
  er_status :: endpoint_status
  er_payload_format :: payload_format
  er_created_at :: time
  er_updated_at :: time
  er_rate_limit_rps :: "rat option"

definition endpoint_view :: "endpoint \<Rightarrow> endpoint_response" where
  "endpoint_view e =
   \<lparr> er_id = ep_id e, er_project = ep_project e, er_url = ep_url e, er_event_types = ep_event_types e,
     er_status = ep_status e, er_payload_format = ep_payload_format e, er_created_at = ep_created_at e,
     er_updated_at = ep_updated_at e, er_rate_limit_rps = ep_rate_limit_rps e \<rparr>"

section \<open>Lookup\<close>

definition get_endpoint_or_404 :: "uuid \<Rightarrow> uuid \<Rightarrow> db \<Rightarrow> py_exc + endpoint" where
  "get_endpoint_or_404 i p d =
     (case find_endpoint i d of
        None \<Rightarrow> Inl (http_404 ''Endpoint not found'')
      | Some e \<Rightarrow> if ep_project e = p then Inr e else Inl (http_404 ''Endpoint not found''))"

definition put_endpoint :: "endpoint \<Rightarrow> db \<Rightarrow> db" where
  "put_endpoint e d = d\<lparr>endpoints := put_pk ep_id e (endpoints d)\<rparr>"

section \<open>Registration\<close>

text \<open>\<^verbatim>\<open>SSRFError\<close> is answered as 422; any other exception of the guard escapes.\<close>

definition guard_url :: "string \<Rightarrow> py_exc + unit" where
  "guard_url url =
     (case validate_url_not_ssrf url of
        Inl (SSRFError msg) \<Rightarrow> Inl (HTTPException 422 msg)
      | r \<Rightarrow> r)"

text \<open>The columns hold text without NUL, the URL at most 2048 characters.\<close>

definition endpoint_storable :: "endpoint \<Rightarrow> bool" where
  "endpoint_storable e \<longleftrightarrow> length (ep_url e) \<le> 2048 \<and> CHR 0x00 \<notin> set (ep_url e)
     \<and> list_all (\<lambda>t. 0 \<notin> set t) (ep_event_types e)"

definition create_endpoint ::
  "fernet_enc \<Rightarrow> settings \<Rightarrow> uuid \<Rightarrow> endpoint_create \<Rightarrow> uuid \<Rightarrow> bytes \<Rightarrow> nat list \<Rightarrow> time \<Rightarrow> db
   \<Rightarrow> (py_exc + endpoint_response \<times> string) \<times> db" where
  "create_endpoint fenc st p body i secret_rnd fernet_rnd now d =
     (if \<not> endpoint_create_ok body then (Inl (HTTPException 422 ''body''), d)
      else case guard_url (ec_url body) of
          Inl e \<Rightarrow> (Inl e, d)
        | Inr _ \<Rightarrow>
            (let plaintext_secret = generate_endpoint_secret secret_rnd;
                 e = \<lparr> ep_id = i, ep_project = p, ep_url = ec_url body, ep_event_types = ec_event_types body,
                       ep_secret_enc = encrypt_secret fenc st fernet_rnd plaintext_secret,
                       ep_status = ec_status body, ep_payload_format = ec_payload_format body,
                       ep_created_at = now, ep_updated_at = now, ep_rate_limit_rps = ec_rate_limit_rps body \<rparr>
             in if \<not> endpoint_storable e then (Inl DataError, d)
                else if i \<in> ep_id ` set (endpoints d) \<or> p \<notin> pj_id ` set (projects d) then (Inl IntegrityError, d)
                else (Inr (endpoint_view e, plaintext_secret), d\<lparr>endpoints := endpoints d @ [e]\<rparr>)))"

section \<open>Reading\<close>

definition endpoint_place :: "endpoint \<Rightarrow> place" where
  "endpoint_place e = (ep_created_at e, ep_id e)"

definition list_endpoints ::
  "int \<Rightarrow> uuid \<Rightarrow> int \<Rightarrow> string option \<Rightarrow> endpoint_status option \<Rightarrow> db
   \<Rightarrow> py_exc + endpoint_response list \<times> string option" where
  "list_endpoints tz p limit cursor status d =
     (if \<not> limit_ok 100 limit then Inl (HTTPException 422 ''limit'')
      else bind_exc (list_page endpoint_place tz (nat limit) cursor
             (filter (\<lambda>e. ep_project e = p \<and> (case status of None \<Rightarrow> True | Some s \<Rightarrow> ep_status e = s)) (endpoints d)))
             (\<lambda>(page, next_cursor). Inr (map endpoint_view page, next_cursor)))"

definition get_endpoint :: "uuid \<Rightarrow> uuid \<Rightarrow> db \<Rightarrow> py_exc + endpoint_response" where
  "get_endpoint i p d = bind_exc (get_endpoint_or_404 i p d) (\<lambda>e. Inr (endpoint_view e))"

section \<open>Changing\<close>

definition apply_update :: "endpoint_update \<Rightarrow> endpoint \<Rightarrow> endpoint" where
  "apply_update b e =
     (let e = (case eu_url b of None \<Rightarrow> e | Some u \<Rightarrow> e\<lparr>ep_url := u\<rparr>);
          e = (case eu_event_types b of None \<Rightarrow> e | Some t \<Rightarrow> e\<lparr>ep_event_types := t\<rparr>);
          e = (case eu_status b of None \<Rightarrow> e | Some s \<Rightarrow> e\<lparr>ep_status := s\<rparr>);
          e = (case eu_payload_format b of None \<Rightarrow> e | Some f \<Rightarrow> e\<lparr>ep_payload_format := f\<rparr>)
      in (case eu_rate_limit_rps b of None \<Rightarrow> e | Some r \<Rightarrow> e\<lparr>ep_rate_limit_rps := Some r\<rparr>))"

text \<open>
  The commit writes the row, with a new \<^verbatim>\<open>updated_at\<close>, only when an attribute changed.
\<close>

definition commit_endpoint :: "time \<Rightarrow> endpoint \<Rightarrow> endpoint \<Rightarrow> endpoint" where
  "commit_endpoint now e e' = (if e' = e then e else e'\<lparr>ep_updated_at := now\<rparr>)"

definition update_endpoint ::
  "uuid \<Rightarrow> uuid \<Rightarrow> endpoint_update \<Rightarrow> time \<Rightarrow> db \<Rightarrow> (py_exc + endpoint_response) \<times> db" where
  "update_endpoint i p body now d =
     (if \<not> endpoint_update_ok body then (Inl (HTTPException 422 ''body''), d)
      else case get_endpoint_or_404 i p d of
          Inl e \<Rightarrow> (Inl e, d)
        | Inr e \<Rightarrow>
            (case (case eu_url body of None \<Rightarrow> Inr () | Some u \<Rightarrow> guard_url u) of
               Inl x \<Rightarrow> (Inl x, d)
             | Inr _ \<Rightarrow>
                 (let e' = commit_endpoint now e (apply_update body e)
                  in if \<not> endpoint_storable e' then (Inl DataError, d)
                     else (Inr (endpoint_view e'), put_endpoint e' d))))"

text \<open>Deleting the row cascades through the foreign keys to deliveries, attempts and the demo tables.\<close>

definition cascade_endpoint :: "uuid \<Rightarrow> db \<Rightarrow> db" where
  "cascade_endpoint i d =
     (let gone = dl_id ` set (filter (\<lambda>x. dl_endpoint x = i) (deliveries d))
      in d\<lparr>endpoints := del_pk ep_id i (endpoints d),
           deliveries := filter (\<lambda>x. dl_endpoint x \<noteq> i) (deliveries d),
           attempts := filter (\<lambda>a. at_delivery a \<notin> gone) (attempts d),
           healths := filter (\<lambda>h. rh_endpoint h \<noteq> i) (healths d),
           inbox := filter (\<lambda>r. rr_endpoint r \<noteq> i) (inbox d),
           accounts := filter (\<lambda>a. la_endpoint a \<noteq> i) (accounts d),
           processed := filter (\<lambda>x. lp_endpoint x \<noteq> i) (processed d)\<rparr>)"

definition delete_endpoint :: "uuid \<Rightarrow> uuid \<Rightarrow> db \<Rightarrow> (py_exc + unit) \<times> db" where
  "delete_endpoint i p d =
     (case get_endpoint_or_404 i p d of Inl e \<Rightarrow> (Inl e, d) | Inr _ \<Rightarrow> (Inr (), cascade_endpoint i d))"

definition rotate_endpoint_secret ::
  "fernet_enc \<Rightarrow> settings \<Rightarrow> uuid \<Rightarrow> uuid \<Rightarrow> bytes \<Rightarrow> nat list \<Rightarrow> time \<Rightarrow> db \<Rightarrow> (py_exc + string) \<times> db" where
  "rotate_endpoint_secret fenc st i p secret_rnd fernet_rnd now d =
     (case get_endpoint_or_404 i p d of
        Inl e \<Rightarrow> (Inl e, d)
      | Inr e \<Rightarrow>
          (let plaintext_secret = generate_endpoint_secret secret_rnd;
               e' = e\<lparr>ep_secret_enc := encrypt_secret fenc st fernet_rnd plaintext_secret\<rparr>
           in (Inr plaintext_secret, put_endpoint (commit_endpoint now e e') d)))"

section \<open>Facts\<close>

lemma get_endpoint_Inr:
  "get_endpoint_or_404 i p d = Inr e \<longleftrightarrow> find_endpoint i d = Some e \<and> ep_project e = p"
  by (auto simp: get_endpoint_or_404_def split: option.splits)

lemma find_endpoint_id: "find_endpoint i d = Some e \<Longrightarrow> ep_id e = i \<and> e \<in> set (endpoints d)"
  unfolding find_endpoint_def by (auto dest: find_pk_Some)

lemma apply_update_simps [simp]:
  "ep_id (apply_update b e) = ep_id e" "ep_project (apply_update b e) = ep_project e"
  "ep_secret_enc (apply_update b e) = ep_secret_enc e"
  "ep_url (apply_update b e) = (case eu_url b of None \<Rightarrow> ep_url e | Some u \<Rightarrow> u)"
  by (simp_all add: apply_update_def Let_def split: option.split)

lemma commit_endpoint_simps [simp]:
  "ep_id (commit_endpoint now e e') = ep_id e'" "ep_project (commit_endpoint now e e') = ep_project e'"
  "ep_url (commit_endpoint now e e') = ep_url e'" "ep_secret_enc (commit_endpoint now e e') = ep_secret_enc e'"
  by (simp_all add: commit_endpoint_def)

lemma guard_url_Inr: "guard_url u = Inr () \<longleftrightarrow> validate_url_not_ssrf u = Inr ()"
  by (auto simp: guard_url_def split: sum.splits py_exc.splits)

lemma find_put_endpoint:
  "find_endpoint j (put_endpoint e d) =
     (if j = ep_id e then (if find_endpoint j d = None then None else Some e) else find_endpoint j d)"
  using find_put_same [of ep_id e "endpoints d"] find_put_other [of j ep_id e "endpoints d"]
  by (auto simp: find_endpoint_def put_endpoint_def find_pk_None)

text \<open>The endpoint operations an authenticated project can perform, as one relation on databases.\<close>

inductive endpoint_op :: "fernet_enc \<Rightarrow> settings \<Rightarrow> uuid \<Rightarrow> db \<Rightarrow> db \<Rightarrow> bool"
  for fenc st p where
  op_create: "create_endpoint fenc st p body i sr fr now d = (r, d') \<Longrightarrow> endpoint_op fenc st p d d'"
| op_update: "update_endpoint i p ubody now d = (ru, d') \<Longrightarrow> endpoint_op fenc st p d d'"
| op_delete: "delete_endpoint i p d = (rd, d') \<Longrightarrow> endpoint_op fenc st p d d'"
| op_rotate: "rotate_endpoint_secret fenc st i p sr fr now d = (rr, d') \<Longrightarrow> endpoint_op fenc st p d d'"

text \<open>What each operation does to the endpoint table.\<close>

lemma endpoint_op_cases:
  assumes "endpoint_op fenc st p d d'"
  obtains (same) "d' = d"
  | (added) e where "d' = d\<lparr>endpoints := endpoints d @ [e]\<rparr>" "ep_project e = p"
      "validate_url_not_ssrf (ep_url e) = Inr ()" "find_endpoint (ep_id e) d = None"
  | (changed) e e' where "d' = put_endpoint e' d" "find_endpoint (ep_id e') d = Some e" "ep_project e = p" "ep_project e' = p"
      "ep_url e' = ep_url e \<or> validate_url_not_ssrf (ep_url e') = Inr ()"
  | (removed) e where "d' = cascade_endpoint (ep_id e) d" "find_endpoint (ep_id e) d = Some e" "ep_project e = p"
  using assms
proof cases
  case (op_create body i sr fr now r)
  then show ?thesis
    using same added
    by (auto simp: create_endpoint_def Let_def guard_url_Inr find_endpoint_def find_pk_None split: if_splits sum.splits)
next
  case (op_update i ubody now ru)
  show ?thesis
  proof (cases "d' = d")
    case False
    then obtain e where e: "find_endpoint i d = Some e" "ep_project e = p"
      and g: "\<And>u. eu_url ubody = Some u \<Longrightarrow> validate_url_not_ssrf u = Inr ()"
      and d': "d' = put_endpoint (commit_endpoint now e (apply_update ubody e)) d"
      using op_update
      by (auto simp: update_endpoint_def Let_def get_endpoint_Inr guard_url_Inr split: if_splits sum.splits option.splits)
    then show ?thesis
      using find_endpoint_id [OF e(1)]
      by (intro changed [of "commit_endpoint now e (apply_update ubody e)" e]) (auto split: option.splits)
  qed (rule same)
next
  case (op_delete i rd)
  show ?thesis
  proof (cases "get_endpoint_or_404 i p d")
    case (Inl e)
    then show ?thesis
      using op_delete same by (simp add: delete_endpoint_def)
  next
    case (Inr e)
    then have e: "find_endpoint i d = Some e" "ep_project e = p"
      by (simp_all add: get_endpoint_Inr)
    then have "ep_id e = i"
      using find_endpoint_id by blast
    moreover have "d' = cascade_endpoint i d"
      using op_delete Inr by (simp add: delete_endpoint_def)
    ultimately show ?thesis
      using e removed [of e] by simp
  qed
next
  case (op_rotate i sr fr now rr)
  show ?thesis
  proof (cases "d' = d")
    case False
    then obtain e x where e: "find_endpoint i d = Some e" "ep_project e = p"
      and d': "d' = put_endpoint (commit_endpoint now e (e\<lparr>ep_secret_enc := x\<rparr>)) d"
      using op_rotate by (auto simp: rotate_endpoint_secret_def Let_def get_endpoint_Inr split: sum.splits)
    then show ?thesis
      using find_endpoint_id [OF e(1)]
      by (intro changed [of "commit_endpoint now e (e\<lparr>ep_secret_enc := x\<rparr>)" e]) auto
  qed (rule same)
qed

section \<open>Properties\<close>

definition urls_guarded :: "db \<Rightarrow> bool" where
  "urls_guarded d \<longleftrightarrow> (\<forall>e \<in> set (endpoints d). validate_url_not_ssrf (ep_url e) = Inr ())"

text \<open>C19: Every stored endpoint URL has passed the SSRF guard: if all of a database's endpoints have, they
  still do after any endpoint operation, whether it registers, updates, deletes or rotates.\<close>

theorem endpoint_urls_guarded:
  assumes "endpoint_op fenc st p d d'" "urls_guarded d"
  shows "urls_guarded d'"
  using assms(1)
proof (cases rule: endpoint_op_cases)
  case (changed e e')
  then have "validate_url_not_ssrf (ep_url e') = Inr ()"
    using assms(2) find_endpoint_id by (fastforce simp: urls_guarded_def)
  then show ?thesis
    using assms(2) changed(1) by (auto simp: urls_guarded_def put_endpoint_def dest: set_put_pk)
qed (use assms(2) in \<open>auto simp: urls_guarded_def cascade_endpoint_def del_pk_def Let_def\<close>)

definition pause_body :: endpoint_update where
  "pause_body = \<lparr> eu_url = None, eu_event_types = None, eu_status = Some Inactive, eu_payload_format = None,
     eu_rate_limit_rps = None \<rparr>"

definition one_endpoint_db :: db where
  "one_endpoint_db = (sample_db [sample_delivery])\<lparr>endpoints := [sample_endpoint]\<rparr>"

theorem endpoint_urls_guarded_witness:
  "urls_guarded (snd (update_endpoint 2 1 pause_body 9 one_endpoint_db))
   \<and> map ep_status (endpoints (snd (update_endpoint 2 1 pause_body 9 one_endpoint_db))) = [Inactive]"
proof
  have "endpoint_op sample_enc default_settings 1 one_endpoint_db (snd (update_endpoint 2 1 pause_body 9 one_endpoint_db))"
    by (rule op_update [where ru = "fst (update_endpoint 2 1 pause_body 9 one_endpoint_db)"]) simp
  moreover have "urls_guarded one_endpoint_db"
    using sample_public by (simp add: urls_guarded_def one_endpoint_db_def)
  ultimately show "urls_guarded (snd (update_endpoint 2 1 pause_body 9 one_endpoint_db))"
    by (rule endpoint_urls_guarded)
  have "length (dotted 93 184 216 34) \<le> 15" "CHR 0x00 \<notin> set (dotted 93 184 216 34)"
    by code_simp+
  then show "map ep_status (endpoints (snd (update_endpoint 2 1 pause_body 9 one_endpoint_db))) = [Inactive]"
    by (simp add: update_endpoint_def pause_body_def endpoint_update_ok_def rate_ok_def get_endpoint_or_404_def
        one_endpoint_db_def find_endpoint_def sample_endpoint_def commit_endpoint_def apply_update_def
        endpoint_storable_def put_endpoint_def sample_type_def ucode_def Let_def)
qed

lemma filter_put_other:
  assumes "\<not> P r" "\<And>x. x \<in> set rs \<Longrightarrow> pk x = pk r \<Longrightarrow> \<not> P x"
  shows "filter P (put_pk pk r rs) = filter P rs"
  using assms by (induction rs) auto

text \<open>C18: Tenants are isolated: an endpoint operation of one project leaves every other project's endpoints
  exactly as they were, and every delivery to them with all of its attempts.\<close>

theorem endpoint_isolation:
  assumes "endpoint_op fenc st p d d'"
    and "distinct (map ep_id (endpoints d))" "distinct (map dl_id (deliveries d))"
  shows "filter (\<lambda>e. ep_project e \<noteq> p) (endpoints d') = filter (\<lambda>e. ep_project e \<noteq> p) (endpoints d)
    \<and> (\<forall>x \<in> set (deliveries d). delivery_project d x \<noteq> Some p \<longrightarrow>
         x \<in> set (deliveries d') \<and> attempts_of (dl_id x) d' = attempts_of (dl_id x) d)"
  using assms(1)
proof (cases rule: endpoint_op_cases)
  case same
  then show ?thesis
    by simp
next
  case (added e)
  then show ?thesis
    by (simp add: attempts_of_def)
next
  case (changed e e')
  have "ep_project x = p" if "x \<in> set (endpoints d)" "ep_id x = ep_id e'" for x
    using find_pk_inj [OF assms(2) changed(2) [unfolded find_endpoint_def] that] changed(3) by simp
  then show ?thesis
    using changed by (simp add: put_endpoint_def filter_put_other attempts_of_def)
next
  case (removed e)
  have own: "ep_project x = p" if "x \<in> set (endpoints d)" "ep_id x = ep_id e" for x
    using find_pk_inj [OF assms(2) removed(2) [unfolded find_endpoint_def] that] removed(3) by simp
  have "filter (\<lambda>e. ep_project e \<noteq> p) (endpoints d') = filter (\<lambda>e. ep_project e \<noteq> p) (endpoints d)"
  proof -
    have "filter (\<lambda>x. ep_id x \<noteq> ep_id e \<and> ep_project x \<noteq> p) (endpoints d) = filter (\<lambda>x. ep_project x \<noteq> p) (endpoints d)"
      by (rule filter_cong) (use own in blast)+
    then show ?thesis
      unfolding removed(1) cascade_endpoint_def del_pk_def Let_def by simp
  qed
  moreover have "x \<in> set (deliveries d') \<and> attempts_of (dl_id x) d' = attempts_of (dl_id x) d"
    if x: "x \<in> set (deliveries d)" "delivery_project d x \<noteq> Some p" for x
  proof -
    have "dl_endpoint x \<noteq> ep_id e"
      using x(2) removed(2,3) by (auto simp: delivery_project_def)
    have "dl_id x \<noteq> dl_id y" if "y \<in> set (deliveries d)" "dl_endpoint y = ep_id e" for y
    proof
      assume "dl_id x = dl_id y"
      then have "x = y"
        using find_pk_inj [OF assms(3) find_pk_unique [OF assms(3) that(1)] x(1)] by simp
      then show False
        using that(2) \<open>dl_endpoint x \<noteq> ep_id e\<close> by simp
    qed
    then have "dl_id x \<notin> dl_id ` set (filter (\<lambda>y. dl_endpoint y = ep_id e) (deliveries d))"
      by auto
    then have keep: "at_delivery a \<notin> dl_id ` set (filter (\<lambda>y. dl_endpoint y = ep_id e) (deliveries d))"
      if "at_delivery a = dl_id x" for a
      using that by (simp only: not_False_eq_True)
    have "filter (\<lambda>a. at_delivery a = dl_id x) (filter (\<lambda>a. at_delivery a
        \<notin> dl_id ` set (filter (\<lambda>y. dl_endpoint y = ep_id e) (deliveries d))) (attempts d))
      = filter (\<lambda>a. at_delivery a = dl_id x) (attempts d)"
      unfolding filter_filter by (rule filter_cong) (use keep in blast)+
    then show ?thesis
      using x(1) \<open>dl_endpoint x \<noteq> ep_id e\<close> unfolding removed(1) cascade_endpoint_def attempts_of_def Let_def
      by simp
  qed
  ultimately show ?thesis
    by blast
qed

theorem endpoint_isolation_witness:
  "let other = sample_endpoint\<lparr>ep_id := 20, ep_project := 9\<rparr>;
       d = (sample_db [sample_delivery])\<lparr>endpoints := [sample_endpoint, other]\<rparr>;
       d' = snd (delete_endpoint 20 9 d)
   in map ep_id (endpoints d') = [2] \<and> sample_delivery \<in> set (deliveries d')"
proof -
  let ?other = "sample_endpoint\<lparr>ep_id := 20, ep_project := 9\<rparr>"
  let ?d = "(sample_db [sample_delivery])\<lparr>endpoints := [sample_endpoint, ?other]\<rparr>"
  have op: "endpoint_op sample_enc default_settings 9 ?d (snd (delete_endpoint 20 9 ?d))"
    by (rule op_delete [where rd = "fst (delete_endpoint 20 9 ?d)"]) simp
  have "distinct (map ep_id (endpoints ?d))" "distinct (map dl_id (deliveries ?d))"
    "delivery_project ?d sample_delivery \<noteq> Some 9"
    by (simp_all add: delivery_project_def find_endpoint_def sample_endpoint_def sample_delivery_def)
  then have "sample_delivery \<in> set (deliveries (snd (delete_endpoint 20 9 ?d)))"
    using endpoint_isolation [OF op] by simp
  moreover have "map ep_id (endpoints (snd (delete_endpoint 20 9 ?d))) = [2]"
    by (simp add: delete_endpoint_def get_endpoint_or_404_def find_endpoint_def cascade_endpoint_def del_pk_def
        sample_endpoint_def Let_def)
  ultimately show ?thesis
    by (simp add: Let_def)
qed

text \<open>The secret an integrator is shown is the secret the worker signs with: the plaintext that
  registering or rotating answers is what the stored ciphertext decrypts to, for any Fernet scheme that
  decrypts what it encrypted.\<close>

theorem shown_secret_decrypts:
  assumes "fernet_ok fenc fdec"
    and "create_endpoint fenc st p body i sr fr now d = (Inr (r, secret), d1) \<and> distinct (map ep_id (endpoints d))
      \<or> rotate_endpoint_secret fenc st i p sr fr now d = (Inr secret, d1)"
  shows "\<exists>e. find_endpoint i d1 = Some e \<and> ep_project e = p
    \<and> decrypt_secret fdec st (ep_secret_enc e) = Inr secret"
  using assms(2)
proof
  assume a: "create_endpoint fenc st p body i sr fr now d = (Inr (r, secret), d1) \<and> distinct (map ep_id (endpoints d))"
  then have "find_endpoint i d = None"
    by (auto simp: create_endpoint_def Let_def find_endpoint_def find_pk_None split: if_splits sum.splits)
  then show ?thesis
    using a decrypt_encrypt [OF assms(1)]
    by (auto simp: create_endpoint_def Let_def find_endpoint_def find_pk_append split: if_splits sum.splits)
next
  assume "rotate_endpoint_secret fenc st i p sr fr now d = (Inr secret, d1)"
  then obtain e where e: "find_endpoint i d = Some e" "ep_project e = p" "secret = generate_endpoint_secret sr"
    and d1: "d1 = put_endpoint (commit_endpoint now e (e\<lparr>ep_secret_enc := encrypt_secret fenc st fr secret\<rparr>)) d"
    by (auto simp: rotate_endpoint_secret_def Let_def get_endpoint_Inr split: sum.splits)
  then show ?thesis
    using find_endpoint_id [OF e(1)] decrypt_encrypt [OF assms(1)]
    by (auto simp: find_put_endpoint)
qed

theorem shown_secret_decrypts_witness:
  "\<exists>d1 e. rotate_endpoint_secret sample_enc default_settings 2 1 [1, 2] [] 9 (sample_db []) = (Inr ''0102'', d1)
    \<and> find_endpoint 2 d1 = Some e \<and> decrypt_secret sample_dec default_settings (ep_secret_enc e) = Inr ''0102''"
proof -
  have "generate_endpoint_secret [1, 2] = ''0102''"
    by code_simp
  moreover have "get_endpoint_or_404 2 1 (sample_db []) = Inr sample_endpoint"
    by (simp add: get_endpoint_or_404_def) (simp add: sample_endpoint_def)
  ultimately obtain d1 where "rotate_endpoint_secret sample_enc default_settings 2 1 [1, 2] [] 9 (sample_db []) = (Inr ''0102'', d1)"
    by (simp add: rotate_endpoint_secret_def Let_def)
  then show ?thesis
    using shown_secret_decrypts [OF sample_fernet_ok, of default_settings 1 _ 2 "[1, 2]" "[]" 9 "sample_db []"]
    by blast
qed

text \<open>Deleting an endpoint leaves no dangling rows: its deliveries and their attempts go with it, and
  the keys and foreign keys of the delivery pipeline still hold.\<close>

theorem delete_cascades:
  assumes "delete_endpoint i p d = (Inr (), d')" "keys_ok d" "fks_ok d"
  shows "find_endpoint i d' = None \<and> (\<forall>x \<in> set (deliveries d'). dl_endpoint x \<noteq> i) \<and> keys_ok d' \<and> fks_ok d'"
proof -
  have d': "d' = cascade_endpoint i d"
    using assms(1) by (auto simp: delete_endpoint_def split: sum.splits)
  have "find_endpoint i d' = None"
    by (simp add: d' cascade_endpoint_def find_endpoint_def Let_def find_del_pk)
  moreover have "keys_ok d'"
    using assms(2) unfolding d' keys_ok_def cascade_endpoint_def Let_def project_table.keys_ok_def
      api_key_table.keys_ok_def endpoint_table.keys_ok_def event_table.keys_ok_def delivery_table.keys_ok_def
      idem_table.keys_ok_def del_pk_def
    by (simp add: distinct_map_filter)
  moreover have "fks_ok d'"
  proof -
    have "at_delivery a \<in> dl_id ` set (deliveries d')" if "a \<in> set (attempts d')" for a
    proof -
      have "at_delivery a \<in> dl_id ` set (deliveries d)"
        "at_delivery a \<notin> dl_id ` set (filter (\<lambda>x. dl_endpoint x = i) (deliveries d))"
        using that assms(3) unfolding d' cascade_endpoint_def Let_def fks_ok_def by auto
      then show ?thesis
        unfolding d' cascade_endpoint_def Let_def by auto
    qed
    then show ?thesis
      using assms(3) unfolding fks_ok_def
      by (auto simp: d' cascade_endpoint_def Let_def del_pk_def)
  qed
  ultimately show ?thesis
    by (simp add: d' cascade_endpoint_def Let_def)
qed

theorem delete_cascades_witness:
  "\<exists>d'. delete_endpoint 2 1 (sample_db [sample_delivery]) = (Inr (), d') \<and> deliveries d' = [] \<and> fks_ok d'"
proof -
  obtain d' where d': "delete_endpoint 2 1 (sample_db [sample_delivery]) = (Inr (), d')"
    by (simp add: delete_endpoint_def get_endpoint_or_404_def) (simp add: sample_endpoint_def)
  have "keys_ok (sample_db [sample_delivery])" "fks_ok (sample_db [sample_delivery])"
    by (simp_all add: keys_ok_def fks_ok_def project_table.keys_ok_def api_key_table.keys_ok_def
        endpoint_table.keys_ok_def event_table.keys_ok_def delivery_table.keys_ok_def idem_table.keys_ok_def
        sample_defs)
  then have "fks_ok d'"
    using delete_cascades [OF d'] by blast
  moreover have "deliveries d' = []"
    using d' by (auto simp: delete_endpoint_def cascade_endpoint_def sample_delivery_def Let_def split: sum.splits)
  ultimately show ?thesis
    using d' by blast
qed

end
