(* ===== verification/Decimals.thy ===== *)
theory Decimals
  imports Endpoints
begin

text \<open>
  Python's \<^verbatim>\<open>str\<close> of a parsed JSON value and \<^verbatim>\<open>decimal.Decimal\<close> as the ledger uses it: reading a
  text, quantising to cents with half-even rounding in 28 digits, and printing. Digits are the ASCII
  ones, and exponents are within the limits of the C implementation. The \<^verbatim>\<open>str\<close> of a list or a dict is
  the parameter \<open>rp\<close>.
\<close>

section \<open>Text\<close>

definition ustrip :: "utext \<Rightarrow> utext" where
  "ustrip t = rev (dropWhile is_space_point (rev (dropWhile is_space_point t)))"

definition is_udigit :: "nat \<Rightarrow> bool" where
  "is_udigit n \<longleftrightarrow> 48 \<le> n \<and> n \<le> 57"

definition udigits_value :: "utext \<Rightarrow> nat" where
  "udigits_value t = foldl (\<lambda>v n. v * 10 + (n - 48)) 0 t"

definition ulower :: "nat \<Rightarrow> nat" where
  "ulower n = (if 65 \<le> n \<and> n \<le> 90 then n + 32 else n)"

text \<open>
  A text as ASCII: what is not ASCII becomes a character that no parser of the standard library gives
  a meaning to.
\<close>

definition ascii_view :: "utext \<Rightarrow> string" where
  "ascii_view t = map (\<lambda>n. if n < 128 then char_of n else CHR 0xFF) t"

text \<open>Text a PostgreSQL column can hold: no NUL and no lone surrogate.\<close>

definition text_ok :: "utext \<Rightarrow> bool" where
  "text_ok t \<longleftrightarrow> list_all (\<lambda>n. n \<noteq> 0 \<and> \<not> (0xD800 \<le> n \<and> n \<le> 0xDFFF)) t"

definition py_str :: "(json \<Rightarrow> utext) \<Rightarrow> json \<Rightarrow> utext" where
  "py_str rp v =
     (case v of
        JNull \<Rightarrow> ucode ''None''
      | JBool b \<Rightarrow> ucode (if b then ''True'' else ''False'')
      | JInt i \<Rightarrow> ucode (show_int i)
      | JFloat r \<Rightarrow> ucode r
      | JStr s \<Rightarrow> s
      | _ \<Rightarrow> rp v)"

text \<open>\<^verbatim>\<open>str(d.get(k))\<close>, with None for a missing key.\<close>

definition str_item :: "(json \<Rightarrow> utext) \<Rightarrow> payload \<Rightarrow> string \<Rightarrow> utext" where
  "str_item rp p k = py_str rp (case get_item p k of None \<Rightarrow> JNull | Some v \<Rightarrow> v)"

section \<open>Reading a decimal\<close>

text \<open>A sign, a coefficient and an exponent, an infinity with its sign, or a NaN with its sign and diagnostic number.\<close>

datatype py_decimal = Finite bool nat int | Infinite bool | Quiet_NaN bool nat | Signaling_NaN bool nat

definition parse_exponent :: "utext \<Rightarrow> int option" where
  "parse_exponent t =
     (let (neg, u) = (case t of [] \<Rightarrow> (False, []) | c # r \<Rightarrow> if c = 45 then (True, r) else if c = 43 then (False, r) else (False, t))
      in if u = [] \<or> \<not> list_all is_udigit u then None
         else Some (if neg then - int (udigits_value u) else int (udigits_value u)))"

definition parse_finite :: "bool \<Rightarrow> utext \<Rightarrow> py_decimal option" where
  "parse_finite neg u =
     (let ip = takeWhile is_udigit u;
          r1 = dropWhile is_udigit u;
          (fp, r2) = (case r1 of [] \<Rightarrow> ([], [])
                      | c # r \<Rightarrow> if c = 46 then (takeWhile is_udigit r, dropWhile is_udigit r) else ([], r1));
          e = (case r2 of [] \<Rightarrow> Some 0 | c # r \<Rightarrow> if c = 69 \<or> c = 101 then parse_exponent r else None)
      in if ip @ fp = [] then None
         else map_option (\<lambda>e. Finite neg (udigits_value (ip @ fp)) (e - int (length fp))) e)"

definition parse_decimal :: "utext \<Rightarrow> py_decimal option" where
  "parse_decimal t =
     (let s = filter (\<lambda>n. n \<noteq> 95) (ustrip t);
          (neg, u) = (case s of [] \<Rightarrow> (False, []) | c # r \<Rightarrow> if c = 45 then (True, r) else if c = 43 then (False, r) else (False, s));
          low = map ulower u
      in if low = ucode ''inf'' \<or> low = ucode ''infinity'' then Some (Infinite neg)
         else if take 3 low = ucode ''nan'' \<and> list_all is_udigit (drop 3 low) then Some (Quiet_NaN neg (udigits_value (drop 3 low)))
         else if take 4 low = ucode ''snan'' \<and> list_all is_udigit (drop 4 low) then Some (Signaling_NaN neg (udigits_value (drop 4 low)))
         else parse_finite neg u)"

section \<open>Money\<close>

text \<open>
  A quantised amount: a sign and a number of cents, or the quiet NaN that \<^verbatim>\<open>quantize\<close> lets through.
\<close>

datatype amount = Cents bool nat | Amount_NaN

definition quantize_cents :: "py_decimal \<Rightarrow> amount option" where
  "quantize_cents x =
     (case x of
        Finite neg c e \<Rightarrow>
          (let n = (if - 2 \<le> e then c * 10 ^ nat (e + 2)
                    else nat (round_half_even (of_nat c / 10 ^ nat (- e - 2))))
           in if n < 10 ^ 28 then Some (Cents neg n) else None)
      | Quiet_NaN neg payload \<Rightarrow> Some Amount_NaN
      | _ \<Rightarrow> None)"

definition show_cents :: "bool \<Rightarrow> nat \<Rightarrow> string" where
  "show_cents neg n =
     (if neg then ''-'' else []) @ show_nat (n div 100) @ ''.'' @ [digit (n div 10 mod 10), digit (n mod 10)]"

definition show_money :: "int \<Rightarrow> string" where
  "show_money c = show_cents (c < 0) (nat \<bar>c\<bar>)"

section \<open>Plain decimal notation\<close>

text \<open>
  The texts the ledger's query takes as amounts: digits, optionally a point and digits. The value is
  the digits' number and how many of them follow the point.
\<close>

definition fixed_point :: "utext \<Rightarrow> (nat \<times> nat) option" where
  "fixed_point t =
     (let ip = takeWhile is_udigit t; r = dropWhile is_udigit t
      in if ip = [] then None
         else case r of
             [] \<Rightarrow> Some (udigits_value ip, 0)
           | c # fp \<Rightarrow> if c = 46 \<and> fp \<noteq> [] \<and> list_all is_udigit fp then Some (udigits_value (ip @ fp), length fp) else None)"

lemma udigit_facts:
  assumes "is_udigit n"
  shows "\<not> is_space_point n" "n \<noteq> 95" "n \<noteq> 45" "n \<noteq> 43" "n \<noteq> 46" "ulower n = n" "n \<noteq> 105" "n \<noteq> 110" "n \<noteq> 115"
  using assms by (auto simp: is_udigit_def is_space_point_def ulower_def)

lemma dropWhile_hd_last:
  assumes "xs \<noteq> []" "\<not> P (hd xs)"
  shows "dropWhile P xs = xs"
  using assms by (cases xs) auto

lemma fixed_point_shape:
  assumes "fixed_point t = Some (c, k)"
  obtains ip fp where "ip \<noteq> []" "list_all is_udigit ip" "list_all is_udigit fp" "c = udigits_value (ip @ fp)" "k = length fp"
    and "t = (if fp = [] then ip else ip @ 46 # fp)"
proof -
  let ?ip = "takeWhile is_udigit t"
  have ip: "?ip \<noteq> []" "list_all is_udigit ?ip"
    using assms by (auto simp: fixed_point_def Let_def list_all_iff dest: set_takeWhileD split: if_splits)
  show thesis
  proof (cases "dropWhile is_udigit t")
    case Nil
    then have "t = ?ip"
      by (metis append_Nil2 takeWhile_dropWhile_id)
    moreover have "c = udigits_value ?ip" "k = 0"
      using assms ip(1) Nil by (auto simp: fixed_point_def Let_def)
    ultimately show thesis
      using that [of ?ip "[]"] ip by simp
  next
    case (Cons x fp)
    then have "x = 46" "fp \<noteq> []" "list_all is_udigit fp" "c = udigits_value (?ip @ fp)" "k = length fp"
      using assms by (auto simp: fixed_point_def Let_def split: if_splits)
    moreover have "t = ?ip @ x # fp"
      using takeWhile_dropWhile_id [of is_udigit t] Cons by simp
    ultimately show thesis
      using that [of ?ip fp] ip by simp
  qed
qed

lemma ustrip_id:
  assumes "t \<noteq> []" "\<not> is_space_point (hd t)" "\<not> is_space_point (last t)"
  shows "ustrip t = t"
proof -
  have "dropWhile is_space_point (rev t) = rev t"
    using assms by (intro dropWhile_hd_last) (simp_all add: hd_rev)
  then show ?thesis
    using assms by (simp add: ustrip_def dropWhile_hd_last)
qed

lemma takeWhile_digits:
  assumes "list_all is_udigit ip"
  shows "takeWhile is_udigit (ip @ xs) = ip @ takeWhile is_udigit xs" "dropWhile is_udigit (ip @ xs) = dropWhile is_udigit xs"
  using assms by (auto simp: list_all_iff)

text \<open>Decimal reads such a text as the number the query's cast gives.\<close>

lemma parse_fixed_point:
  assumes "fixed_point t = Some (c, k)"
  shows "parse_decimal t = Some (Finite False c (- int k))"
proof -
  obtain ip fp where t: "ip \<noteq> []" "list_all is_udigit ip" "list_all is_udigit fp" "c = udigits_value (ip @ fp)" "k = length fp"
    and teq: "t = (if fp = [] then ip else ip @ 46 # fp)"
    using assms by (rule fixed_point_shape)
  obtain x xs where ip: "ip = x # xs" and x: "is_udigit x"
    using t(1,2) by (cases ip) auto
  have tc: "\<exists>r. t = x # r"
    by (simp add: teq ip)
  then obtain r where r: "t = x # r" ..
  have "is_udigit (last t)"
    using t(2,3) unfolding teq ip by (auto simp: list_all_iff)
  then have "ustrip t = t"
    using r x udigit_facts(1) by (intro ustrip_id) auto
  moreover have "filter (\<lambda>n. n \<noteq> 95) t = t"
    using t(2,3) udigit_facts(2) unfolding teq by (auto simp: filter_id_conv list_all_iff)
  moreover have "parse_finite False t = Some (Finite False c (- int k))"
  proof (cases "fp = []")
    case True
    have "takeWhile is_udigit ip = ip" "dropWhile is_udigit ip = []"
      using t(2) by (auto simp: list_all_iff)
    then show ?thesis
      using t True by (simp add: teq parse_finite_def Let_def del: dropWhile_eq_Nil_conv takeWhile_eq_all_conv)
  next
    case False
    have "\<not> is_udigit 46"
      by (simp add: is_udigit_def)
    moreover have "takeWhile is_udigit fp = fp" "dropWhile is_udigit fp = []"
      using t(3) by (auto simp: list_all_iff)
    ultimately show ?thesis
      using t False takeWhile_digits [OF t(2), of "46 # fp"] by (simp add: teq parse_finite_def Let_def del: dropWhile_eq_Nil_conv takeWhile_eq_all_conv)
  qed
  ultimately show ?thesis
    using udigit_facts [OF x] by (simp add: parse_decimal_def r ucode_def)
qed

lemma quantize_fixed_point:
  assumes "fixed_point t = Some (c, k)" "k \<le> 2" "c * 10 ^ (2 - k) < 10 ^ 28"
  shows "quantize_cents (Finite False c (- int k)) = Some (Cents False (c * 10 ^ (2 - k)))"
proof -
  have "nat (- int k + 2) = 2 - k"
    using assms(2) by simp
  then show ?thesis
    using assms by (simp add: quantize_cents_def Let_def)
qed

end
