(* ===== verification/Deliveries.thy ===== *)
theory Deliveries
  imports Projects Worker_Progress
begin

text \<open>
  Delivery inspection and redrive (\<^verbatim>\<open>app/routers/deliveries.py\<close>), and the benchmark's client that
  follows its cursors (\<^verbatim>\<open>benchmark/runner.py\<close>). Datetime filters are aware or naive as the query gave
  them; \<open>tz\<close> is the database session's time zone. The redrive reads the row in one snapshot and writes
  it in another, since it takes no lock.
\<close>

section \<open>Responses\<close>

record delivery_response =
  dr_id :: uuid
  dr_event :: uuid
  dr_endpoint :: uuid
  dr_status :: delivery_status
  dr_attempt_count :: int
  dr_next_attempt_at :: time
  dr_leased_until :: "time option"
  dr_created_at :: time
  dr_updated_at :: time

definition delivery_view :: "delivery \<Rightarrow> delivery_response" where
  "delivery_view x =
   \<lparr> dr_id = dl_id x, dr_event = dl_event x, dr_endpoint = dl_endpoint x, dr_status = dl_status x,
     dr_attempt_count = dl_attempt_count x, dr_next_attempt_at = dl_next_attempt_at x,
     dr_leased_until = dl_leased_until x, dr_created_at = dl_created_at x, dr_updated_at = dl_updated_at x \<rparr>"

record attempt_response =
  ar_id :: uuid
  ar_delivery :: uuid
  ar_number :: int
  ar_response_status :: "int option"
  ar_response_body :: "utext option"
  ar_error :: "utext option"
  ar_duration_ms :: "int option"
  ar_created_at :: time

definition attempt_view :: "delivery_attempt \<Rightarrow> attempt_response" where
  "attempt_view a =
   \<lparr> ar_id = at_id a, ar_delivery = at_delivery a, ar_number = at_number a,
     ar_response_status = at_response_status a, ar_response_body = at_response_body a, ar_error = at_error a,
     ar_duration_ms = at_duration_ms a, ar_created_at = at_created_at a \<rparr>"

section \<open>Lookup and listing\<close>

definition get_delivery_or_404 :: "uuid \<Rightarrow> uuid \<Rightarrow> db \<Rightarrow> py_exc + delivery" where
  "get_delivery_or_404 i p d =
     (case find_delivery i d of
        None \<Rightarrow> Inl (http_404 ''Delivery not found'')
      | Some x \<Rightarrow> if delivery_project d x = Some p then Inr x else Inl (http_404 ''Delivery not found''))"

record delivery_filter =
  df_status :: "delivery_status option"
  df_endpoint :: "uuid option"
  df_event :: "uuid option"
  df_event_type :: "utext option"
  df_created_after :: "datetime option"
  df_created_before :: "datetime option"

text \<open>Python refuses to compare an aware datetime with a naive one.\<close>

definition check_range :: "datetime option \<Rightarrow> datetime option \<Rightarrow> py_exc + unit" where
  "check_range after before =
     (let later = HTTPException 422 ''created_after must not be after created_before''
      in case (after, before) of
           (Some (Aware a), Some (Aware b)) \<Rightarrow> if b < a then Inl later else Inr ()
         | (Some (Naive a), Some (Naive b)) \<Rightarrow> if b < a then Inl later else Inr ()
         | (Some _, Some _) \<Rightarrow> Inl TypeError
         | _ \<Rightarrow> Inr ())"

definition in_range :: "int \<Rightarrow> datetime option \<Rightarrow> datetime option \<Rightarrow> time \<Rightarrow> bool" where
  "in_range tz after before t \<longleftrightarrow>
     (case after of None \<Rightarrow> True | Some a \<Rightarrow> instant tz a \<le> t)
     \<and> (case before of None \<Rightarrow> True | Some b \<Rightarrow> t \<le> instant tz b)"

definition delivery_matches :: "int \<Rightarrow> uuid \<Rightarrow> delivery_filter \<Rightarrow> db \<Rightarrow> delivery \<Rightarrow> bool" where
  "delivery_matches tz p f d x \<longleftrightarrow>
     delivery_project d x = Some p
     \<and> (case df_status f of None \<Rightarrow> True | Some s \<Rightarrow> dl_status x = s)
     \<and> (case df_endpoint f of None \<Rightarrow> True | Some i \<Rightarrow> dl_endpoint x = i)
     \<and> (case df_event f of None \<Rightarrow> True | Some i \<Rightarrow> dl_event x = i)
     \<and> (case df_event_type f of None \<Rightarrow> True
        | Some t \<Rightarrow> (case find_event (dl_event x) d of None \<Rightarrow> False | Some e \<Rightarrow> ev_type e = t))
     \<and> in_range tz (df_created_after f) (df_created_before f) (dl_created_at x)"

definition delivery_place :: "delivery \<Rightarrow> place" where
  "delivery_place x = (dl_created_at x, dl_id x)"

definition list_deliveries ::
  "int \<Rightarrow> uuid \<Rightarrow> delivery_filter \<Rightarrow> int \<Rightarrow> db \<Rightarrow> string option \<Rightarrow> py_exc + delivery_response list \<times> string option" where
  "list_deliveries tz p f limit d cursor =
     (if \<not> limit_ok 200 limit then Inl (HTTPException 422 ''limit'')
      else bind_exc (check_range (df_created_after f) (df_created_before f)) (\<lambda>_.
        bind_exc (list_page delivery_place tz (nat limit) cursor (filter (delivery_matches tz p f d) (deliveries d)))
          (\<lambda>(page, next_cursor). Inr (map delivery_view page, next_cursor))))"

definition get_delivery :: "uuid \<Rightarrow> uuid \<Rightarrow> db \<Rightarrow> py_exc + delivery_response" where
  "get_delivery i p d = bind_exc (get_delivery_or_404 i p d) (\<lambda>x. Inr (delivery_view x))"

definition list_delivery_attempts :: "uuid \<Rightarrow> uuid \<Rightarrow> db \<Rightarrow> py_exc + attempt_response list" where
  "list_delivery_attempts i p d =
     bind_exc (get_delivery_or_404 i p d) (\<lambda>_. Inr (map attempt_view (sort_key at_number (attempts_of i d))))"

section \<open>Redrive\<close>

text \<open>
  The UPDATE sets the columns the handler changed in the row it read: the lease only if that row had
  one. It names the row by its key, whatever the row holds by then.
\<close>

definition redrive_write :: "delivery \<Rightarrow> time \<Rightarrow> delivery \<Rightarrow> delivery" where
  "redrive_write seen now x =
     x\<lparr>dl_status := Pending, dl_next_attempt_at := now,
       dl_leased_until := (if dl_leased_until seen = None then dl_leased_until x else None), dl_updated_at := now\<rparr>"

definition redrive_delivery :: "uuid \<Rightarrow> uuid \<Rightarrow> time \<Rightarrow> db \<Rightarrow> db \<Rightarrow> (py_exc + delivery_response) \<times> db" where
  "redrive_delivery i p now d1 d2 =
     (case get_delivery_or_404 i p d1 of
        Inl e \<Rightarrow> (Inl e, d2)
      | Inr seen \<Rightarrow>
          if dl_status seen \<noteq> Dead_lettered then (Inl (HTTPException 409 ''Delivery is not dead-lettered''), d2)
          else (case find_delivery i d2 of
              None \<Rightarrow> (Inl StaleDataError, d2)
            | Some x \<Rightarrow> let x' = redrive_write seen now x in (Inr (delivery_view x'), put_delivery x' d2)))"

section \<open>The benchmark's client\<close>

definition succeeded_filter :: delivery_filter where
  "succeeded_filter =
   \<lparr> df_status = Some Succeeded, df_endpoint = None, df_event = None, df_event_type = None,
     df_created_after = None, df_created_before = None \<rparr>"

definition fetch_all_succeeded :: "nat \<Rightarrow> int \<Rightarrow> uuid \<Rightarrow> db \<Rightarrow> (py_exc + delivery_response list) option" where
  "fetch_all_succeeded fuel tz p d = fetch_all fuel (list_deliveries tz p succeeded_filter 200 d) None"

section \<open>Listing as an instance of the paging interface\<close>

interpretation delivery_pages:
  paged "rows_pageable delivery_place" "newest_first delivery_place" "\<lambda>rs n c. list_page delivery_place tz n c rs"
    "string_position delivery_place tz"
  for tz by (rule list_page_paged)

lemma fetch_all_map:
  assumes "\<And>c. get' c = bind_exc (get c) (\<lambda>(page, next_cursor). Inr (map f page, next_cursor))"
  shows "fetch_all fuel get' c = map_option (\<lambda>r. bind_exc r (\<lambda>rows. Inr (map f rows))) (fetch_all fuel get c)"
proof (induction fuel arbitrary: c)
  case (Suc fuel)
  show ?case
  proof (cases "get c")
    case (Inl e)
    then show ?thesis
      by (simp add: assms)
  next
    case (Inr pn)
    obtain page nx where pn: "pn = (page, nx)"
      by fastforce
    show ?thesis
      using Suc.IH [of nx] Inr pn
      by (cases "fetch_all fuel get nx") (auto simp: assms bind_exc_def split: sum.splits)
  qed
qed simp

lemma pageable_filter: "rows_pageable place rs \<Longrightarrow> rows_pageable place (filter P rs)"
  by (simp add: rows_pageable_def distinct_map_filter list_all_iff)

lemma fetch_deliveries:
  assumes "rows_pageable delivery_place (deliveries d)" "limit_ok 200 limit"
    and "check_range (df_created_after f) (df_created_before f) = Inr ()"
    and "length (deliveries d) < fuel"
  shows "fetch_all fuel (list_deliveries tz p f limit d) None
    = Some (Inr (map delivery_view (newest_first delivery_place (filter (delivery_matches tz p f d) (deliveries d)))))"
proof -
  let ?rs = "filter (delivery_matches tz p f d) (deliveries d)"
  have "list_deliveries tz p f limit d c
      = bind_exc (list_page delivery_place tz (nat limit) c ?rs) (\<lambda>(page, nx). Inr (map delivery_view page, nx))" for c
    using assms(2,3) by (simp add: list_deliveries_def)
  then have "fetch_all fuel (list_deliveries tz p f limit d) None
      = map_option (\<lambda>r. bind_exc r (\<lambda>rows. Inr (map delivery_view rows)))
          (fetch_all fuel (\<lambda>c. list_page delivery_place tz (nat limit) c ?rs) None)"
    by (rule fetch_all_map)
  moreover have "length (newest_first delivery_place ?rs) < fuel"
    using le_less_trans [OF length_filter_le assms(4)] by simp
  ultimately show ?thesis
    using delivery_pages.fetch_everything [OF pageable_filter [OF assms(1)], where n = "nat limit" and fuel = fuel] assms(2)
    by (simp add: limit_ok_def)
qed

section \<open>Sample rows\<close>

definition dead_delivery :: delivery where
  "dead_delivery = sample_delivery\<lparr>dl_status := Dead_lettered, dl_attempt_count := 5\<rparr>"

lemma sample_projects:
  "delivery_project (sample_db xs) sample_delivery = Some 1"
  "delivery_project (sample_db xs) private_delivery = Some 1"
  "delivery_project (sample_db xs) dead_delivery = Some 1"
  by (simp_all add: delivery_project_def dead_delivery_def sample_delivery_def private_delivery_def)
     (simp_all add: sample_event_def sample_endpoint_def private_endpoint_def)

lemma sample_pending: "dl_status sample_delivery = Pending" "dl_status private_delivery = Pending"
  by (simp_all add: sample_delivery_def private_delivery_def)

lemma sample_dead:
  "find_delivery 6 (sample_db [dead_delivery]) = Some dead_delivery" "dl_status dead_delivery = Dead_lettered"
  "dl_attempt_count dead_delivery = 5" "delivery_project (sample_db [dead_delivery]) dead_delivery = Some 1"
  by (simp_all add: sample_projects) (simp_all add: find_delivery_def dead_delivery_def sample_delivery_def)

lemma redriven_attempt:
  "\<exists>s'. process_delivery sample_dec default_settings sample_env (redrive_write dead_delivery 5000 dead_delivery) sample_io None
     ((sample_sess [])\<lparr>s_db := sample_db [redrive_write dead_delivery 5000 dead_delivery]\<rparr>) = (s', Inr ())"
  using sample_public
  by (simp add: process_delivery_def redrive_write_def dead_delivery_def sample_delivery_def sample_secret Let_def
      settle_def flush_session_def flush_attempt_def attempt_row_def has_nul_def)
     (simp add: sample_io_def http_succeeded_def find_delivery_def)

section \<open>Properties\<close>

text \<open>C17: Paging loses and repeats nothing: a client that follows the cursors of the delivery list, with any
  page size the route allows and any filters, gets every matching delivery of the project exactly once,
  newest first, and stops after finitely many requests.\<close>

theorem listing_complete:
  assumes "distinct (map dl_id (deliveries d))" "\<forall>x \<in> set (deliveries d). time_in_range (dl_created_at x)"
    and "1 \<le> limit" "limit \<le> 200" "check_range (df_created_after f) (df_created_before f) = Inr ()"
    and "length (deliveries d) < fuel"
  shows "\<exists>rows. fetch_all fuel (list_deliveries tz p f limit d) None = Some (Inr (map delivery_view rows))
    \<and> distinct rows \<and> set rows = {x \<in> set (deliveries d). delivery_matches tz p f d x}
    \<and> sorted_wrt (\<lambda>a b. delivery_place b < delivery_place a) rows"
proof -
  let ?rows = "newest_first delivery_place (filter (delivery_matches tz p f d) (deliveries d))"
  have "distinct (map delivery_place (deliveries d))"
    using assms(1) by (auto simp: distinct_map inj_on_def delivery_place_def)
  then have pg: "rows_pageable delivery_place (deliveries d)"
    using assms(2) by (auto simp: rows_pageable_def list_all_iff delivery_place_def)
  have sorted: "sorted_wrt (\<lambda>a b. delivery_place b < delivery_place a) ?rows"
    using pageable_filter [OF pg] by (intro newest_first_sorted) (simp add: rows_pageable_def)
  have "distinct ?rows"
    using assms(1) by (simp add: newest_first_def distinct_map)
  then show ?thesis
    using fetch_deliveries [OF pg, of limit f fuel tz p] assms sorted
    by (intro exI [of _ ?rows]) (auto simp: limit_ok_def)
qed

theorem listing_complete_witness:
  "\<exists>rows. fetch_all 3 (list_deliveries 0 1 (succeeded_filter\<lparr>df_status := Some Pending\<rparr>) 1
        (sample_db [sample_delivery, private_delivery])) None = Some (Inr (map delivery_view rows))
    \<and> set rows = {sample_delivery, private_delivery}"
proof -
  let ?d = "sample_db [sample_delivery, private_delivery]"
  let ?f = "succeeded_filter\<lparr>df_status := Some Pending\<rparr>"
  have "distinct (map dl_id (deliveries ?d))" "\<forall>x \<in> set (deliveries ?d). time_in_range (dl_created_at x)"
    by (simp_all add: sample_delivery_def private_delivery_def time_in_range_def day_us_def)
  moreover have "check_range (df_created_after ?f) (df_created_before ?f) = Inr ()"
    by (simp add: check_range_def succeeded_filter_def)
  moreover have "{x \<in> set (deliveries ?d). delivery_matches 0 1 ?f ?d x} = {sample_delivery, private_delivery}"
    by (auto simp: delivery_matches_def in_range_def succeeded_filter_def sample_pending sample_projects)
  ultimately show ?thesis
    using listing_complete [of ?d 1 ?f 3 0 1] by auto
qed

text \<open>The benchmark's loop over the cursors ends with all succeeded deliveries of the project, each once, given
  at least one request more than there are deliveries.\<close>

lemma all_succeeded_fetched:
  assumes "distinct (map dl_id (deliveries d))" "\<forall>x \<in> set (deliveries d). time_in_range (dl_created_at x)"
    and "length (deliveries d) < fuel"
  obtains rows where "fetch_all_succeeded fuel tz p d = Some (Inr (map delivery_view rows))"
    and "length rows = length (filter (\<lambda>x. delivery_project d x = Some p \<and> dl_status x = Succeeded) (deliveries d))"
    and "distinct rows" "set rows = {x \<in> set (deliveries d). delivery_project d x = Some p \<and> dl_status x = Succeeded}"
proof -
  have "distinct (map delivery_place (deliveries d))"
    using assms(1) by (auto simp: distinct_map inj_on_def delivery_place_def)
  then have pg: "rows_pageable delivery_place (deliveries d)"
    using assms(2) by (auto simp: rows_pageable_def list_all_iff delivery_place_def)
  let ?f = "\<lambda>x. delivery_project d x = Some p \<and> dl_status x = Succeeded"
  have matches: "delivery_matches tz p succeeded_filter d = ?f"
    by (rule ext) (auto simp: delivery_matches_def succeeded_filter_def in_range_def)
  have range: "check_range (df_created_after succeeded_filter) (df_created_before succeeded_filter) = Inr ()"
    by (simp add: check_range_def succeeded_filter_def)
  have fetched: "fetch_all_succeeded fuel tz p d
      = Some (Inr (map delivery_view (newest_first delivery_place (filter ?f (deliveries d)))))"
    using fetch_deliveries [OF pg _ range assms(3), of 200 tz p] unfolding matches
    by (simp add: fetch_all_succeeded_def limit_ok_def)
  have "distinct (newest_first delivery_place (filter ?f (deliveries d)))"
    using assms(1) by (simp add: newest_first_def distinct_map)
  then show thesis
    by (rule that [OF fetched, rotated]) (auto simp: newest_first_def)
qed

text \<open>A date range that mixes a datetime with an offset and one without is not refused as invalid: the
  comparison raises TypeError, so the list route fails instead of answering 422, for every project, page
  and database.\<close>

theorem mixed_range_raises:
  "list_deliveries tz p (succeeded_filter\<lparr>df_created_after := Some (Aware a), df_created_before := Some (Naive b)\<rparr>) 50 d c
     = Inl TypeError"
  by (simp add: list_deliveries_def check_range_def limit_ok_def)

text \<open>Redriving re-queues exactly the dead-lettered deliveries of the caller's own project: the delivery
  becomes pending and due at once with its attempt count kept, any other status is refused with 409, a
  delivery of another project with 404, and a refusal changes nothing.\<close>

theorem redrive_spec:
  assumes "redrive_delivery i p now d d = (r, d')"
  shows "(case r of
      Inl e \<Rightarrow> d' = d \<and> (e = http_404 ''Delivery not found''
          \<and> (\<forall>x. find_delivery i d = Some x \<longrightarrow> delivery_project d x \<noteq> Some p)
        \<or> e = HTTPException 409 ''Delivery is not dead-lettered''
          \<and> (\<exists>x. find_delivery i d = Some x \<and> delivery_project d x = Some p \<and> dl_status x \<noteq> Dead_lettered))
    | Inr v \<Rightarrow> (\<exists>x x'. find_delivery i d = Some x \<and> delivery_project d x = Some p \<and> dl_status x = Dead_lettered
          \<and> find_delivery i d' = Some x' \<and> v = delivery_view x' \<and> due now x' \<and> dl_leased_until x' = None
          \<and> dl_attempt_count x' = dl_attempt_count x
          \<and> (\<forall>j. j \<noteq> i \<longrightarrow> find_delivery j d' = find_delivery j d) \<and> attempts d' = attempts d))"
proof (cases "find_delivery i d")
  case None
  then show ?thesis
    using assms by (auto simp: redrive_delivery_def get_delivery_or_404_def http_404_def)
next
  case (Some x)
  then have "dl_id x = i"
    using find_delivery_mem by blast
  then show ?thesis
    using assms Some
    by (auto simp: redrive_delivery_def get_delivery_or_404_def http_404_def Let_def redrive_write_def due_def
        find_delivery_put split: if_splits)
qed

theorem redrive_spec_witness:
  "\<exists>v d'. redrive_delivery 6 1 5000 (sample_db [dead_delivery]) (sample_db [dead_delivery]) = (Inr v, d')
    \<and> (\<exists>x'. find_delivery 6 d' = Some x' \<and> v = delivery_view x' \<and> due 5000 x' \<and> dl_attempt_count x' = 5)"
proof -
  let ?d = "sample_db [dead_delivery]"
  obtain r d' where r: "redrive_delivery 6 1 5000 ?d ?d = (r, d')"
    by fastforce
  have "\<exists>v. r = Inr v"
    using r sample_dead by (auto simp: redrive_delivery_def get_delivery_or_404_def Let_def)
  then show ?thesis
    using redrive_spec [OF r] r sample_dead by auto
qed

text \<open>C39: A slow redrive undoes a success: when the row was dead-lettered as the handler read it and has since
  been redriven and delivered by others, its unconditional UPDATE puts the succeeded delivery back in the
  queue, where it is due again.\<close>

theorem redrive_overwrites_success:
  assumes "find_delivery i d1 = Some x" "delivery_project d1 x = Some p" "dl_status x = Dead_lettered"
    and "find_delivery i d2 = Some y" "dl_status y = Succeeded"
  shows "\<exists>v d'. redrive_delivery i p now d1 d2 = (Inr v, d')
    \<and> (\<exists>z. find_delivery i d' = Some z \<and> due now z \<and> dl_attempt_count z = dl_attempt_count y)"
proof -
  have "dl_id y = i"
    using assms(4) find_delivery_mem by blast
  then show ?thesis
    using assms by (auto simp: redrive_delivery_def get_delivery_or_404_def Let_def redrive_write_def due_def find_delivery_put)
qed

theorem redrive_overwrites_success_witness:
  "\<exists>v d'. redrive_delivery 6 1 5000 (sample_db [dead_delivery]) (sample_db [dead_delivery\<lparr>dl_status := Succeeded\<rparr>])
      = (Inr v, d') \<and> (\<exists>z. find_delivery 6 d' = Some z \<and> due 5000 z \<and> dl_attempt_count z = 5)"
proof -
  let ?y = "dead_delivery\<lparr>dl_status := Succeeded\<rparr>"
  have "find_delivery 6 (sample_db [?y]) = Some ?y" "dl_attempt_count ?y = 5"
    by (simp_all add: find_delivery_def dead_delivery_def sample_delivery_def)
  then show ?thesis
    using redrive_overwrites_success [of 6 "sample_db [dead_delivery]" dead_delivery 1 "sample_db [?y]" ?y 5000] sample_dead
    by simp
qed

text \<open>A redriven delivery gets one attempt, not a fresh budget: its count still stands at the limit, so
  after the next attempt it has succeeded or is dead-lettered again, and is never rescheduled.\<close>

theorem redriven_once:
  assumes "redrive_delivery i p now d d = (Inr v, d1)" "find_delivery i d1 = Some x"
    and "max_delivery_attempts st \<le> dl_attempt_count x + 1"
    and "process_delivery fdec st env x io name (s\<lparr>s_db := d1\<rparr>) = (s', Inr ())"
  shows "\<exists>x'. find_delivery i (s_db s') = Some x' \<and> dl_status x' \<in> {Succeeded, Dead_lettered}
    \<and> dl_attempt_count x' = dl_attempt_count x + 1"
proof -
  obtain x' a where r: "attempt_recorded x d1 x' a (s_db s')" "settled_from st io x x'"
    using assms(4) by (rule process_delivery_ok) simp
  moreover have "dl_id x = i"
    using assms(2) find_delivery_mem by blast
  ultimately show ?thesis
    using assms(3) recorded_find [OF r(1), of i] by (auto simp: attempt_recorded_def settled_from_def)
qed

theorem redriven_once_witness:
  "\<exists>v d1 x s' x'. redrive_delivery 6 1 5000 (sample_db [dead_delivery]) (sample_db [dead_delivery]) = (Inr v, d1)
    \<and> find_delivery 6 d1 = Some x
    \<and> process_delivery sample_dec default_settings sample_env x sample_io None ((sample_sess [])\<lparr>s_db := d1\<rparr>) = (s', Inr ())
    \<and> find_delivery 6 (s_db s') = Some x' \<and> dl_status x' \<in> {Succeeded, Dead_lettered}"
proof -
  let ?d = "sample_db [dead_delivery]"
  let ?x = "redrive_write dead_delivery 5000 dead_delivery"
  let ?s = "sample_sess [?x]"
  have "redrive_delivery 6 1 5000 ?d ?d = (Inr (delivery_view ?x), sample_db [?x])"
    using sample_dead by (simp add: redrive_delivery_def get_delivery_or_404_def Let_def)
      (simp add: put_delivery_def sample_db_def redrive_write_def)
  moreover have "find_delivery 6 (sample_db [?x]) = Some ?x"
    by (simp add: find_delivery_def redrive_write_def dead_delivery_def sample_delivery_def)
  moreover obtain s' where "process_delivery sample_dec default_settings sample_env ?x sample_io None
      ((sample_sess [])\<lparr>s_db := sample_db [?x]\<rparr>) = (s', Inr ())"
    using redriven_attempt by blast
  moreover have "max_delivery_attempts default_settings \<le> dl_attempt_count ?x + 1"
    by (simp add: redrive_write_def dead_delivery_def default_settings_def)
  ultimately show ?thesis
    using redriven_once [of 6 1 5000 ?d "delivery_view ?x" "sample_db [?x]" ?x default_settings sample_dec sample_env
        sample_io None "sample_sess []" s'] by blast
qed

end
