(* ===== verification/Inbox.thy ===== *)
theory Inbox
  imports Decimals Deliveries
begin

text \<open>
  The receiver side's tables (\<^verbatim>\<open>app/services/showcase.py\<close>): the health flag, the time a visitor was
  last seen, and the bounded inbox of received requests.
\<close>

section \<open>Names\<close>

definition showcase_marker :: utext where
  "showcase_marker = ucode ''__showcase__''"

definition bank_naive_marker :: utext where
  "bank_naive_marker = ucode ''__showcase_bank_naive__''"

definition bank_safe_marker :: utext where
  "bank_safe_marker = ucode ''__showcase_bank_safe__''"

record showcase_handles =
  sh_project :: uuid
  sh_receiver :: uuid
  sh_discord :: "uuid option"
  sh_bank_naive :: uuid
  sh_bank_safe :: uuid

text \<open>An endpoint with a marker among its event types, whatever its project.\<close>

definition marked_endpoint :: "uuid \<Rightarrow> utext \<Rightarrow> string \<Rightarrow> db \<Rightarrow> py_exc + endpoint" where
  "marked_endpoint e marker msg d =
     (case find_endpoint e d of
        None \<Rightarrow> Inl (http_404 msg)
      | Some ep \<Rightarrow> if marker \<in> set (ep_event_types ep) then Inr ep else Inl (http_404 msg))"

section \<open>Health\<close>

definition find_health :: "uuid \<Rightarrow> db \<Rightarrow> receiver_health option" where
  "find_health e d = find_pk rh_endpoint e (healths d)"

definition put_health :: "receiver_health \<Rightarrow> db \<Rightarrow> db" where
  "put_health r d = d\<lparr>healths := put_pk rh_endpoint r (healths d)\<rparr>"

definition get_health :: "uuid \<Rightarrow> db \<Rightarrow> bool" where
  "get_health e d = (case find_health e d of None \<Rightarrow> True | Some r \<Rightarrow> rh_healthy r)"

definition set_health :: "uuid \<Rightarrow> bool \<Rightarrow> time \<Rightarrow> db \<Rightarrow> py_exc + db" where
  "set_health e healthy now d =
     (case find_health e d of
        None \<Rightarrow>
          if e \<notin> ep_id ` set (endpoints d) then Inl IntegrityError
          else Inr (d\<lparr>healths := healths d @ [\<lparr> rh_endpoint = e, rh_healthy = healthy, rh_mode = ''healthy'', rh_updated_at = now \<rparr>]\<rparr>)
      | Some r \<Rightarrow> if rh_healthy r = healthy then Inr d else Inr (put_health (r\<lparr>rh_healthy := healthy, rh_updated_at := now\<rparr>) d))"

section \<open>Visitors\<close>

text \<open>The insert stamps the application's clock, the conflict update the database's.\<close>

definition find_visitor :: "uuid \<Rightarrow> db \<Rightarrow> visitor_activity option" where
  "find_visitor p d = find_pk va_project p (visitors d)"

definition touch_visitor_seen :: "uuid \<Rightarrow> time \<Rightarrow> time \<Rightarrow> db \<Rightarrow> py_exc + db" where
  "touch_visitor_seen p now db_now d =
     (if p \<notin> pj_id ` set (projects d) then Inl IntegrityError
      else if find_visitor p d = None then Inr (d\<lparr>visitors := visitors d @ [\<lparr> va_project = p, va_last_seen_at = now \<rparr>]\<rparr>)
      else Inr (d\<lparr>visitors := put_pk va_project \<lparr> va_project = p, va_last_seen_at = db_now \<rparr> (visitors d)\<rparr>))"

definition get_last_visitor_seen :: "uuid \<Rightarrow> db \<Rightarrow> time option" where
  "get_last_visitor_seen p d = map_option va_last_seen_at (find_visitor p d)"

section \<open>The inbox\<close>

definition inbox_keep :: nat where
  "inbox_keep = 20"

definition max_body_chars :: nat where
  "max_body_chars = 8192"

definition request_place :: "received_request \<Rightarrow> place" where
  "request_place r = (rr_received_at r, rr_id r)"

definition inbox_rows :: "uuid \<Rightarrow> db \<Rightarrow> received_request list" where
  "inbox_rows e d = filter (\<lambda>r. rr_endpoint r = e) (inbox d)"

definition stale_ids :: "uuid \<Rightarrow> db \<Rightarrow> uuid list" where
  "stale_ids e d = map rr_id (drop inbox_keep (newest_first request_place (inbox_rows e d)))"

text \<open>The columns: text without NUL, a 32-bit integer.\<close>

definition request_storable :: "received_request \<Rightarrow> bool" where
  "request_storable r \<longleftrightarrow> text_ok (rr_event_type r) \<and> text_ok (rr_body r)
     \<and> (case rr_signature_header r of None \<Rightarrow> True | Some s \<Rightarrow> CHR 0x00 \<notin> set s)
     \<and> (case rr_timestamp_header r of None \<Rightarrow> True | Some s \<Rightarrow> CHR 0x00 \<notin> set s)
     \<and> - (2 ^ 31) \<le> rr_attempt r \<and> rr_attempt r < 2 ^ 31"

definition received_row ::
  "uuid \<Rightarrow> time \<Rightarrow> uuid \<Rightarrow> utext \<Rightarrow> int \<Rightarrow> bool \<Rightarrow> int \<Rightarrow> string option \<Rightarrow> string option \<Rightarrow> utext \<Rightarrow> received_request" where
  "received_row i now e event_type attempt verified response_status sig_header ts_header body =
   \<lparr> rr_id = i, rr_endpoint = e, rr_event_type = event_type, rr_attempt = attempt, rr_verified = verified,
     rr_response_status = response_status, rr_signature_header = sig_header, rr_timestamp_header = ts_header,
     rr_body = take max_body_chars body, rr_received_at = now \<rparr>"

definition record_received_request :: "received_request \<Rightarrow> db \<Rightarrow> py_exc + db" where
  "record_received_request r d =
     (if \<not> request_storable r then Inl DataError
      else if rr_id r \<in> rr_id ` set (inbox d) \<or> rr_endpoint r \<notin> ep_id ` set (endpoints d) then Inl IntegrityError
      else let d1 = d\<lparr>inbox := inbox d @ [r]\<rparr>; gone = stale_ids (rr_endpoint r) d1
           in Inr (if gone = [] then d1 else d1\<lparr>inbox := filter (\<lambda>x. rr_id x \<notin> set gone) (inbox d1)\<rparr>))"

definition list_inbox :: "uuid \<Rightarrow> nat \<Rightarrow> db \<Rightarrow> received_request list" where
  "list_inbox e limit d = take limit (newest_first request_place (inbox_rows e d))"

section \<open>Facts\<close>

lemma filter_not_dropped:
  assumes "distinct (map f xs)"
  shows "filter (\<lambda>x. f x \<notin> f ` set (drop n xs)) xs = take n xs"
proof -
  have "set (take n (map f xs)) \<inter> set (drop n (map f xs)) = {}"
    using assms by (rule set_take_disj_set_drop_if_distinct) simp
  then have "filter (\<lambda>x. f x \<notin> f ` set (drop n xs)) (take n xs) = take n xs"
    by (auto simp: filter_id_conv take_map drop_map)
  moreover have "filter (\<lambda>x. f x \<notin> f ` set (drop n xs)) (drop n xs) = []"
    by (simp add: filter_empty_conv)
  ultimately show ?thesis
    by (metis append_Nil2 append_take_drop_id filter_append)
qed

lemma distinct_newest: "distinct (map f (newest_first place xs)) \<longleftrightarrow> distinct (map f xs)"
  by (simp add: newest_first_def distinct_map)

lemma record_frame:
  assumes "record_received_request r d = Inr d'"
  shows "\<exists>rs. d' = d\<lparr>inbox := rs\<rparr>" "request_storable r" "rr_id r \<notin> rr_id ` set (inbox d)"
    "inbox d' = filter (\<lambda>x. rr_id x \<notin> set (stale_ids (rr_endpoint r) (d\<lparr>inbox := inbox d @ [r]\<rparr>))) (inbox d @ [r])"
  using assms by (auto simp: record_received_request_def Let_def split: if_splits)

section \<open>Properties\<close>

text \<open>The inbox stays a bounded live tail: after a request is recorded, its endpoint keeps exactly the 20
  newest of its requests including the new one, newest by time and then id; the requests of every other
  endpoint stay as they were, and no table but the inbox changes.\<close>

theorem inbox_bounded:
  assumes "record_received_request r d = Inr d'" "distinct (map rr_id (inbox d))"
  shows "list_inbox (rr_endpoint r) 20 d' = take 20 (newest_first request_place (inbox_rows (rr_endpoint r) d @ [r]))
    \<and> length (inbox_rows (rr_endpoint r) d') \<le> 20
    \<and> (\<forall>f. f \<noteq> rr_endpoint r \<longrightarrow> inbox_rows f d' = inbox_rows f d)
    \<and> distinct (map rr_id (inbox d')) \<and> d' = d\<lparr>inbox := inbox d'\<rparr>"
proof -
  let ?e = "rr_endpoint r"
  let ?L = "newest_first request_place (inbox_rows ?e d @ [r])"
  note rec = record_frame [OF assms(1)]
  have rows: "inbox_rows ?e (d\<lparr>inbox := inbox d @ [r]\<rparr>) = inbox_rows ?e d @ [r]"
    by (simp add: inbox_rows_def)
  have ids: "distinct (map rr_id (inbox d @ [r]))"
    using assms(2) rec(3) by simp
  then have "distinct (map rr_id (filter (\<lambda>x. rr_endpoint x = ?e) (inbox d @ [r])))"
    by (rule distinct_map_filter)
  then have dist: "distinct (map rr_id ?L)"
    using rows unfolding distinct_newest by (simp add: inbox_rows_def del: filter_append)
  have gone: "set (stale_ids ?e (d\<lparr>inbox := inbox d @ [r]\<rparr>)) = rr_id ` set (drop 20 ?L)"
    by (simp add: stale_ids_def rows inbox_keep_def)
  have kept: "inbox_rows ?e d' = filter (\<lambda>x. rr_id x \<notin> rr_id ` set (drop 20 ?L)) (inbox_rows ?e d @ [r])"
    unfolding inbox_rows_def rec(4) gone by (simp add: conj_commute)
  have top: "newest_first request_place (inbox_rows ?e d') = take 20 ?L"
    by (simp only: kept filter_newest_first filter_not_dropped [OF dist])
  have "length (inbox_rows ?e d') = length (take 20 ?L)"
    unfolding top [symmetric] by simp
  moreover have "rr_endpoint x = ?e" if "x \<in> set (drop 20 ?L)" for x
    using in_set_dropD [OF that] by (auto simp: inbox_rows_def)
  then have "inbox_rows f d' = inbox_rows f d" if "f \<noteq> ?e" for f
  proof -
    have "rr_id x \<notin> rr_id ` set (drop 20 ?L)" if "x \<in> set (inbox d)" "rr_endpoint x = f" for x
    proof
      assume "rr_id x \<in> rr_id ` set (drop 20 ?L)"
      then obtain y where y: "y \<in> set (drop 20 ?L)" "rr_id y = rr_id x"
        by auto
      then have y2: "y \<in> set (inbox d @ [r])" "rr_endpoint y = ?e"
        using in_set_dropD [OF y(1)] by (auto simp: inbox_rows_def)
      have "inj_on rr_id (set (inbox d @ [r]))"
        using ids by (simp only: distinct_map)
      moreover have "x \<in> set (inbox d @ [r])"
        using that(1) by simp
      ultimately have "y = x"
        using y2(1) y(2) by (blast dest: inj_onD)
      then show False
        using y2(2) that(2) \<open>f \<noteq> ?e\<close> by simp
    qed
    then have "filter (\<lambda>x. rr_id x \<notin> rr_id ` set (drop 20 ?L)) (inbox_rows f d) = inbox_rows f d"
      unfolding filter_id_conv inbox_rows_def by simp
    moreover have "inbox_rows f d' = filter (\<lambda>x. rr_id x \<notin> rr_id ` set (drop 20 ?L)) (filter (\<lambda>x. rr_endpoint x = f) (inbox d @ [r]))"
      unfolding inbox_rows_def rec(4) gone filter_filter by (simp only: conj_commute)
    moreover have "filter (\<lambda>x. rr_endpoint x = f) (inbox d @ [r]) = inbox_rows f d"
      using that by (simp add: inbox_rows_def)
    ultimately show ?thesis
      by (simp only:)
  qed
  moreover have "distinct (map rr_id (inbox d'))"
    unfolding rec(4) using ids by (rule distinct_map_filter)
  moreover have "d' = d\<lparr>inbox := inbox d'\<rparr>"
    using rec(1) by auto
  ultimately show ?thesis
    by (auto simp: list_inbox_def top)
qed

definition sample_request :: received_request where
  "sample_request = received_row 90 500 2 (ucode ''price.tick'') 1 True 200 None None (ucode ''{}'')"

theorem inbox_bounded_witness:
  "\<exists>d'. record_received_request sample_request (sample_db []) = Inr d' \<and> list_inbox 2 20 d' = [sample_request]"
proof -
  have r: "rr_endpoint sample_request = 2" "rr_id sample_request = 90"
    by (simp_all add: sample_request_def received_row_def)
  have "request_storable sample_request"
    by (simp add: request_storable_def sample_request_def received_row_def text_ok_def max_body_chars_def)
  moreover have "inbox (sample_db []) = []" "2 \<in> ep_id ` set (endpoints (sample_db []))"
    by (simp_all add: sample_db_def empty_db_def sample_endpoint_def)
  ultimately obtain d' where d': "record_received_request sample_request (sample_db []) = Inr d'"
    using r by (simp add: record_received_request_def Let_def)
  have "inbox_rows 2 (sample_db []) = []"
    by (simp add: inbox_rows_def sample_db_def empty_db_def)
  then show ?thesis
    using inbox_bounded [OF d'] r d' by (simp add: sample_db_def empty_db_def newest_first_def)
qed

end
