(* ===== verification/Ingestion.thy ===== *)
theory Ingestion
  imports Samples
begin

text \<open>
  Event ingestion (\<^verbatim>\<open>app/services/event_ingestion.py\<close>): the idempotency lookup, the fan-out and the
  atomic insert. A request reads the database twice: \<open>d1\<close> is what its lookup and its endpoint
  query see, \<open>d2\<close> what its insert meets, with whatever other requests committed in between.
  Clock and UUIDs are arguments. \<open>jsonb\<close> is what PostgreSQL's JSONB column gives back for a stored
  document.
\<close>

section \<open>The request\<close>

definition body_hash :: "utext \<Rightarrow> payload \<Rightarrow> string" where
  "body_hash event_type p =
     (let canonical = dumps_compact (sort_keys (JObj [(ucode ''type'', JStr event_type), (ucode ''payload'', JObj p)]))
      in sha256_hexdigest (encode canonical))"

record ingest_io =
  in_now :: time
  in_event_id :: uuid
  in_delivery_id :: "uuid \<Rightarrow> uuid"
  in_record_id :: uuid
  in_created_at :: time

definition find_idem :: "uuid \<Rightarrow> string \<Rightarrow> db \<Rightarrow> idempotency_record option" where
  "find_idem p k d = find_pk (\<lambda>r. (ir_project r, ir_key r)) (p, k) (idem_records d)"

definition fan_out_targets :: "uuid \<Rightarrow> utext \<Rightarrow> db \<Rightarrow> endpoint list" where
  "fan_out_targets p event_type d =
     filter (\<lambda>e. ep_project e = p \<and> ep_status e = Active \<and> event_type \<in> set (ep_event_types e)) (endpoints d)"

definition new_event :: "(payload \<Rightarrow> payload) \<Rightarrow> ingest_io \<Rightarrow> uuid \<Rightarrow> utext \<Rightarrow> payload \<Rightarrow> string option \<Rightarrow> event" where
  "new_event jsonb io p event_type pl key =
   \<lparr> ev_id = in_event_id io, ev_project = p, ev_type = event_type, ev_payload = jsonb pl,
     ev_idempotency_key = key, ev_created_at = in_created_at io \<rparr>"

definition new_delivery :: "ingest_io \<Rightarrow> endpoint \<Rightarrow> delivery" where
  "new_delivery io e =
   \<lparr> dl_id = in_delivery_id io (ep_id e), dl_event = in_event_id io, dl_endpoint = ep_id e,
     dl_status = Pending, dl_attempt_count = 0, dl_next_attempt_at = in_now io, dl_leased_until = None,
     dl_claimed_by = None, dl_created_at = in_created_at io, dl_updated_at = in_created_at io \<rparr>"

definition new_record :: "ingest_io \<Rightarrow> uuid \<Rightarrow> string \<Rightarrow> int \<Rightarrow> string \<Rightarrow> idempotency_record" where
  "new_record io p key queued h =
   \<lparr> ir_id = in_record_id io, ir_project = p, ir_key = key, ir_event = in_event_id io,
     ir_queued_deliveries = queued, ir_request_hash = h, ir_created_at = in_created_at io \<rparr>"

section \<open>The insert\<close>

text \<open>
  PostgreSQL refuses a NUL character in text and in JSONB, and text longer than its column.
\<close>

fun json_has_nul :: "json \<Rightarrow> bool" where
  "json_has_nul (JStr s) \<longleftrightarrow> 0 \<in> set s"
| "json_has_nul (JArr xs) \<longleftrightarrow> list_ex json_has_nul xs"
| "json_has_nul (JObj kvs) \<longleftrightarrow> list_ex (\<lambda>(k, v). 0 \<in> set k \<or> json_has_nul v) kvs"
| "json_has_nul _ \<longleftrightarrow> False"

definition event_storable :: "utext \<Rightarrow> payload \<Rightarrow> string option \<Rightarrow> bool" where
  "event_storable event_type pl key \<longleftrightarrow>
     0 \<notin> set event_type \<and> length event_type \<le> 255 \<and> \<not> json_has_nul (JObj pl)
     \<and> (case key of None \<Rightarrow> True | Some k \<Rightarrow> length k \<le> 255 \<and> CHR 0x00 \<notin> set k)"

text \<open>
  The constraints the insert is checked against: the project and the endpoints exist, the new keys
  are new, and the idempotency key is unused in the project.
\<close>

definition insert_ok :: "event \<Rightarrow> delivery list \<Rightarrow> idempotency_record option \<Rightarrow> db \<Rightarrow> bool" where
  "insert_ok ev dls rc d \<longleftrightarrow>
     ev_project ev \<in> pj_id ` set (projects d) \<and> ev_id ev \<notin> ev_id ` set (events d)
     \<and> dl_endpoint ` set dls \<subseteq> ep_id ` set (endpoints d)
     \<and> distinct (map dl_id dls) \<and> dl_id ` set dls \<inter> dl_id ` set (deliveries d) = {}
     \<and> (case rc of None \<Rightarrow> True | Some r \<Rightarrow> find_idem (ir_project r) (ir_key r) d = None
           \<and> ir_id r \<notin> ir_id ` set (idem_records d))"

definition insert_event :: "event \<Rightarrow> delivery list \<Rightarrow> idempotency_record option \<Rightarrow> db \<Rightarrow> db" where
  "insert_event ev dls rc d =
     d\<lparr>events := events d @ [ev], deliveries := deliveries d @ dls,
       idem_records := idem_records d @ (case rc of None \<Rightarrow> [] | Some r \<Rightarrow> [r])\<rparr>"

section \<open>The operation\<close>

definition conflict_409 :: py_exc where
  "conflict_409 = HTTPException 409 ''Idempotency-Key reused with a different request body''"

definition replay :: "idempotency_record \<Rightarrow> string \<Rightarrow> py_exc + uuid \<times> int" where
  "replay r h =
     (if ir_request_hash r \<noteq> h then Inl conflict_409 else Inr (ir_event r, ir_queued_deliveries r))"

text \<open>
  The answer, the database afterwards (the caller commits it, or rolls back when an exception
  escapes) and whether the workers are notified.
\<close>

definition ingest_event ::
  "(payload \<Rightarrow> payload) \<Rightarrow> ingest_io \<Rightarrow> uuid \<Rightarrow> utext \<Rightarrow> payload \<Rightarrow> string option \<Rightarrow> db \<Rightarrow> db
   \<Rightarrow> (py_exc + uuid \<times> int) \<times> db \<times> bool" where
  "ingest_event jsonb io p event_type pl key d1 d2 =
     (let h = body_hash event_type pl
      in case (case key of None \<Rightarrow> None | Some k \<Rightarrow> find_idem p k d1) of
           Some r \<Rightarrow> (replay r h, d2, False)
         | None \<Rightarrow>
             (let ev = new_event jsonb io p event_type pl key;
                  dls = map (new_delivery io) (fan_out_targets p event_type d1);
                  queued = int (length dls)
              in case key of
                   None \<Rightarrow>
                     if \<not> event_storable event_type pl None then (Inl DataError, d2, False)
                     else if insert_ok ev dls None d2
                     then (Inr (in_event_id io, queued), insert_event ev dls None d2, 0 < queued)
                     else (Inl IntegrityError, d2, False)
                 | Some k \<Rightarrow>
                     (let rc = new_record io p k queued h
                      in if \<not> event_storable event_type pl (Some k) then (Inl DataError, d2, False)
                         else if insert_ok ev dls (Some rc) d2
                         then (Inr (in_event_id io, queued), insert_event ev dls (Some rc) d2, 0 < queued)
                         else case find_idem p k d2 of
                             None \<Rightarrow> (Inl NoResultFound, d2, False)
                           | Some r \<Rightarrow> (replay r h, d2, False))))"

section \<open>Cases\<close>

lemma new_delivery_endpoint [simp]: "dl_endpoint (new_delivery io e) = ep_id e"
  by (simp add: new_delivery_def)

lemma map_new_delivery_endpoint [simp]: "map (dl_endpoint \<circ> new_delivery io) es = map ep_id es"
  by simp

lemma ingest_existing:
  assumes "find_idem p k d1 = Some r"
  shows "ingest_event jsonb io p ty pl (Some k) d1 d2 = (replay r (body_hash ty pl), d2, False)"
  using assms by (simp add: ingest_event_def)

lemma ingest_db:
  assumes "ingest_event jsonb io p ty pl key d1 d2 = (r, d', b)"
  shows "d' = d2 \<and> \<not> b
    \<or> r = Inr (in_event_id io, int (length (fan_out_targets p ty d1)))
      \<and> (\<exists>rc. insert_ok (new_event jsonb io p ty pl key) (map (new_delivery io) (fan_out_targets p ty d1)) rc d2
           \<and> rc = map_option (\<lambda>k. new_record io p k (int (length (fan_out_targets p ty d1))) (body_hash ty pl)) key
           \<and> d' = insert_event (new_event jsonb io p ty pl key)
                (map (new_delivery io) (fan_out_targets p ty d1)) rc d2)"
  using assms
  by (auto simp: ingest_event_def Let_def split: option.splits if_splits)

lemma find_idem_insert [row_simps]:
  "find_idem p k (insert_event ev dls rc d) =
     (case find_idem p k d of
        Some r \<Rightarrow> Some r
      | None \<Rightarrow> (case rc of None \<Rightarrow> None
                 | Some r \<Rightarrow> if (ir_project r, ir_key r) = (p, k) then Some r else None))"
  by (auto simp: find_idem_def insert_event_def find_pk_append split: option.splits)

text \<open>The hash does not depend on the order of the payload's keys.\<close>

lemma body_hash_perm:
  assumes "distinct (map fst pl)" "distinct (map fst pl')" "set pl = set pl'"
  shows "body_hash ty pl = body_hash ty pl'"
proof -
  have "sort_keys (JObj pl) = sort_keys (JObj pl')"
    using assms by (rule sort_keys_obj_perm)
  then show ?thesis
    by (simp add: body_hash_def)
qed

section \<open>A request in the sample world\<close>

definition sample_in :: ingest_io where
  "sample_in = \<lparr> in_now = 100, in_event_id = 50, in_delivery_id = (\<lambda>i. i + 100), in_record_id = 70, in_created_at = 100 \<rparr>"

lemma sample_targets:
  "fan_out_targets 1 sample_type (sample_db xs) = [sample_endpoint, private_endpoint, broken_endpoint]"
  by (simp add: fan_out_targets_def sample_db_def sample_endpoint_def private_endpoint_def broken_endpoint_def)

lemma sample_no_idem: "find_idem p k (sample_db xs) = None"
  by (simp add: find_idem_def sample_db_def empty_db_def)

lemma sample_storable: "event_storable sample_type [] (Some ''k'')"
  by (simp add: event_storable_def sample_type_def ucode_def)

lemma sample_ingest:
  "\<exists>d'. ingest_event id sample_in 1 sample_type [] (Some ''k'') (sample_db []) (sample_db [])
     = (Inr (50, 3), d', True)"
proof -
  have "insert_ok (new_event id sample_in 1 sample_type [] (Some ''k''))
      (map (new_delivery sample_in) [sample_endpoint, private_endpoint, broken_endpoint])
      (Some (new_record sample_in 1 ''k'' 3 h)) (sample_db [])" for h
    by (simp add: insert_ok_def sample_no_idem)
       (simp add: new_event_def new_delivery_def new_record_def sample_in_def sample_db_def sample_project_def
        sample_event_def sample_endpoint_def private_endpoint_def broken_endpoint_def empty_db_def)
  then show ?thesis
    using sample_storable by (simp add: ingest_event_def sample_no_idem sample_targets Let_def sample_in_def)
qed

section \<open>Properties\<close>

text \<open>C6: A first request that is stored fans out exactly: it adds one event, and for every active
  endpoint of the project subscribed to the type one pending delivery due at once with no attempts,
  and nothing else; it answers the event's id and the number of deliveries, and wakes the workers
  when there is one.\<close>

theorem ingest_fan_out:
  assumes "ingest_event jsonb io p ty pl key d d = (Inr (e, n), d', b)"
    and "\<forall>k. key = Some k \<longrightarrow> find_idem p k d = None"
  shows "e = in_event_id io \<and> n = int (length (fan_out_targets p ty d)) \<and> (b \<longleftrightarrow> 0 < n)
    \<and> events d' = events d @ [new_event jsonb io p ty pl key]
    \<and> (\<exists>new. deliveries d' = deliveries d @ new
         \<and> map dl_endpoint new = map ep_id (filter (\<lambda>ep. ep_project ep = p \<and> ep_status ep = Active
              \<and> ty \<in> set (ep_event_types ep)) (endpoints d))
         \<and> (\<forall>x \<in> set new. dl_event x = e \<and> due (in_now io) x \<and> dl_attempt_count x = 0)
         \<and> distinct (map dl_id new) \<and> dl_id ` set new \<inter> dl_id ` set (deliveries d) = {})"
proof -
  let ?t = "fan_out_targets p ty d"
  let ?new = "map (new_delivery io) ?t"
  have "(case key of None \<Rightarrow> None | Some k \<Rightarrow> find_idem p k d) = None"
    using assms(2) by (cases key) auto
  then obtain rc where r: "e = in_event_id io" "n = int (length ?t)" "b \<longleftrightarrow> 0 < n"
    and ok: "insert_ok (new_event jsonb io p ty pl key) ?new rc d"
    and d': "d' = insert_event (new_event jsonb io p ty pl key) ?new rc d"
    using assms(1) by (auto simp: ingest_event_def Let_def split: option.splits if_splits)
  have "map dl_endpoint ?new = map ep_id ?t"
    by simp
  moreover have "\<forall>x \<in> set ?new. dl_event x = e \<and> due (in_now io) x \<and> dl_attempt_count x = 0"
    using r(1) by (auto simp: new_delivery_def due_def)
  moreover have "distinct (map dl_id ?new) \<and> dl_id ` set ?new \<inter> dl_id ` set (deliveries d) = {}"
    using ok by (simp only: insert_ok_def)
  moreover have "deliveries d' = deliveries d @ ?new" "events d' = events d @ [new_event jsonb io p ty pl key]"
    by (simp_all add: d' insert_event_def)
  ultimately show ?thesis
    using r unfolding fan_out_targets_def [symmetric] by blast
qed

theorem ingest_fan_out_witness:
  "\<exists>d' new. ingest_event id sample_in 1 sample_type [] (Some ''k'') (sample_db []) (sample_db [])
       = (Inr (50, 3), d', True)
     \<and> deliveries d' = new \<and> map dl_endpoint new = [2, 3, 4] \<and> (\<forall>x \<in> set new. dl_event x = 50 \<and> due 100 x)"
proof -
  obtain d' where i: "ingest_event id sample_in 1 sample_type [] (Some ''k'') (sample_db []) (sample_db [])
      = (Inr (50, 3), d', True)"
    using sample_ingest by blast
  have ids: "map ep_id (filter (\<lambda>ep. ep_project ep = 1 \<and> ep_status ep = Active
      \<and> sample_type \<in> set (ep_event_types ep)) (endpoints (sample_db []))) = [2, 3, 4]"
    using sample_targets [of "[]"] unfolding fan_out_targets_def
    by (simp add: sample_endpoint_def private_endpoint_def broken_endpoint_def)
  have "\<exists>new. deliveries d' = deliveries (sample_db []) @ new \<and> map dl_endpoint new = [2, 3, 4]
      \<and> (\<forall>x \<in> set new. dl_event x = 50 \<and> due (in_now sample_in) x)"
  proof -
    have "\<forall>k. Some ''k'' = Some k \<longrightarrow> find_idem 1 k (sample_db []) = None"
      by (simp add: sample_no_idem)
    from ingest_fan_out [OF i this] obtain new where "deliveries d' = deliveries (sample_db []) @ new"
      "map dl_endpoint new = [2, 3, 4]"
      "\<forall>x \<in> set new. dl_event x = 50 \<and> due (in_now sample_in) x \<and> dl_attempt_count x = 0"
      unfolding ids by (elim conjE exE)
    then show ?thesis
      by (intro exI [of _ new]) simp
  qed
  moreover have "in_now sample_in = 100"
    by (simp add: sample_in_def)
  ultimately show ?thesis
    using i by auto
qed

text \<open>C8: A request is idempotent under its key: once a record for the project and key exists, every
  later request with the same body, whatever the order of the payload's keys, is answered with the
  recorded event and count, and one with a body that hashes differently is refused with 409; neither
  changes the database or wakes a worker.\<close>

theorem ingest_idempotent:
  assumes "find_idem p k d1 = Some r" "ir_request_hash r = body_hash ty pl"
    and "distinct (map fst pl)" "distinct (map fst pl')" "set pl' = set pl"
  shows "ingest_event jsonb io p ty pl' (Some k) d1 d2 = (Inr (ir_event r, ir_queued_deliveries r), d2, False)
    \<and> (body_hash ty2 pl2 \<noteq> body_hash ty pl \<longrightarrow>
         ingest_event jsonb io2 p ty2 pl2 (Some k) d1 d2 = (Inl conflict_409, d2, False))"
  using assms body_hash_perm [OF assms(3,4), of ty]
  by (simp add: ingest_existing replay_def)

theorem ingest_idempotent_witness:
  "let h = body_hash (ucode ''t'') [(ucode ''a'', JInt 1), (ucode ''b'', JInt 2)];
       d = (sample_db [])\<lparr>idem_records := [new_record sample_in 1 ''k'' 3 h]\<rparr>
   in ingest_event id sample_in 1 (ucode ''t'') [(ucode ''b'', JInt 2), (ucode ''a'', JInt 1)] (Some ''k'') d d
        = (Inr (50, 3), d, False)"
proof -
  let ?pl = "[(ucode ''a'', JInt 1), (ucode ''b'', JInt 2)]"
  let ?r = "new_record sample_in 1 ''k'' 3 (body_hash (ucode ''t'') ?pl)"
  let ?d = "(sample_db [])\<lparr>idem_records := [?r]\<rparr>"
  have "find_idem 1 ''k'' ?d = Some ?r" "ir_request_hash ?r = body_hash (ucode ''t'') ?pl"
    "ir_event ?r = 50" "ir_queued_deliveries ?r = 3"
    by (simp_all add: find_idem_def new_record_def sample_in_def)
  then show ?thesis
    using ingest_idempotent [of 1 "''k''" ?d ?r "ucode ''t''" ?pl
        "[(ucode ''b'', JInt 2), (ucode ''a'', JInt 1)]" id sample_in ?d]
    by (simp add: ucode_def Let_def insert_commute)
qed

text \<open>C4: Two concurrent requests with one key create one event: both pass the lookup, the first insert
  commits, and the second is rolled back to its savepoint and answers with the winner's event and
  count when its body is the same, with 409 when it is not; its event and deliveries leave no trace.\<close>

theorem ingest_race:
  assumes "find_idem p k d = None"
    and "ingest_event jsonb io1 p ty1 pl1 (Some k) d d = (Inr (e, n), d1, b)"
    and "event_storable ty2 pl2 (Some k)"
  shows "ingest_event jsonb io2 p ty2 pl2 (Some k) d d1 =
    (if body_hash ty2 pl2 = body_hash ty1 pl1 then Inr (e, n) else Inl conflict_409, d1, False)"
proof -
  let ?ev = "new_event jsonb io1 p ty1 pl1 (Some k)" and ?dls = "map (new_delivery io1) (fan_out_targets p ty1 d)"
  let ?rc = "new_record io1 p k n (body_hash ty1 pl1)"
  have "e = in_event_id io1" "d1 = insert_event ?ev ?dls (Some ?rc) d"
    using assms(1,2) by (auto simp: ingest_event_def Let_def split: option.splits if_splits)
  then have f: "find_idem p k d1 = Some ?rc" and e: "ir_event ?rc = e"
    using assms(1) by (simp_all add: find_idem_insert new_record_def)
  then have "\<not> insert_ok ev dls (Some (new_record io2 p k m h)) d1" for ev dls m h
    by (simp add: insert_ok_def new_record_def)
  then show ?thesis
    using assms(1,3) f e by (auto simp: ingest_event_def Let_def replay_def new_record_def)
qed

theorem ingest_race_witness:
  "\<exists>d1. ingest_event id sample_in 1 sample_type [] (Some ''k'') (sample_db []) (sample_db [])
       = (Inr (50, 3), d1, True)
     \<and> ingest_event id (sample_in\<lparr>in_event_id := 51\<rparr>) 1 sample_type [] (Some ''k'') (sample_db []) d1
       = (Inr (50, 3), d1, False)"
  using sample_ingest ingest_race [OF sample_no_idem _ sample_storable] by fastforce

text \<open>C13: Not every integrity error of the savepoint is a lost race: when an endpoint the fan-out selected
  is deleted before the insert, the foreign key fails, no idempotency record exists to re-read, and the
  request escapes with NoResultFound instead of an answer.\<close>

theorem ingest_deleted_endpoint:
  assumes "find_idem p k d1 = None" "find_idem p k d2 = None" "event_storable ty pl (Some k)"
    and "x \<in> set (fan_out_targets p ty d1)" "find_endpoint (ep_id x) d2 = None"
  shows "ingest_event jsonb io p ty pl (Some k) d1 d2 = (Inl NoResultFound, d2, False)"
proof -
  have "\<not> insert_ok ev (map (new_delivery io) (fan_out_targets p ty d1)) rc d2" for ev rc
  proof
    assume "insert_ok ev (map (new_delivery io) (fan_out_targets p ty d1)) rc d2"
    then have "dl_endpoint ` new_delivery io ` set (fan_out_targets p ty d1) \<subseteq> ep_id ` set (endpoints d2)"
      by (simp add: insert_ok_def)
    moreover have "ep_id x \<in> dl_endpoint ` new_delivery io ` set (fan_out_targets p ty d1)"
      using assms(4) by (auto simp: image_image)
    ultimately have "ep_id x \<in> ep_id ` set (endpoints d2)"
      by blast
    then show False
      using assms(5) by (simp add: find_endpoint_def find_pk_None)
  qed
  then show ?thesis
    using assms by (simp add: ingest_event_def Let_def)
qed

theorem ingest_deleted_endpoint_witness:
  "ingest_event id sample_in 1 sample_type [] (Some ''k'') (sample_db [])
     ((sample_db [])\<lparr>endpoints := []\<rparr>) = (Inl NoResultFound, (sample_db [])\<lparr>endpoints := []\<rparr>, False)"
proof -
  have "find_idem 1 ''k'' ((sample_db [])\<lparr>endpoints := []\<rparr>) = None"
    using sample_no_idem [of 1 "''k''" "[]"] by (simp add: find_idem_def)
  moreover have "sample_endpoint \<in> set (fan_out_targets 1 sample_type (sample_db []))"
    by (simp add: sample_targets)
  moreover have "find_endpoint (ep_id sample_endpoint) ((sample_db [])\<lparr>endpoints := []\<rparr>) = None"
    by (simp add: find_endpoint_def)
  ultimately show ?thesis
    using ingest_deleted_endpoint [OF sample_no_idem _ sample_storable] by blast
qed

end
