(* ===== verification/Events.thy ===== *)
theory Events
  imports Deliveries Ingestion Endpoints "HOL-Library.Multiset"
begin

text \<open>
  The event routes (\<^verbatim>\<open>app/routers/events.py\<close>, \<^verbatim>\<open>app/schemas/event.py\<close>): the checks of the publish
  body, the publish route around the ingestion, the paged list with delivery counts, and the detail
  view with an event's deliveries.
\<close>

section \<open>Publishing\<close>

definition event_create_ok :: "settings \<Rightarrow> utext \<Rightarrow> payload \<Rightarrow> bool" where
  "event_create_ok st ty pl \<longleftrightarrow>
     1 \<le> length ty \<and> length ty \<le> 255 \<and> event_type_ok ty
     \<and> int (length (encode (dumps_compact (JObj pl)))) \<le> max_event_payload_bytes st"

definition publish_event ::
  "settings \<Rightarrow> (payload \<Rightarrow> payload) \<Rightarrow> ingest_io \<Rightarrow> uuid \<Rightarrow> utext \<Rightarrow> payload \<Rightarrow> string option \<Rightarrow> db \<Rightarrow> db
   \<Rightarrow> (py_exc + uuid \<times> int) \<times> db \<times> bool" where
  "publish_event st jsonb io p ty pl key d1 d2 =
     (if \<not> event_create_ok st ty pl then (Inl (HTTPException 422 ''body''), d2, False)
      else ingest_event jsonb io p ty pl key d1 d2)"

section \<open>Inspection\<close>

record event_item =
  ei_id :: uuid
  ei_type :: utext
  ei_payload :: payload
  ei_created_at :: time
  ei_delivery_count :: int

definition event_deliveries :: "db \<Rightarrow> event \<Rightarrow> delivery list" where
  "event_deliveries d e = sort_key dl_created_at (filter (\<lambda>x. dl_event x = ev_id e) (deliveries d))"

definition event_item_view :: "db \<Rightarrow> event \<Rightarrow> event_item" where
  "event_item_view d e =
   \<lparr> ei_id = ev_id e, ei_type = ev_type e, ei_payload = ev_payload e, ei_created_at = ev_created_at e,
     ei_delivery_count = int (length (event_deliveries d e)) \<rparr>"

definition event_matches ::
  "int \<Rightarrow> uuid \<Rightarrow> utext option \<Rightarrow> datetime option \<Rightarrow> datetime option \<Rightarrow> event \<Rightarrow> bool" where
  "event_matches tz p ty after before e \<longleftrightarrow>
     ev_project e = p \<and> (case ty of None \<Rightarrow> True | Some t \<Rightarrow> ev_type e = t)
     \<and> in_range tz after before (ev_created_at e)"

definition event_place :: "event \<Rightarrow> place" where
  "event_place e = (ev_created_at e, ev_id e)"

definition list_events ::
  "int \<Rightarrow> uuid \<Rightarrow> utext option \<Rightarrow> datetime option \<Rightarrow> datetime option \<Rightarrow> int \<Rightarrow> db \<Rightarrow> string option
   \<Rightarrow> py_exc + event_item list \<times> string option" where
  "list_events tz p ty after before limit d cursor =
     (if \<not> limit_ok 100 limit then Inl (HTTPException 422 ''limit'')
      else bind_exc (check_range after before) (\<lambda>_.
        bind_exc (list_page event_place tz (nat limit) cursor (filter (event_matches tz p ty after before) (events d)))
          (\<lambda>(page, next_cursor). Inr (map (event_item_view d) page, next_cursor))))"

record event_detail =
  ed_id :: uuid
  ed_project :: uuid
  ed_type :: utext
  ed_payload :: payload
  ed_idempotency_key :: "string option"
  ed_created_at :: time
  ed_deliveries :: "delivery_response list"

definition event_detail_view :: "db \<Rightarrow> event \<Rightarrow> event_detail" where
  "event_detail_view d e =
   \<lparr> ed_id = ev_id e, ed_project = ev_project e, ed_type = ev_type e, ed_payload = ev_payload e,
     ed_idempotency_key = ev_idempotency_key e, ed_created_at = ev_created_at e,
     ed_deliveries = map delivery_view (event_deliveries d e) \<rparr>"

definition get_event :: "uuid \<Rightarrow> uuid \<Rightarrow> db \<Rightarrow> py_exc + event_detail" where
  "get_event i p d =
     (case find_event i d of
        None \<Rightarrow> Inl (http_404 ''Event not found'')
      | Some e \<Rightarrow> if ev_project e = p then Inr (event_detail_view d e) else Inl (http_404 ''Event not found''))"

section \<open>Listing as an instance of the paging interface\<close>

interpretation event_pages:
  paged "rows_pageable event_place" "newest_first event_place" "\<lambda>rs n c. list_page event_place tz n c rs"
    "string_position event_place tz"
  for tz by (rule list_page_paged)

lemma fetch_events:
  assumes "rows_pageable event_place (events d)" "limit_ok 100 limit" "check_range after before = Inr ()"
    and "length (events d) < fuel"
  shows "fetch_all fuel (list_events tz p ty after before limit d) None
    = Some (Inr (map (event_item_view d) (newest_first event_place (filter (event_matches tz p ty after before) (events d)))))"
proof -
  let ?rs = "filter (event_matches tz p ty after before) (events d)"
  have "list_events tz p ty after before limit d c
      = bind_exc (list_page event_place tz (nat limit) c ?rs) (\<lambda>(page, nx). Inr (map (event_item_view d) page, nx))" for c
    using assms(2,3) by (simp add: list_events_def)
  then have "fetch_all fuel (list_events tz p ty after before limit d) None
      = map_option (\<lambda>r. bind_exc r (\<lambda>rows. Inr (map (event_item_view d) rows)))
          (fetch_all fuel (\<lambda>c. list_page event_place tz (nat limit) c ?rs) None)"
    by (rule fetch_all_map)
  moreover have "length (newest_first event_place ?rs) < fuel"
    using le_less_trans [OF length_filter_le assms(4)] by simp
  ultimately show ?thesis
    using event_pages.fetch_everything [OF pageable_filter [OF assms(1)], where n = "nat limit" and fuel = fuel] assms(2)
    by (simp add: limit_ok_def)
qed

section \<open>Facts about publishing\<close>

lemma publish_first:
  assumes "publish_event st jsonb io p ty pl key d d = (Inr (e, n), d', b)"
    and "\<forall>k. key = Some k \<longrightarrow> find_idem p k d = None"
  obtains rc where "e = in_event_id io" "n = int (length (fan_out_targets p ty d))" "event_create_ok st ty pl"
    and "insert_ok (new_event jsonb io p ty pl key) (map (new_delivery io) (fan_out_targets p ty d)) rc d"
    and "d' = insert_event (new_event jsonb io p ty pl key) (map (new_delivery io) (fan_out_targets p ty d)) rc d"
proof -
  have "(case key of None \<Rightarrow> None | Some k \<Rightarrow> find_idem p k d) = None"
    using assms(2) by (cases key) auto
  then show ?thesis
    using assms(1) by (auto simp: publish_event_def ingest_event_def Let_def split: option.splits if_splits intro: that)
qed

lemma find_event_inserted:
  assumes "ev_id ev \<notin> ev_id ` set (events d)"
  shows "find_event (ev_id ev) (insert_event ev dls rc d) = Some ev"
proof -
  have "find_pk ev_id (ev_id ev) (events d) = None"
    using assms by (simp add: find_pk_None)
  then show ?thesis
    by (simp add: find_event_def insert_event_def find_pk_append)
qed

lemma deliveries_of_new:
  assumes "\<forall>x \<in> set (deliveries d). dl_event x \<in> ev_id ` set (events d)" "ev_id ev \<notin> ev_id ` set (events d)"
    and "\<forall>x \<in> set dls. dl_event x = ev_id ev"
  shows "event_deliveries (insert_event ev dls rc d) ev = sort_key dl_created_at dls"
proof -
  have "\<forall>x \<in> set (deliveries d). dl_event x \<noteq> ev_id ev"
    using assms(1,2) by metis
  then have "filter (\<lambda>x. dl_event x = ev_id ev) (deliveries d) = []" "filter (\<lambda>x. dl_event x = ev_id ev) dls = dls"
    using assms(3) by (simp_all add: filter_empty_conv filter_id_conv)
  then show ?thesis
    by (simp add: event_deliveries_def insert_event_def)
qed

lemma sample_publish:
  "\<exists>d'. publish_event default_settings id sample_in 1 sample_type [] (Some ''k'') (sample_db []) (sample_db [])
      = (Inr (50, 3), d', True)"
proof -
  have "event_create_ok default_settings sample_type []"
    by (simp add: event_create_ok_def event_type_ok_def sample_type_def reserved_prefix_def is_space_point_def
        default_settings_def encode_def utf8_point_def code_def)
  then show ?thesis
    using sample_ingest by (simp add: publish_event_def)
qed

section \<open>Properties\<close>

text \<open>A published event can be inspected at once, by its project alone: the detail view shows the type,
  the stored payload and the key it was sent with, and one pending delivery without attempts for each
  endpoint of the fan-out, as many as the publish answered; another project gets 404.\<close>

theorem published_event_shown:
  assumes "publish_event st jsonb io p ty pl key d d = (Inr (e, n), d', b)"
    and "\<forall>k. key = Some k \<longrightarrow> find_idem p k d = None"
    and "\<forall>x \<in> set (deliveries d). dl_event x \<in> ev_id ` set (events d)"
  shows "(\<exists>v. get_event e p d' = Inr v \<and> ed_type v = ty \<and> ed_payload v = jsonb pl \<and> ed_idempotency_key v = key
      \<and> int (length (ed_deliveries v)) = n
      \<and> mset (map dr_endpoint (ed_deliveries v)) = mset (map ep_id (fan_out_targets p ty d))
      \<and> (\<forall>r \<in> set (ed_deliveries v). dr_event r = e \<and> dr_status r = Pending \<and> dr_attempt_count r = 0))
    \<and> (\<forall>q. q \<noteq> p \<longrightarrow> get_event e q d' = Inl (http_404 ''Event not found''))"
proof -
  let ?ev = "new_event jsonb io p ty pl key" and ?dls = "map (new_delivery io) (fan_out_targets p ty d)"
  obtain rc where r: "e = in_event_id io" "n = int (length (fan_out_targets p ty d))"
    and ok: "insert_ok ?ev ?dls rc d" and d': "d' = insert_event ?ev ?dls rc d"
    using assms(1,2) by (rule publish_first)
  have new: "ev_id ?ev \<notin> ev_id ` set (events d)" and e: "ev_id ?ev = e"
    using ok r(1) by (simp_all add: insert_ok_def new_event_def)
  have found: "find_event e d' = Some ?ev"
    using find_event_inserted [OF new] e d' by simp
  have "\<forall>x \<in> set ?dls. dl_event x = ev_id ?ev"
    using e r(1) by (auto simp: new_delivery_def)
  then have "event_deliveries d' ?ev = sort_key dl_created_at ?dls"
    using deliveries_of_new [OF assms(3) new] d' by simp
  then have v: "get_event e p d' = Inr (event_detail_view d' ?ev)"
    "ed_deliveries (event_detail_view d' ?ev) = map delivery_view (sort_key dl_created_at ?dls)"
    using found by (simp_all add: get_event_def event_detail_view_def new_event_def)
  have "mset (map dr_endpoint (ed_deliveries (event_detail_view d' ?ev))) = mset (map ep_id (fan_out_targets p ty d))"
    unfolding v by (simp add: delivery_view_def comp_def image_mset.compositionality)
  moreover have "\<forall>x \<in> set (ed_deliveries (event_detail_view d' ?ev)). dr_event x = e \<and> dr_status x = Pending \<and> dr_attempt_count x = 0"
    unfolding v using r(1) by (auto simp: delivery_view_def new_delivery_def)
  moreover have "\<forall>q. q \<noteq> p \<longrightarrow> get_event e q d' = Inl (http_404 ''Event not found'')"
    using found by (simp add: get_event_def new_event_def)
  moreover have "ed_type (event_detail_view d' ?ev) = ty" "ed_payload (event_detail_view d' ?ev) = jsonb pl"
    "ed_idempotency_key (event_detail_view d' ?ev) = key"
    by (simp_all add: event_detail_view_def new_event_def)
  moreover have "int (length (ed_deliveries (event_detail_view d' ?ev))) = n"
    unfolding v by (simp add: r(2))
  ultimately show ?thesis
    using v(1) by blast
qed

theorem published_event_shown_witness:
  "\<exists>d' v. publish_event default_settings id sample_in 1 sample_type [] (Some ''k'') (sample_db []) (sample_db [])
      = (Inr (50, 3), d', True)
    \<and> get_event 50 1 d' = Inr v \<and> ed_type v = sample_type \<and> length (ed_deliveries v) = 3
    \<and> get_event 50 2 d' = Inl (http_404 ''Event not found'')"
proof -
  obtain d' where p: "publish_event default_settings id sample_in 1 sample_type [] (Some ''k'') (sample_db []) (sample_db [])
      = (Inr (50, 3), d', True)"
    using sample_publish by blast
  then show ?thesis
    using published_event_shown [OF p] sample_no_idem by fastforce
qed

text \<open>The reserved namespace and the size limit hold for every stored event: when a publish changes the
  database, the type is 1 to 255 characters, not blank and not prefixed with two underscores, and the
  compact JSON of the payload is within the configured bytes; every refused body leaves the database
  as it was and wakes no worker.\<close>

theorem published_type_ok:
  assumes "publish_event st jsonb io p ty pl key d1 d2 = (r, d', b)"
  shows "if d' = d2 then \<not> b else (\<exists>ev. ev \<in> set (events d') - set (events d2) \<and> ev_type ev = ty)
      \<and> take 2 ty \<noteq> ucode ''__'' \<and> ty \<noteq> [] \<and> length ty \<le> 255
      \<and> int (length (encode (dumps_compact (JObj pl)))) \<le> max_event_payload_bytes st"
proof (cases "d' = d2")
  case True
  then show ?thesis
    using assms by (auto simp: publish_event_def ingest_event_def Let_def insert_event_def split: option.splits if_splits
        dest!: arg_cong [where f = events])
next
  case False
  then have c: "event_create_ok st ty pl" and i: "ingest_event jsonb io p ty pl key d1 d2 = (r, d', b)"
    using assms by (auto simp: publish_event_def split: if_splits)
  then obtain rc where ok: "insert_ok (new_event jsonb io p ty pl key) (map (new_delivery io) (fan_out_targets p ty d1)) rc d2"
    and d': "d' = insert_event (new_event jsonb io p ty pl key) (map (new_delivery io) (fan_out_targets p ty d1)) rc d2"
    using ingest_db [OF i] False by blast
  let ?ev = "new_event jsonb io p ty pl key"
  have "ev_id ?ev \<notin> ev_id ` set (events d2)"
    using ok unfolding insert_ok_def by blast
  then have "?ev \<notin> set (events d2)"
    by blast
  then have "?ev \<in> set (events d') - set (events d2) \<and> ev_type ?ev = ty"
    using d' by (simp add: insert_event_def) (simp add: new_event_def)
  then show ?thesis
    using c False by (auto simp: event_create_ok_def event_type_ok_def reserved_prefix_def ucode_def)
qed

theorem published_type_ok_witness:
  "\<exists>d'. publish_event default_settings id sample_in 1 sample_type [] (Some ''k'') (sample_db []) (sample_db [])
      = (Inr (50, 3), d', True) \<and> take 2 sample_type \<noteq> ucode ''__'' \<and> (\<exists>ev. ev \<in> set (events d') \<and> ev_type ev = sample_type)"
proof -
  obtain d' where p: "publish_event default_settings id sample_in 1 sample_type [] (Some ''k'') (sample_db []) (sample_db [])
      = (Inr (50, 3), d', True)"
    using sample_publish by blast
  then show ?thesis
    using published_type_ok [OF p] by (auto split: if_splits)
qed

end
