(* ===== verification/Ledger.thy ===== *)
theory Ledger
  imports Inbox Events
begin

text \<open>
  The two-banks ledger (\<^verbatim>\<open>app/services/showcase_ledger.py\<close>). Money is an integer of cents. A naive
  apply reads and writes the balance in two steps, so that deliveries can interleave between them; a
  safe apply is one step, since its insert into the processed table and its row lock serialise it.
  \<open>jtext\<close> is the text PostgreSQL gives for a JSON value that is neither a string nor null, \<open>tmax\<close> its
  \<^verbatim>\<open>MAX\<close> over text, which depends on the database's collation.
\<close>

section \<open>Constants and modes\<close>

definition starting_balance :: int where
  "starting_balance = 1000000"

definition trade_executed :: utext where
  "trade_executed = ucode ''trade.executed''"

datatype bank_mode = Healthy | Flaky | Down

definition mode_value :: "bank_mode \<Rightarrow> string" where
  "mode_value m = (case m of Healthy \<Rightarrow> ''healthy'' | Flaky \<Rightarrow> ''flaky'' | Down \<Rightarrow> ''down'')"

definition get_bank_mode :: "uuid \<Rightarrow> db \<Rightarrow> bank_mode" where
  "get_bank_mode e d =
     (case find_health e d of
        None \<Rightarrow> Healthy
      | Some r \<Rightarrow> if rh_mode r = ''flaky'' then Flaky else if rh_mode r = ''down'' then Down else Healthy)"

definition set_bank_mode :: "uuid \<Rightarrow> bank_mode \<Rightarrow> time \<Rightarrow> db \<Rightarrow> py_exc + db" where
  "set_bank_mode e m now d =
     (case find_health e d of
        None \<Rightarrow>
          if e \<notin> ep_id ` set (endpoints d) then Inl IntegrityError
          else Inr (d\<lparr>healths := healths d @ [\<lparr> rh_endpoint = e, rh_healthy = True, rh_mode = mode_value m, rh_updated_at = now \<rparr>]\<rparr>)
      | Some r \<Rightarrow>
          if rh_mode r = mode_value m then Inr d
          else Inr (put_health (r\<lparr>rh_mode := mode_value m, rh_updated_at := now\<rparr>) d))"

section \<open>Reading a trade\<close>

record parsed_trade =
  tr_account :: utext
  tr_delta :: int
  tr_executed_at :: time
  tr_description :: utext

definition is_side :: "payload \<Rightarrow> utext option" where
  "is_side p =
     (case get_item p ''side'' of
        Some (JStr s) \<Rightarrow> if s = ucode ''buy'' \<or> s = ucode ''sell'' then Some s else None
      | _ \<Rightarrow> None)"

definition parse_amount :: "utext \<Rightarrow> amount option" where
  "parse_amount t = Option.bind (parse_decimal t) quantize_cents"

definition trade_description :: "(json \<Rightarrow> utext) \<Rightarrow> payload \<Rightarrow> utext \<Rightarrow> bool \<Rightarrow> nat \<Rightarrow> utext" where
  "trade_description rp p side neg n =
     ustrip (side @ ucode '' $'' @ ucode (show_cents neg n) @ ucode '' ''
       @ py_str rp (case get_item p ''symbol'' of None \<Rightarrow> JStr [] | Some v \<Rightarrow> v))"

definition signed_cents :: "bool \<Rightarrow> nat \<Rightarrow> int" where
  "signed_cents neg n = (if neg then - int n else int n)"

text \<open>
  The comparison of a NaN with zero is outside the try block: it raises.
\<close>

definition parse_trade :: "(json \<Rightarrow> utext) \<Rightarrow> payload \<Rightarrow> py_exc + parsed_trade option" where
  "parse_trade rp p =
     (case get_item p ''account'' of
        Some (JStr account) \<Rightarrow>
          if account = [] then Inr None
          else (case is_side p of
              None \<Rightarrow> Inr None
            | Some side \<Rightarrow>
                (case (parse_amount (str_item rp p ''amount''), fromisoformat (ascii_view (str_item rp p ''executed_at''))) of
                   (Some Amount_NaN, Some _) \<Rightarrow> Inl InvalidOperation
                 | (Some (Cents neg n), Some (Aware t)) \<Rightarrow>
                     if signed_cents neg n < 0 then Inr None
                     else Inr (Some \<lparr> tr_account = account,
                            tr_delta = (if side = ucode ''buy'' then signed_cents neg n else - signed_cents neg n),
                            tr_executed_at = t, tr_description = trade_description rp p side neg n \<rparr>)
                 | _ \<Rightarrow> Inr None))
      | _ \<Rightarrow> Inr None)"

section \<open>Account rows\<close>

abbreviation account_key :: "ledger_account \<Rightarrow> uuid \<times> utext" where
  "account_key r \<equiv> (la_endpoint r, la_account r)"

definition find_account :: "uuid \<Rightarrow> utext \<Rightarrow> db \<Rightarrow> ledger_account option" where
  "find_account e a d = find_pk account_key (e, a) (accounts d)"

definition put_account :: "ledger_account \<Rightarrow> db \<Rightarrow> db" where
  "put_account r d = d\<lparr>accounts := put_pk account_key r (accounts d)\<rparr>"

text \<open>The column is \<^verbatim>\<open>numeric(18, 2)\<close>.\<close>

definition balance_ok :: "int \<Rightarrow> bool" where
  "balance_ok b \<longleftrightarrow> \<bar>b\<bar> < 10 ^ 18"

definition ensure_account_row :: "uuid \<Rightarrow> utext \<Rightarrow> time \<Rightarrow> db \<Rightarrow> py_exc + db" where
  "ensure_account_row e a now d =
     (if \<not> text_ok a then Inl DataError
      else if find_account e a d \<noteq> None then Inr d
      else if e \<notin> ep_id ` set (endpoints d) then Inl IntegrityError
      else Inr (d\<lparr>accounts := accounts d @ [\<lparr> la_endpoint = e, la_account = a, la_balance = starting_balance,
             la_status = None, la_status_as_of = None, la_updated_at = now \<rparr>]\<rparr>))"

section \<open>Bank A: the naive apply\<close>

definition naive_read :: "uuid \<Rightarrow> parsed_trade \<Rightarrow> time \<Rightarrow> db \<Rightarrow> py_exc + db \<times> int" where
  "naive_read e tr now d =
     bind_exc (ensure_account_row e (tr_account tr) now d) (\<lambda>d1.
       case find_account e (tr_account tr) d1 of None \<Rightarrow> Inl NoResultFound | Some r \<Rightarrow> Inr (d1, la_balance r))"

definition naive_write :: "uuid \<Rightarrow> parsed_trade \<Rightarrow> int \<Rightarrow> time \<Rightarrow> db \<Rightarrow> py_exc + db" where
  "naive_write e tr read_balance now d =
     (if \<not> text_ok (tr_description tr) then Inl DataError
      else case find_account e (tr_account tr) d of
          None \<Rightarrow> Inr d
        | Some r \<Rightarrow>
            if \<not> balance_ok (read_balance + tr_delta tr) then Inl DataError
            else Inr (put_account (r\<lparr>la_balance := read_balance + tr_delta tr, la_status := Some (tr_description tr),
                   la_status_as_of := Some (tr_executed_at tr), la_updated_at := now\<rparr>) d))"

definition apply_trade_naive :: "uuid \<Rightarrow> parsed_trade \<Rightarrow> time \<Rightarrow> db \<Rightarrow> py_exc + db" where
  "apply_trade_naive e tr now d = bind_exc (naive_read e tr now d) (\<lambda>(d1, b). naive_write e tr b now d1)"

section \<open>Bank B: the safe apply\<close>

datatype apply_result = Applied | Duplicate

definition processed_by :: "uuid \<Rightarrow> db \<Rightarrow> uuid set" where
  "processed_by e d = lp_event ` set (filter (\<lambda>p. lp_endpoint p = e) (processed d))"

definition fresher :: "parsed_trade \<Rightarrow> ledger_account \<Rightarrow> bool" where
  "fresher tr r \<longleftrightarrow> (case la_status_as_of r of None \<Rightarrow> True | Some t \<Rightarrow> t < tr_executed_at tr)"

definition credited :: "parsed_trade \<Rightarrow> ledger_account \<Rightarrow> ledger_account" where
  "credited tr r =
     (let r1 = r\<lparr>la_balance := la_balance r + tr_delta tr\<rparr>
      in if fresher tr r then r1\<lparr>la_status := Some (tr_description tr), la_status_as_of := Some (tr_executed_at tr)\<rparr> else r1)"

definition apply_trade_safe :: "uuid \<Rightarrow> uuid \<Rightarrow> parsed_trade \<Rightarrow> time \<Rightarrow> db \<Rightarrow> py_exc + apply_result \<times> db" where
  "apply_trade_safe e i tr now d =
     (if i \<in> processed_by e d then Inr (Duplicate, d)
      else if e \<notin> ep_id ` set (endpoints d) then Inl IntegrityError
      else bind_exc (ensure_account_row e (tr_account tr) now
              (d\<lparr>processed := processed d @ [\<lparr> lp_endpoint = e, lp_event = i, lp_processed_at = now \<rparr>]\<rparr>)) (\<lambda>d1.
        case find_account e (tr_account tr) d1 of
          None \<Rightarrow> Inl NoResultFound
        | Some r \<Rightarrow>
            (let r' = credited tr r
             in if r' = r then Inr (Applied, d1)
                else if \<not> balance_ok (la_balance r') \<or> \<not> (case la_status r' of None \<Rightarrow> True | Some s \<Rightarrow> text_ok s) then Inl DataError
                else Inr (Applied, put_account (r'\<lparr>la_updated_at := now\<rparr>) d1))))"

section \<open>Reconciliation\<close>

record expected_account =
  ea_delta :: int
  ea_trades :: nat
  ea_latest :: "datetime option"

record account_view =
  av_account :: utext
  av_balance :: int
  av_expected :: int
  av_drift :: int
  av_status :: "utext option"
  av_status_as_of :: "time option"
  av_status_stale :: bool

record bank_view =
  bv_endpoint :: uuid
  bv_mode :: bank_mode
  bv_accounts :: "account_view list"
  bv_total_drift :: int
  bv_pending :: nat
  bv_dead_lettered :: nat

text \<open>\<^verbatim>\<open>payload->>'k'\<close>: null for a missing key and for JSON null.\<close>

definition json_column :: "(json \<Rightarrow> utext) \<Rightarrow> payload \<Rightarrow> string \<Rightarrow> utext option" where
  "json_column jtext p k =
     (case get_item p k of None \<Rightarrow> None | Some JNull \<Rightarrow> None | Some (JStr s) \<Rightarrow> Some s | Some v \<Rightarrow> Some (jtext v))"

text \<open>What the query sees of one event: the account, the signed amount and the time of the trade.\<close>

definition trade_row :: "(json \<Rightarrow> utext) \<Rightarrow> payload \<Rightarrow> (utext \<times> rat \<times> utext option) option" where
  "trade_row jtext p =
     (case (json_column jtext p ''account'', Option.bind (json_column jtext p ''amount'') fixed_point) of
        (Some a, Some (c, k)) \<Rightarrow>
          (let v = of_nat c / 10 ^ k
           in Some (a, if json_column jtext p ''side'' = Some (ucode ''sell'') then - v else v, json_column jtext p ''executed_at''))
      | _ \<Rightarrow> None)"

definition trade_rows :: "(json \<Rightarrow> utext) \<Rightarrow> uuid \<Rightarrow> db \<Rightarrow> (utext \<times> rat \<times> utext option) list" where
  "trade_rows jtext p d =
     List.map_filter (\<lambda>e. trade_row jtext (ev_payload e))
       (filter (\<lambda>e. ev_project e = p \<and> ev_type e = trade_executed) (events d))"

definition account_sum :: "(utext \<times> rat \<times> utext option) list \<Rightarrow> utext \<Rightarrow> rat" where
  "account_sum rows a = sum_list (map (\<lambda>(_, v, _). v) (filter (\<lambda>(b, _). b = a) rows))"

definition latest_executed :: "(utext list \<Rightarrow> utext) \<Rightarrow> (utext \<times> rat \<times> utext option) list \<Rightarrow> utext \<Rightarrow> datetime option" where
  "latest_executed tmax rows a =
     (case List.map_filter (\<lambda>(b, _, t). if b = a then t else None) rows of
        [] \<Rightarrow> None
      | ts \<Rightarrow> if tmax ts = [] then None else fromisoformat (ascii_view (tmax ts)))"

text \<open>One row per account; the sums are quantised to cents.\<close>

fun expect_accounts ::
  "(utext list \<Rightarrow> utext) \<Rightarrow> (utext \<times> rat \<times> utext option) list \<Rightarrow> utext list \<Rightarrow> py_exc + (utext \<times> expected_account) list" where
  "expect_accounts tmax rows [] = Inr []"
| "expect_accounts tmax rows (a # as) =
     (let n = round_half_even (account_sum rows a * 100)
      in if 10 ^ 28 \<le> \<bar>n\<bar> then Inl InvalidOperation
         else bind_exc (expect_accounts tmax rows as) (\<lambda>rest.
           Inr ((a, \<lparr> ea_delta = n, ea_trades = length (filter (\<lambda>(b, _). b = a) rows), ea_latest = latest_executed tmax rows a \<rparr>) # rest)))"

definition expected_from_event_log ::
  "(json \<Rightarrow> utext) \<Rightarrow> (utext list \<Rightarrow> utext) \<Rightarrow> uuid \<Rightarrow> db \<Rightarrow> py_exc + (utext \<times> expected_account) list" where
  "expected_from_event_log jtext tmax p d =
     (let rows = trade_rows jtext p d in expect_accounts tmax rows (remdups (map fst rows)))"

definition delivery_counts :: "uuid \<Rightarrow> db \<Rightarrow> nat \<times> nat" where
  "delivery_counts e d =
     (let n = (\<lambda>s. length (filter (\<lambda>x. dl_endpoint x = e \<and> dl_status x = s) (deliveries d)))
      in (n Pending + n In_flight, n Dead_lettered))"

text \<open>A naive latest time cannot be compared with the aware status time.\<close>

definition status_stale :: "time option \<Rightarrow> datetime option \<Rightarrow> py_exc + bool" where
  "status_stale status_as_of latest =
     (case (status_as_of, latest) of
        (Some s, Some (Aware t)) \<Rightarrow> Inr (s < t)
      | (Some s, Some (Naive t)) \<Rightarrow> Inl TypeError
      | _ \<Rightarrow> Inr False)"

definition view_account :: "uuid \<Rightarrow> (utext \<times> expected_account) list \<Rightarrow> db \<Rightarrow> utext \<Rightarrow> py_exc + account_view" where
  "view_account e expd d a =
     (let row = find_account e a d;
          ex = map_of expd a;
          balance = (case row of None \<Rightarrow> starting_balance | Some r \<Rightarrow> la_balance r);
          expected_balance = starting_balance + (case ex of None \<Rightarrow> 0 | Some x \<Rightarrow> ea_delta x);
          as_of = Option.bind row la_status_as_of
      in bind_exc (status_stale as_of (Option.bind ex ea_latest)) (\<lambda>stale.
           Inr \<lparr> av_account = a, av_balance = balance, av_expected = expected_balance,
                 av_drift = balance - expected_balance, av_status = Option.bind row la_status,
                 av_status_as_of = as_of, av_status_stale = stale \<rparr>))"

fun view_accounts :: "uuid \<Rightarrow> (utext \<times> expected_account) list \<Rightarrow> db \<Rightarrow> utext list \<Rightarrow> py_exc + account_view list" where
  "view_accounts e expd d [] = Inr []"
| "view_accounts e expd d (a # as) =
     bind_exc (view_account e expd d a) (\<lambda>v. bind_exc (view_accounts e expd d as) (\<lambda>vs. Inr (v # vs)))"

definition bank_accounts :: "uuid \<Rightarrow> db \<Rightarrow> ledger_account list" where
  "bank_accounts e d = filter (\<lambda>r. la_endpoint r = e) (accounts d)"

definition build_bank_view :: "uuid \<Rightarrow> (utext \<times> expected_account) list \<Rightarrow> db \<Rightarrow> py_exc + bank_view" where
  "build_bank_view e expd d =
     bind_exc (view_accounts e expd d (sort (remdups (map fst expd @ map la_account (bank_accounts e d))))) (\<lambda>vs.
       Inr \<lparr> bv_endpoint = e, bv_mode = get_bank_mode e d, bv_accounts = vs,
             bv_total_drift = sum_list (map (\<lambda>v. \<bar>av_drift v\<bar>) vs),
             bv_pending = fst (delivery_counts e d), bv_dead_lettered = snd (delivery_counts e d) \<rparr>)"

end
