(* ===== verification/Reconcile.thy ===== *)
theory Reconcile
  imports Ledger
begin

text \<open>
  What the two banks' applies do to the balances, and the reconciliation against the event log: the
  safe bank agrees with the log whatever the order and the number of the deliveries, the naive bank
  loses an update when two of them interleave.
\<close>

section \<open>Balances\<close>

definition balance_of :: "uuid \<Rightarrow> utext \<Rightarrow> db \<Rightarrow> int" where
  "balance_of e a d = (case find_account e a d of None \<Rightarrow> starting_balance | Some r \<Rightarrow> la_balance r)"

definition balances_ok :: "uuid \<Rightarrow> db \<Rightarrow> bool" where
  "balances_ok e d \<longleftrightarrow> (\<forall>r \<in> set (accounts d). la_endpoint r = e \<longrightarrow> balance_ok (la_balance r))"

lemma find_account_key:
  assumes "find_account e a d = Some r"
  shows "la_endpoint r = e \<and> la_account r = a \<and> r \<in> set (accounts d)"
proof -
  have "find_pk account_key (e, a) (accounts d) = Some r"
    using assms by (simp add: find_account_def)
  then have "account_key r = (e, a)" "r \<in> set (accounts d)"
    by (rule find_pk_Some)+
  then show ?thesis
    by simp
qed

lemma find_put_account:
  "find_account e a (put_account r d) =
     (if (e, a) = account_key r then (if find_account e a d = None then None else Some r) else find_account e a d)"
proof (cases "e = la_endpoint r \<and> a = la_account r")
  case True
  then show ?thesis
    using find_put_same [of account_key r "accounts d"] find_pk_None [of account_key "account_key r" "accounts d"]
    by (simp add: find_account_def put_account_def)
next
  case False
  then show ?thesis
    using find_put_other [of "(e, a)" account_key r "accounts d"] by (auto simp: find_account_def put_account_def)
qed

lemma put_account_simps [simp]:
  "processed (put_account r d) = processed d" "events (put_account r d) = events d"
  "endpoints (put_account r d) = endpoints d" "deliveries (put_account r d) = deliveries d"
  "healths (put_account r d) = healths d" "inbox (put_account r d) = inbox d"
  by (simp_all add: put_account_def)

lemma balance_put_account:
  assumes "find_account e a d = Some r" "la_endpoint r' = e" "la_account r' = a"
  shows "balance_of f b (put_account r' d) = (if f = e \<and> b = a then la_balance r' else balance_of f b d)"
  using assms by (simp add: balance_of_def find_put_account)

lemma balances_ok_put:
  "balances_ok e d \<Longrightarrow> balance_ok (la_balance r) \<Longrightarrow> balances_ok e (put_account r d)"
  by (auto simp: balances_ok_def put_account_def dest!: set_put_pk)

lemma balance_starting: "balance_ok starting_balance"
  by (simp add: balance_ok_def starting_balance_def)

lemma ensure_effect:
  assumes "ensure_account_row e a now d = Inr d1"
  shows "\<exists>r. find_account e a d1 = Some r" "\<And>f b. balance_of f b d1 = balance_of f b d"
    "processed d1 = processed d" "events d1 = events d" "endpoints d1 = endpoints d" "balances_ok e d \<Longrightarrow> balances_ok e d1"
  using assms balance_starting
  by (auto simp: ensure_account_row_def find_account_def balance_of_def balances_ok_def find_pk_append
      split: if_splits option.splits)

lemma ensure_existing:
  "find_account e a d = Some r \<Longrightarrow> ensure_account_row e a now d = Inr d1 \<Longrightarrow> d1 = d"
  by (auto simp: ensure_account_row_def split: if_splits)

lemma credited_simps [simp]:
  "la_balance (credited tr r) = la_balance r + tr_delta tr" "la_endpoint (credited tr r) = la_endpoint r"
  "la_account (credited tr r) = la_account r"
  by (simp_all add: credited_def Let_def)

section \<open>Bank B\<close>

lemma apply_safe_effect:
  assumes "apply_trade_safe e i tr now d = Inr (res, d1)"
  shows "processed_by e d1 = insert i (processed_by e d)"
    and "balance_of e a d1 = balance_of e a d + (if i \<notin> processed_by e d \<and> tr_account tr = a then tr_delta tr else 0)"
    and "events d1 = events d" and "balances_ok e d \<Longrightarrow> balances_ok e d1" and "res = Duplicate \<longleftrightarrow> i \<in> processed_by e d"
    and "res = Duplicate \<Longrightarrow> d1 = d"
proof -
  consider (dup) "i \<in> processed_by e d" "d1 = d" "res = Duplicate"
    | (new) d2 r where "i \<notin> processed_by e d" "res = Applied"
        "ensure_account_row e (tr_account tr) now
           (d\<lparr>processed := processed d @ [\<lparr> lp_endpoint = e, lp_event = i, lp_processed_at = now \<rparr>]\<rparr>) = Inr d2"
        "find_account e (tr_account tr) d2 = Some r"
        "credited tr r = r \<and> d1 = d2
         \<or> balance_ok (la_balance (credited tr r)) \<and> d1 = put_account ((credited tr r)\<lparr>la_updated_at := now\<rparr>) d2"
  proof (cases "i \<in> processed_by e d")
    case True
    then have "d1 = d" "res = Duplicate"
      using assms by (simp_all add: apply_trade_safe_def)
    with True show thesis
      by (rule dup)
  next
    case False
    let ?d = "d\<lparr>processed := processed d @ [\<lparr> lp_endpoint = e, lp_event = i, lp_processed_at = now \<rparr>]\<rparr>"
    have "e \<in> ep_id ` set (endpoints d)"
    proof (rule ccontr)
      assume "e \<notin> ep_id ` set (endpoints d)"
      then show False
        using assms False by (simp add: apply_trade_safe_def)
    qed
    then have b: "bind_exc (ensure_account_row e (tr_account tr) now ?d) (\<lambda>d2.
        case find_account e (tr_account tr) d2 of
          None \<Rightarrow> Inl NoResultFound
        | Some r \<Rightarrow>
            (if credited tr r = r then Inr (Applied, d2)
             else if \<not> balance_ok (la_balance (credited tr r))
                 \<or> \<not> (case la_status (credited tr r) of None \<Rightarrow> True | Some s \<Rightarrow> text_ok s) then Inl DataError
             else Inr (Applied, put_account ((credited tr r)\<lparr>la_updated_at := now\<rparr>) d2))) = Inr (res, d1)"
      using assms False unfolding apply_trade_safe_def Let_def by simp
    then obtain d2 where d2: "ensure_account_row e (tr_account tr) now ?d = Inr d2"
      by (auto simp: bind_exc_Inr)
    obtain r where r: "find_account e (tr_account tr) d2 = Some r"
      using ensure_effect(1) [OF d2] by blast
    show thesis
    proof (cases "credited tr r = r")
      case True
      then show thesis
        using b d2 r False by (intro new [of d2 r]) simp_all
    next
      case neq: False
      then show thesis
        using b d2 r False by (intro new [of d2 r]) (auto split: if_splits)
    qed
  qed
  then have "processed_by e d1 = insert i (processed_by e d)
    \<and> balance_of e a d1 = balance_of e a d + (if i \<notin> processed_by e d \<and> tr_account tr = a then tr_delta tr else 0)
    \<and> events d1 = events d \<and> (balances_ok e d \<longrightarrow> balances_ok e d1) \<and> (res = Duplicate \<longleftrightarrow> i \<in> processed_by e d)
    \<and> (res = Duplicate \<longrightarrow> d1 = d)"
  proof cases
    case dup
    then show ?thesis
      by auto
  next
    case (new d2 r)
    let ?d = "d\<lparr>processed := processed d @ [\<lparr> lp_endpoint = e, lp_event = i, lp_processed_at = now \<rparr>]\<rparr>"
    note ens = ensure_effect [OF new(3)]
    have same: "balance_of f b ?d = balance_of f b d" "balances_ok e ?d = balances_ok e d" for f b
      by (simp_all add: balance_of_def find_account_def balances_ok_def)
    have key: "la_endpoint r = e" "la_account r = tr_account tr"
      using find_account_key [OF new(4)] by simp_all
    have old: "la_balance r = balance_of e (tr_account tr) d"
      using ens(2) same(1) new(4) by (metis balance_of_def option.simps(5))
    have "processed_by e d1 = processed_by e d2" "events d1 = events d2"
      using new(5) by (auto simp: processed_by_def)
    moreover have "processed_by e d2 = insert i (processed_by e d)"
      unfolding processed_by_def ens(3) by auto
    moreover have "events d2 = events d"
      using ens(4) by simp
    moreover have "balances_ok e d \<Longrightarrow> balances_ok e d1"
      using new(5) ens(6) same(2) by (auto intro!: balances_ok_put)
    moreover have "balance_of e a d1 = balance_of e a d + (if tr_account tr = a then tr_delta tr else 0)"
    proof (cases "credited tr r = r \<and> d1 = d2")
      case True
      then have "tr_delta tr = 0"
        using credited_simps(1) [of tr r] by simp
      then show ?thesis
        using True ens(2) same(1) by simp
    next
      case False
      then have "d1 = put_account ((credited tr r)\<lparr>la_updated_at := now\<rparr>) d2"
        using new(5) by blast
      then show ?thesis
        using balance_put_account [OF new(4), of "(credited tr r)\<lparr>la_updated_at := now\<rparr>"] key old ens(2) same(1)
        by simp
    qed
    ultimately show ?thesis
      using new(1,2) by simp
  qed
  then show "processed_by e d1 = insert i (processed_by e d)"
    and "balance_of e a d1 = balance_of e a d + (if i \<notin> processed_by e d \<and> tr_account tr = a then tr_delta tr else 0)"
    and "events d1 = events d" and "balances_ok e d \<Longrightarrow> balances_ok e d1" and "res = Duplicate \<longleftrightarrow> i \<in> processed_by e d"
    and "res = Duplicate \<Longrightarrow> d1 = d"
    by blast+
qed

lemma sum_insert_if:
  "finite S \<Longrightarrow> i \<notin> S \<Longrightarrow> sum f (if b then insert i S else S) = (if b then f i else 0) + sum f S"
  by simp

text \<open>Deliveries one after another, each with its event id and its time; \<open>tr\<close> gives an event's trade.\<close>

fun safe_run :: "uuid \<Rightarrow> (uuid \<Rightarrow> parsed_trade) \<Rightarrow> (uuid \<times> time) list \<Rightarrow> db \<Rightarrow> py_exc + db" where
  "safe_run e tr [] d = Inr d"
| "safe_run e tr ((i, now) # xs) d = bind_exc (apply_trade_safe e i (tr i) now d) (\<lambda>(_, d1). safe_run e tr xs d1)"

lemma safe_run_effect:
  assumes "safe_run e tr xs d = Inr d1"
  shows "processed_by e d1 = processed_by e d \<union> fst ` set xs"
    and "balance_of e a d1 = balance_of e a d
        + (\<Sum>i \<in> {i \<in> fst ` set xs - processed_by e d. tr_account (tr i) = a}. tr_delta (tr i))"
    and "events d1 = events d" and "balances_ok e d \<Longrightarrow> balances_ok e d1"
proof -
  have "processed_by e d1 = processed_by e d \<union> fst ` set xs
    \<and> balance_of e a d1 = balance_of e a d
        + (\<Sum>i \<in> {i \<in> fst ` set xs - processed_by e d. tr_account (tr i) = a}. tr_delta (tr i))
    \<and> events d1 = events d \<and> (balances_ok e d \<longrightarrow> balances_ok e d1)"
    using assms
  proof (induction e tr xs d rule: safe_run.induct)
    case (2 e tr i now xs d)
    then obtain res d2 where s: "apply_trade_safe e i (tr i) now d = Inr (res, d2)" "safe_run e tr xs d2 = Inr d1"
      by (auto simp: bind_exc_Inr)
    note step = apply_safe_effect [OF s(1)]
    let ?S = "{i \<in> fst ` set xs - processed_by e d2. tr_account (tr i) = a}"
    let ?T = "{j \<in> fst ` set ((i, now) # xs) - processed_by e d. tr_account (tr j) = a}"
    have IH: "processed_by e d1 = processed_by e d2 \<union> fst ` set xs"
      "balance_of e a d1 = balance_of e a d2 + (\<Sum>i \<in> ?S. tr_delta (tr i))"
      "events d1 = events d2" "balances_ok e d2 \<longrightarrow> balances_ok e d1"
      using "2.IH" [OF s(2)] by blast+
    have T: "?T = (if i \<notin> processed_by e d \<and> tr_account (tr i) = a then insert i ?S else ?S)" and i: "i \<notin> ?S"
      unfolding step(1) by auto
    have "finite ?S"
      by (rule finite_subset [of _ "fst ` set xs"]) auto
    then have "(\<Sum>j \<in> ?T. tr_delta (tr j))
        = (if i \<notin> processed_by e d \<and> tr_account (tr i) = a then tr_delta (tr i) else 0) + (\<Sum>j \<in> ?S. tr_delta (tr j))"
      unfolding T using i by (rule sum_insert_if)
    then show ?case
      using IH step(1-4) by simp
  qed simp
  then show "processed_by e d1 = processed_by e d \<union> fst ` set xs"
    and "balance_of e a d1 = balance_of e a d
        + (\<Sum>i \<in> {i \<in> fst ` set xs - processed_by e d. tr_account (tr i) = a}. tr_delta (tr i))"
    and "events d1 = events d" and "balances_ok e d \<Longrightarrow> balances_ok e d1"
    by blast+
qed

section \<open>What the event log expects\<close>

text \<open>
  A trade as the producer writes it: a text account, side buy or sell, an amount in plain notation with
  at most two decimals, and a time with an offset.
\<close>

definition cents_trade :: "payload \<Rightarrow> bool" where
  "cents_trade pl \<longleftrightarrow> (\<exists>a s m t c k. get_item pl ''account'' = Some (JStr a) \<and> get_item pl ''side'' = Some (JStr s)
     \<and> get_item pl ''amount'' = Some (JStr m) \<and> get_item pl ''executed_at'' = Some (JStr t) \<and> t \<noteq> []
     \<and> fixed_point m = Some (c, k) \<and> k \<le> 2)"

lemma parse_trade_SomeD:
  assumes "parse_trade rp pl = Inr (Some tr)" "get_item pl ''account'' = Some (JStr a)" "get_item pl ''side'' = Some (JStr s)"
  obtains neg n t where "s = ucode ''buy'' \<or> s = ucode ''sell''" "tr_account tr = a"
    and "parse_amount (str_item rp pl ''amount'') = Some (Cents neg n)" "0 \<le> signed_cents neg n"
    and "fromisoformat (ascii_view (str_item rp pl ''executed_at'')) = Some (Aware t)" "tr_executed_at tr = t"
    and "tr_delta tr = (if s = ucode ''buy'' then signed_cents neg n else - signed_cents neg n)"
  using assms that
  by (auto simp: parse_trade_def is_side_def not_less split: if_splits option.splits amount.splits datetime.splits)

lemma cents_value:
  assumes "k \<le> (2::nat)"
  shows "of_nat c / 10 ^ k * 100 = (of_nat (c * 10 ^ (2 - k)) :: rat)"
proof -
  consider "k = 0" | "k = 1" | "k = 2"
    using assms by linarith
  then show ?thesis
    by cases simp_all
qed

lemma trade_row_cents:
  assumes "cents_trade pl" "parse_trade rp pl = Inr (Some tr)"
  shows "\<exists>v t. trade_row jtext pl = Some (tr_account tr, v, Some t) \<and> v * 100 = of_int (tr_delta tr) \<and> t \<noteq> []
    \<and> fromisoformat (ascii_view t) = Some (Aware (tr_executed_at tr))"
proof -
  obtain a s m t c k where pl: "get_item pl ''account'' = Some (JStr a)" "get_item pl ''side'' = Some (JStr s)"
     "get_item pl ''amount'' = Some (JStr m)" "get_item pl ''executed_at'' = Some (JStr t)" "t \<noteq> []"
    and m: "fixed_point m = Some (c, k)" "k \<le> 2"
    using assms(1) unfolding cents_trade_def by blast
  obtain neg n u where tr: "s = ucode ''buy'' \<or> s = ucode ''sell''" "tr_account tr = a"
      "parse_amount (str_item rp pl ''amount'') = Some (Cents neg n)"
      "fromisoformat (ascii_view (str_item rp pl ''executed_at'')) = Some (Aware u)" "tr_executed_at tr = u"
    and delta: "tr_delta tr = (if s = ucode ''buy'' then signed_cents neg n else - signed_cents neg n)"
    using assms(2) pl(1,2) by (rule parse_trade_SomeD)
  have items: "str_item rp pl ''amount'' = m" "str_item rp pl ''executed_at'' = t"
    using pl by (simp_all add: str_item_def py_str_def)
  have "parse_amount m = quantize_cents (Finite False c (- int k))"
    using parse_fixed_point [OF m(1)] by (simp add: parse_amount_def)
  moreover have "nat (- int k + 2) = 2 - k"
    using m(2) by simp
  ultimately have n: "neg = False" "n = c * 10 ^ (2 - k)"
    using tr(3) m(2) unfolding items by (auto simp: quantize_cents_def Let_def split: if_splits)
  have "ucode ''buy'' \<noteq> ucode ''sell''"
    by (auto dest: ucode_inj)
  then show ?thesis
    using pl m tr delta n cents_value [OF m(2), of c] unfolding items
    by (auto simp: trade_row_def json_column_def Let_def signed_cents_def simp del: ucode_simps)
qed

definition trade_events :: "uuid \<Rightarrow> db \<Rightarrow> event list" where
  "trade_events p d = filter (\<lambda>e. ev_project e = p \<and> ev_type e = trade_executed) (events d)"

text \<open>The log is a log of trades: \<open>tr\<close> gives the trade of each event.\<close>

definition trade_log :: "(json \<Rightarrow> utext) \<Rightarrow> uuid \<Rightarrow> (uuid \<Rightarrow> parsed_trade) \<Rightarrow> db \<Rightarrow> bool" where
  "trade_log rp p tr d \<longleftrightarrow> distinct (map ev_id (events d))
     \<and> (\<forall>e \<in> set (trade_events p d). cents_trade (ev_payload e) \<and> parse_trade rp (ev_payload e) = Inr (Some (tr (ev_id e))))"

definition logged_delta :: "uuid \<Rightarrow> (uuid \<Rightarrow> parsed_trade) \<Rightarrow> db \<Rightarrow> utext \<Rightarrow> int" where
  "logged_delta p tr d a = sum_list (map (\<lambda>e. tr_delta (tr (ev_id e))) (filter (\<lambda>e. tr_account (tr (ev_id e)) = a) (trade_events p d)))"

lemma trade_rows_effect:
  assumes "\<forall>e \<in> set es. cents_trade (ev_payload e) \<and> parse_trade rp (ev_payload e) = Inr (Some (tr (ev_id e)))"
  shows "fst ` set (List.map_filter (\<lambda>e. trade_row jtext (ev_payload e)) es) = (\<lambda>e. tr_account (tr (ev_id e))) ` set es"
    and "account_sum (List.map_filter (\<lambda>e. trade_row jtext (ev_payload e)) es) a * 100
      = of_int (sum_list (map (\<lambda>e. tr_delta (tr (ev_id e))) (filter (\<lambda>e. tr_account (tr (ev_id e)) = a) es)))"
    and "\<forall>(b, v, t) \<in> set (List.map_filter (\<lambda>e. trade_row jtext (ev_payload e)) es).
      \<exists>x u. t = Some x \<and> x \<noteq> [] \<and> fromisoformat (ascii_view x) = Some (Aware u)"
proof -
  have "fst ` set (List.map_filter (\<lambda>e. trade_row jtext (ev_payload e)) es) = (\<lambda>e. tr_account (tr (ev_id e))) ` set es
    \<and> account_sum (List.map_filter (\<lambda>e. trade_row jtext (ev_payload e)) es) a * 100
      = of_int (sum_list (map (\<lambda>e. tr_delta (tr (ev_id e))) (filter (\<lambda>e. tr_account (tr (ev_id e)) = a) es)))
    \<and> (\<forall>(b, v, t) \<in> set (List.map_filter (\<lambda>e. trade_row jtext (ev_payload e)) es).
      \<exists>x u. t = Some x \<and> x \<noteq> [] \<and> fromisoformat (ascii_view x) = Some (Aware u))"
    using assms
  proof (induction es)
    case (Cons e es)
    then obtain v t where row: "trade_row jtext (ev_payload e) = Some (tr_account (tr (ev_id e)), v, Some t)"
      "v * 100 = of_int (tr_delta (tr (ev_id e)))" "t \<noteq> []"
      "fromisoformat (ascii_view t) = Some (Aware (tr_executed_at (tr (ev_id e))))"
      using trade_row_cents [of "ev_payload e" rp "tr (ev_id e)" jtext] by auto
    then show ?case
      using Cons by (auto simp: List.map_filter_simps account_sum_def distrib_right)
  qed (simp add: List.map_filter_simps account_sum_def)
  then show "fst ` set (List.map_filter (\<lambda>e. trade_row jtext (ev_payload e)) es) = (\<lambda>e. tr_account (tr (ev_id e))) ` set es"
    and "account_sum (List.map_filter (\<lambda>e. trade_row jtext (ev_payload e)) es) a * 100
      = of_int (sum_list (map (\<lambda>e. tr_delta (tr (ev_id e))) (filter (\<lambda>e. tr_account (tr (ev_id e)) = a) es)))"
    and "\<forall>(b, v, t) \<in> set (List.map_filter (\<lambda>e. trade_row jtext (ev_payload e)) es).
      \<exists>x u. t = Some x \<and> x \<noteq> [] \<and> fromisoformat (ascii_view x) = Some (Aware u)"
    by blast+
qed

lemma expect_accounts_total:
  assumes "\<forall>a \<in> set as. \<bar>round_half_even (account_sum rows a * 100)\<bar> < 10 ^ 28"
  shows "expect_accounts tmax rows as = Inr (map (\<lambda>a. (a, \<lparr> ea_delta = round_half_even (account_sum rows a * 100),
      ea_trades = length (filter (\<lambda>(b, _). b = a) rows), ea_latest = latest_executed tmax rows a \<rparr>)) as)"
  using assms by (induction as) (auto simp: Let_def)

lemma view_accounts_total:
  assumes "\<forall>a \<in> set as. \<exists>v. view_account e expd d a = Inr v \<and> P v"
  shows "\<exists>vs. view_accounts e expd d as = Inr vs \<and> (\<forall>v \<in> set vs. P v)"
  using assms by (induction as) auto

lemma map_filter_mem: "x \<in> set (List.map_filter f xs) \<longleftrightarrow> (\<exists>y \<in> set xs. f y = Some x)"
  by (induction xs) (auto simp: List.map_filter_simps split: option.splits)

lemma status_stale_ok: "l = None \<or> (\<exists>u. l = Some (Aware u)) \<Longrightarrow> \<exists>b. status_stale s l = Inr b"
  by (auto simp: status_stale_def split: option.split)

lemma latest_aware:
  assumes "\<forall>ts. ts \<noteq> [] \<longrightarrow> tmax ts \<in> set ts"
    and "\<forall>(b, v, t) \<in> set rows. \<exists>x u. t = Some x \<and> x \<noteq> [] \<and> fromisoformat (ascii_view x) = Some (Aware u)"
  shows "latest_executed tmax rows a = None \<or> (\<exists>u. latest_executed tmax rows a = Some (Aware u))"
proof -
  let ?ts = "List.map_filter (\<lambda>(b, _, t). if b = a then t else None) rows"
  have "\<exists>u. fromisoformat (ascii_view x) = Some (Aware u)" if "x \<in> set ?ts" for x
  proof -
    from that obtain row where row: "row \<in> set rows" "(case row of (b, _, t) \<Rightarrow> if b = a then t else None) = Some x"
      unfolding map_filter_mem by blast
    moreover obtain b v t where "row = (b, v, t)"
      by (cases row)
    ultimately have "(b, v, Some x) \<in> set rows"
      by (simp split: if_splits)
    then show ?thesis
      using assms(2) by blast
  qed
  note aware = this
  show ?thesis
  proof (cases ?ts)
    case Nil
    then show ?thesis
      by (simp add: latest_executed_def)
  next
    case (Cons x xs)
    then have "tmax (x # xs) \<in> set ?ts"
      using assms(1) by (metis list.distinct(1))
    then obtain u where "fromisoformat (ascii_view (tmax (x # xs))) = Some (Aware u)"
      using aware by blast
    then show ?thesis
      using Cons by (simp add: latest_executed_def)
  qed
qed

lemma sum_by_id:
  assumes "distinct (map ev_id es)"
  shows "(\<Sum>i \<in> {i \<in> ev_id ` set es. P i}. f i) = sum_list (map (\<lambda>e. f (ev_id e)) (filter (\<lambda>e. P (ev_id e)) es))"
proof -
  have "inj_on ev_id (set (filter (\<lambda>e. P (ev_id e)) es))" "distinct (filter (\<lambda>e. P (ev_id e)) es)"
    using assms by (auto simp: distinct_map intro: inj_on_subset)
  moreover have "{i \<in> ev_id ` set es. P i} = ev_id ` set (filter (\<lambda>e. P (ev_id e)) es)"
    by auto
  ultimately show ?thesis
    by (simp only: sum.reindex sum.distinct_set_conv_list comp_def)
qed

lemma run_balance:
  assumes "distinct (map ev_id (events d))" "processed_by e d = {}" "\<forall>r \<in> set (accounts d). la_endpoint r \<noteq> e"
    and "fst ` set ds = ev_id ` set (trade_events p d)" "safe_run e tr ds d = Inr d1"
  shows "balance_of e a d1 = starting_balance + logged_delta p tr d a" and "\<bar>logged_delta p tr d a\<bar> < 10 ^ 28"
proof -
  have "find_account e a d = None"
    using assms(3) by (auto simp: find_account_def find_pk_None)
  then have "balance_of e a d = starting_balance"
    by (simp add: balance_of_def)
  moreover have "distinct (map ev_id (trade_events p d))"
    using assms(1) by (simp add: trade_events_def distinct_map_filter)
  ultimately show b: "balance_of e a d1 = starting_balance + logged_delta p tr d a"
    using safe_run_effect(2) [OF assms(5), of a] sum_by_id [of "trade_events p d", where P = "\<lambda>i. tr_account (tr i) = a" and f = "\<lambda>i. tr_delta (tr i)"]
    by (simp add: assms(2,4) logged_delta_def)
  have "balances_ok e d1"
    using safe_run_effect(4) [OF assms(5)] assms(3) by (simp add: balances_ok_def)
  then have "balance_ok (balance_of e a d1)"
    using balance_starting find_account_key by (auto simp: balance_of_def balances_ok_def split: option.split)
  then show "\<bar>logged_delta p tr d a\<bar> < 10 ^ 28"
    unfolding b by (simp add: balance_ok_def starting_balance_def)
qed

section \<open>Sample trades\<close>

definition trade_payload :: "utext \<Rightarrow> string \<Rightarrow> utext \<Rightarrow> time \<Rightarrow> payload" where
  "trade_payload a side m t =
     [(ucode ''account'', JStr a), (ucode ''side'', JStr (ucode side)), (ucode ''symbol'', JStr (ucode ''BTC'')),
      (ucode ''amount'', JStr m), (ucode ''executed_at'', JStr (ucode (isoformat t)))]"

lemma ascii_view_ucode: "\<forall>c \<in> set s. code c < 128 \<Longrightarrow> ascii_view (ucode s) = s"
  by (induction s) (simp_all add: ascii_view_def code_def)

lemma trade_payload_items [simp]:
  "get_item (trade_payload a side m t) ''account'' = Some (JStr a)"
  "get_item (trade_payload a side m t) ''side'' = Some (JStr (ucode side))"
  "get_item (trade_payload a side m t) ''symbol'' = Some (JStr (ucode ''BTC''))"
  "get_item (trade_payload a side m t) ''amount'' = Some (JStr m)"
  "get_item (trade_payload a side m t) ''executed_at'' = Some (JStr (ucode (isoformat t)))"
  by (simp_all add: get_item_def trade_payload_def)

lemma parse_trade_payload:
  assumes "a \<noteq> []" "fixed_point m = Some (c, k)" "k \<le> 2" "c * 10 ^ (2 - k) < 10 ^ 28" "time_in_range t"
  shows "parse_trade rp (trade_payload a ''buy'' m t) = Inr (Some \<lparr> tr_account = a, tr_delta = int (c * 10 ^ (2 - k)),
      tr_executed_at = t, tr_description = trade_description rp (trade_payload a ''buy'' m t) (ucode ''buy'') False (c * 10 ^ (2 - k)) \<rparr>)"
proof -
  have "fromisoformat (ascii_view (ucode (isoformat t))) = Some (Aware t)"
    using isoformat_chars [OF assms(5)] ascii_view_ucode [of "isoformat t"] fromisoformat_isoformat [OF assms(5)] by simp
  moreover have "parse_amount m = Some (Cents False (c * 10 ^ (2 - k)))"
    using parse_fixed_point [OF assms(2)] quantize_fixed_point [OF assms(2-4)] by (simp add: parse_amount_def)
  moreover have "is_side (trade_payload a ''buy'' m t) = Some (ucode ''buy'')"
    by (simp add: is_side_def)
  ultimately show ?thesis
    using assms(1) unfolding parse_trade_def str_item_def py_str_def by (simp add: signed_cents_def not_less)
qed

definition sample_trade :: "int \<Rightarrow> time \<Rightarrow> parsed_trade" where
  "sample_trade delta t = \<lparr> tr_account = ucode ''alice'', tr_delta = delta, tr_executed_at = t, tr_description = ucode ''buy $10.00 BTC'' \<rparr>"

definition ten_payload :: "time \<Rightarrow> payload" where
  "ten_payload t = trade_payload (ucode ''alice'') ''buy'' (ucode ''10.00'') t"

lemma ten_description: "trade_description rp (ten_payload t) (ucode ''buy'') False 1000 = ucode ''buy $10.00 BTC''"
  by (simp add: trade_description_def ten_payload_def py_str_def show_cents_def digit_def ustrip_def is_space_point_def show_nat.simps)

lemma parse_ten:
  assumes "time_in_range t"
  shows "parse_trade rp (ten_payload t) = Inr (Some (sample_trade 1000 t))"
proof -
  have "fixed_point (ucode ''10.00'') = Some (1000, 2)"
    by (simp add: fixed_point_def is_udigit_def udigits_value_def)
  then show ?thesis
    using parse_trade_payload [of "ucode ''alice''" "ucode ''10.00''" 1000 2 t rp] assms ten_description [of rp t]
    unfolding ten_payload_def sample_trade_def by simp
qed

definition trade_event :: "uuid \<Rightarrow> time \<Rightarrow> event" where
  "trade_event i t = \<lparr> ev_id = i, ev_project = 1, ev_type = trade_executed, ev_payload = ten_payload t,
     ev_idempotency_key = None, ev_created_at = 0 \<rparr>"

definition trades_db :: db where
  "trades_db = (sample_db [])\<lparr>events := [trade_event 10 0, trade_event 11 5]\<rparr>"

definition trades_of :: "uuid \<Rightarrow> parsed_trade" where
  "trades_of i = sample_trade 1000 (if i = 10 then 0 else 5)"

lemma trades_log: "trade_log rp 1 trades_of trades_db"
proof -
  have "cents_trade (ten_payload t)" for t
  proof -
    have "fixed_point (ucode ''10.00'') = Some (1000, 2)"
      by (simp add: fixed_point_def is_udigit_def udigits_value_def)
    moreover have "isoformat t \<noteq> []"
      by (simp add: isoformat_def Let_def split: prod.split)
    ultimately show ?thesis
      unfolding cents_trade_def ten_payload_def trade_payload_items
      by (intro exI [of _ "ucode ''alice''"] exI [of _ "ucode ''buy''"] exI [of _ "ucode ''10.00''"]
          exI [of _ "ucode (isoformat t)"] exI [of _ 1000] exI [of _ 2] conjI refl) simp_all
  qed
  moreover have "time_in_range 0" "time_in_range 5"
    by (simp_all add: time_in_range_def day_us_def)
  ultimately show ?thesis
    by (simp add: trade_log_def trade_events_def trades_db_def trade_event_def trades_of_def parse_ten)
qed

lemmas safe_defs = apply_trade_safe_def processed_by_def ensure_account_row_def find_account_def put_account_def
  credited_def fresher_def Let_def sample_trade_def balance_ok_def starting_balance_def text_ok_def

lemma trades_run: "\<exists>d1. safe_run 2 trades_of [(11, 100), (10, 101), (11, 102)] trades_db = Inr d1"
  by (simp add: safe_defs trades_db_def trades_of_def sample_db_def empty_db_def sample_endpoint_def)

section \<open>Properties\<close>

text \<open>C20: The safe bank is exact: after every trade event of the log was delivered at least once, in any order
  and with any number of repetitions, the reconciliation succeeds and shows no drift on any account, when
  the log holds trades in cents and the bank started empty.\<close>

theorem safe_bank_reconciles:
  assumes "trade_log rp p tr d" "\<forall>ts. ts \<noteq> [] \<longrightarrow> tmax ts \<in> set ts"
    and "processed_by e d = {}" "\<forall>r \<in> set (accounts d). la_endpoint r \<noteq> e"
    and "fst ` set ds = ev_id ` set (trade_events p d)" "safe_run e tr ds d = Inr d1"
  shows "\<exists>expd v. expected_from_event_log jtext tmax p d1 = Inr expd \<and> build_bank_view e expd d1 = Inr v
    \<and> (\<forall>x \<in> set (bv_accounts v). av_drift x = 0) \<and> bv_total_drift v = 0"
proof -
  let ?rows = "trade_rows jtext p d1"
  let ?as = "remdups (map fst ?rows)"
  have es: "trade_events p d1 = trade_events p d"
    using safe_run_effect(3) [OF assms(6)] by (simp add: trade_events_def)
  have rows: "?rows = List.map_filter (\<lambda>e. trade_row jtext (ev_payload e)) (trade_events p d)"
    using es by (simp add: trade_rows_def trade_events_def)
  have log: "distinct (map ev_id (events d))" "\<forall>e \<in> set (trade_events p d). cents_trade (ev_payload e)
      \<and> parse_trade rp (ev_payload e) = Inr (Some (tr (ev_id e)))"
    using assms(1) by (simp_all add: trade_log_def)
  note facts = trade_rows_effect [OF log(2), of jtext, folded rows]
  have sums: "account_sum ?rows a * 100 = of_int (logged_delta p tr d a)" for a
    using facts(2) by (simp add: logged_delta_def)
  note bal = run_balance [OF log(1) assms(3-6)]
  define ex where "ex = (\<lambda>a. \<lparr> ea_delta = logged_delta p tr d a,
      ea_trades = length (filter (\<lambda>(b, _). b = a) ?rows), ea_latest = latest_executed tmax ?rows a \<rparr>)"
  define expd where "expd = map (\<lambda>a. (a, ex a)) ?as"
  have exp: "expected_from_event_log jtext tmax p d1 = Inr expd"
    unfolding expected_from_event_log_def Let_def expd_def ex_def
    using bal(2) by (subst expect_accounts_total) (simp_all add: sums)
  have known: "map_of expd a = (if a \<in> fst ` set ?rows then Some (ex a) else None)" for a
    unfolding expd_def by (simp add: map_of_map_restrict restrict_map_def)
  have none: "logged_delta p tr d a = 0" if "a \<notin> fst ` set ?rows" for a
  proof -
    have "filter (\<lambda>e. tr_account (tr (ev_id e)) = a) (trade_events p d) = []"
      using that unfolding facts(1) by (auto simp: filter_empty_conv)
    then show ?thesis
      by (simp add: logged_delta_def)
  qed
  have "\<exists>v. view_account e expd d1 a = Inr v \<and> av_drift v = 0" for a
  proof -
    have "(case map_of expd a of None \<Rightarrow> 0 | Some x \<Rightarrow> ea_delta x) = logged_delta p tr d a"
      using none by (simp add: known ex_def)
    moreover have "Option.bind (map_of expd a) ea_latest = None \<or> (\<exists>u. Option.bind (map_of expd a) ea_latest = Some (Aware u))"
      using latest_aware [OF assms(2) facts(3), of a] by (auto simp: known ex_def)
    then obtain b where "status_stale (Option.bind (find_account e a d1) la_status_as_of) (Option.bind (map_of expd a) ea_latest) = Inr b"
      using status_stale_ok by blast
    ultimately show ?thesis
      using bal(1) [of a] unfolding balance_of_def view_account_def Let_def by simp
  qed
  then obtain vs where "view_accounts e expd d1 (sort (remdups (map fst expd @ map la_account (bank_accounts e d1)))) = Inr vs"
    "\<forall>v \<in> set vs. av_drift v = 0"
    using view_accounts_total [of _ e expd d1 "\<lambda>v. av_drift v = 0"] by blast
  moreover from this(2) have "sum_list (map (\<lambda>v. \<bar>av_drift v\<bar>) vs) = 0"
    by (induction vs) simp_all
  ultimately show ?thesis
    using exp by (simp add: build_bank_view_def)
qed

theorem safe_bank_reconciles_witness:
  "\<exists>d1 expd v. safe_run 2 trades_of [(11, 100), (10, 101), (11, 102)] trades_db = Inr d1
    \<and> expected_from_event_log (\<lambda>_. []) last 1 d1 = Inr expd \<and> build_bank_view 2 expd d1 = Inr v \<and> bv_total_drift v = 0"
proof -
  obtain d1 where run: "safe_run 2 trades_of [(11, 100), (10, 101), (11, 102)] trades_db = Inr d1"
    using trades_run by blast
  have "processed_by 2 trades_db = {}" "\<forall>r \<in> set (accounts trades_db). la_endpoint r \<noteq> 2"
    "fst ` set [(11 :: uuid, 100 :: time), (10, 101), (11, 102)] = ev_id ` set (trade_events 1 trades_db)"
    by (auto simp: processed_by_def trades_db_def sample_db_def empty_db_def trade_events_def trade_event_def)
  then show ?thesis
    using safe_bank_reconciles [OF trades_log _ _ _ _ run, where tmax = last and jtext = "\<lambda>_. []"] run by auto
qed

text \<open>C23: The naive bank loses an update: when two deliveries for one existing account both read before either
  writes, the balance ends with the second trade only, although each was applied and acknowledged; run
  one after the other the same two trades both count.\<close>

theorem naive_lost_update:
  assumes "find_account e a d = Some r" "tr_account t1 = a" "tr_account t2 = a"
    and "naive_read e t1 n1 d = Inr (d1, b1)" "naive_read e t2 n2 d1 = Inr (d2, b2)"
    and "naive_write e t1 b1 n3 d2 = Inr d3" "naive_write e t2 b2 n4 d3 = Inr d4"
  shows "balance_of e a d4 = balance_of e a d + tr_delta t2
    \<and> (\<forall>s1 s2. apply_trade_naive e t1 n1 d = Inr s1 \<longrightarrow> apply_trade_naive e t2 n2 s1 = Inr s2 \<longrightarrow>
         balance_of e a s2 = balance_of e a d + tr_delta t1 + tr_delta t2)"
proof -
  have read: "d' = c \<and> b = balance_of e a c" if "naive_read e t n c = Inr (d', b)" "tr_account t = a" "find_account e a c \<noteq> None"
    for t n c d' b
    using that ensure_existing [of e a c _ n] by (auto simp: naive_read_def bind_exc_Inr balance_of_def split: option.splits)
  have wrote: "find_account e a d' \<noteq> None \<and> balance_of e a d' = b + tr_delta t"
    if "naive_write e t b n c = Inr d'" "tr_account t = a" "find_account e a c \<noteq> None" for t b n c d'
    using that find_account_key [of e a c]
    by (auto simp: naive_write_def balance_of_def find_put_account split: option.splits if_splits)
  have r1: "d1 = d" "b1 = balance_of e a d"
    using read [OF assms(4,2)] assms(1) by simp_all
  have r2: "d2 = d" "b2 = balance_of e a d"
    using read [OF assms(5,3)] assms(1) r1 by simp_all
  have w1: "find_account e a d3 \<noteq> None"
    using wrote [OF assms(6,2)] assms(1) r2(1) by simp
  have "balance_of e a d4 = b2 + tr_delta t2"
    using wrote [OF assms(7,3) w1] by blast
  moreover have "balance_of e a s2 = balance_of e a d + tr_delta t1 + tr_delta t2"
    if s: "apply_trade_naive e t1 n1 d = Inr s1" "apply_trade_naive e t2 n2 s1 = Inr s2" for s1 s2
  proof -
    obtain c1 x1 where c1: "naive_read e t1 n1 d = Inr (c1, x1)" "naive_write e t1 x1 n1 c1 = Inr s1"
      using s(1) by (auto simp: apply_trade_naive_def bind_exc_Inr)
    obtain c2 x2 where c2: "naive_read e t2 n2 s1 = Inr (c2, x2)" "naive_write e t2 x2 n2 c2 = Inr s2"
      using s(2) by (auto simp: apply_trade_naive_def bind_exc_Inr)
    have "c1 = d" "x1 = balance_of e a d"
      using read [OF c1(1) assms(2)] assms(1) by simp_all
    then have 1: "find_account e a s1 \<noteq> None" "balance_of e a s1 = balance_of e a d + tr_delta t1"
      using wrote [OF c1(2) assms(2)] assms(1) by simp_all
    then have "c2 = s1" "x2 = balance_of e a s1"
      using read [OF c2(1) assms(3)] by simp_all
    then show ?thesis
      using wrote [OF c2(2) assms(3)] 1 by simp
  qed
  ultimately show ?thesis
    using r2(2) by blast
qed

theorem naive_lost_update_witness:
  "\<exists>d d1 d2. naive_read 2 (sample_trade 1000 0) 7 d = Inr (d, 1000000)
    \<and> naive_write 2 (sample_trade 1000 0) 1000000 8 d = Inr d1 \<and> naive_write 2 (sample_trade 500 1) 1000000 9 d1 = Inr d2
    \<and> balance_of 2 (ucode ''alice'') d2 = balance_of 2 (ucode ''alice'') d + 500"
proof -
  obtain d0 where d0: "ensure_account_row 2 (ucode ''alice'') 0 trades_db = Inr d0"
    "find_account 2 (ucode ''alice'') d0 \<noteq> None" "balance_of 2 (ucode ''alice'') d0 = 1000000"
    by (simp add: safe_defs balance_of_def trades_db_def sample_db_def empty_db_def sample_endpoint_def)
  then obtain r where r: "find_account 2 (ucode ''alice'') d0 = Some r" "la_balance r = 1000000"
    by (auto simp: balance_of_def)
  have ok: "text_ok (ucode ''alice'')" "text_ok (ucode ''buy $10.00 BTC'')"
    by (simp_all add: text_ok_def)
  have rd: "naive_read 2 (sample_trade x t) n d0 = Inr (d0, 1000000)" for x t n
    using r ok by (simp add: naive_read_def ensure_account_row_def sample_trade_def del: ucode_simps)
  have wr: "\<exists>d'. naive_write 2 (sample_trade x t) 1000000 n d = Inr d'" if "balance_ok (1000000 + x)" for x t n d
    using that ok by (auto simp: naive_write_def sample_trade_def split: option.split simp del: ucode_simps)
  obtain d1 where d1: "naive_write 2 (sample_trade 1000 0) 1000000 8 d0 = Inr d1"
    using wr [of 1000 0 8 d0] by (auto simp: balance_ok_def)
  obtain d2 where d2: "naive_write 2 (sample_trade 500 1) 1000000 9 d1 = Inr d2"
    using wr [of 500 1 9 d1] by (auto simp: balance_ok_def)
  have a: "tr_account (sample_trade x t) = ucode ''alice''" "tr_delta (sample_trade x t) = x" for x t
    by (simp_all add: sample_trade_def)
  show ?thesis
    using naive_lost_update [OF r(1) a(1) a(1) rd rd d1 d2] rd [of 1000 0 7] d1 d2 unfolding a by blast
qed

text \<open>
  Amounts below a cent: the bank rounds each trade, the log rounds the sum, so two trades of half a
  cent leave a correct bank one cent short.
\<close>

lemma subcent_rounding:
  "parse_amount (ucode ''0.005'') = Some (Cents False 0)"
  "fixed_point (ucode ''0.005'') = Some (5, 3)"
  "round_half_even ((5 / 10 ^ 3 + 5 / 10 ^ 3) * 100) = 1"
proof -
  show f: "fixed_point (ucode ''0.005'') = Some (5, 3)"
    by (simp add: fixed_point_def is_udigit_def udigits_value_def)
  have "\<lfloor>1 / 2 :: rat\<rfloor> = 0"
    by (rule floor_unique) simp_all
  then show "parse_amount (ucode ''0.005'') = Some (Cents False 0)"
    using parse_fixed_point [OF f] by (simp add: parse_amount_def quantize_cents_def Let_def round_half_even_def)
  show "round_half_even ((5 / 10 ^ 3 + 5 / 10 ^ 3) * 100) = 1"
    by (simp add: round_half_even_def)
qed

text \<open>
  A trade whose time has no offset is refused by the banks but counted by the log, and the view of an
  account whose latest time is such a one fails.
\<close>

lemma naive_latest_raises:
  assumes "find_account e a d = Some r" "la_status_as_of r = Some t" "map_of expd a = Some x" "ea_latest x = Some (Naive u)"
    and "a \<in> set as"
  shows "\<exists>err. view_accounts e expd d as = Inl err"
  using assms(5)
proof (induction as)
  case (Cons b as)
  have "view_account e expd d a = Inl TypeError"
    using assms(1-4) by (simp add: view_account_def status_stale_def)
  then show ?case
    using Cons by (cases "view_account e expd d b") auto
qed simp

end
