(* ===== verification/Banks.thy ===== *)
theory Banks
  imports Reconcile
begin

text \<open>
  The bank routes (\<^verbatim>\<open>app/routers/showcase_ledger.py\<close>): the two receivers, the reconciliation view
  and the mode switch. A request carries its raw body, the text and the document \<^verbatim>\<open>bytes.decode\<close> and
  \<^verbatim>\<open>json.loads\<close> make of it, its headers, and the clock readings and the id its handling uses. An
  exception leaves the database as it was.
\<close>

section \<open>Requests\<close>

datatype loads_result = Doc json | Not_json | Undecodable

record bank_request =
  bq_body :: bytes
  bq_text :: utext
  bq_doc :: loads_result
  bq_signature :: "string option"
  bq_timestamp :: "string option"
  bq_attempt :: "string option"
  bq_clock :: rat
  bq_row_id :: uuid
  bq_now :: time

text \<open>Text that is not JSON is tolerated, bytes that are not UTF-8 are not.\<close>

definition parse_envelope :: "(json \<Rightarrow> utext) \<Rightarrow> loads_result \<Rightarrow> py_exc + uuid option \<times> utext \<times> payload" where
  "parse_envelope rp doc =
     (case doc of
        Undecodable \<Rightarrow> Inl UnicodeDecodeError
      | Doc (JObj kvs) \<Rightarrow>
          Inr (parse_uuid (ascii_view (str_item rp kvs ''event_id'')),
               py_str rp (case get_item kvs ''type'' of None \<Rightarrow> JStr (ucode ''unknown'') | Some v \<Rightarrow> v),
               case get_item kvs ''payload'' of Some (JObj p) \<Rightarrow> p | _ \<Rightarrow> [])
      | _ \<Rightarrow> Inr (None, ucode ''unknown'', []))"

definition attempt_number :: "string option \<Rightarrow> int" where
  "attempt_number h = (case h of None \<Rightarrow> 1 | Some s \<Rightarrow> (case parse_int s of None \<Rightarrow> 1 | Some n \<Rightarrow> n))"

definition record_request :: "uuid \<Rightarrow> bank_request \<Rightarrow> utext \<Rightarrow> bool \<Rightarrow> int \<Rightarrow> db \<Rightarrow> py_exc + db" where
  "record_request e rq event_type verified response_status d =
     record_received_request (received_row (bq_row_id rq) (bq_now rq) e event_type (attempt_number (bq_attempt rq)) verified
       response_status (bq_signature rq) (bq_timestamp rq) (bq_text rq)) d"

definition check_signature :: "fernet_dec \<Rightarrow> settings \<Rightarrow> endpoint \<Rightarrow> bank_request \<Rightarrow> py_exc + bool \<times> string" where
  "check_signature fdec st ep rq =
     bind_exc (decrypt_secret fdec st (ep_secret_enc ep)) (\<lambda>secret. verify_signature secret (bq_signature rq) (bq_body rq) (bq_clock rq))"

definition unknown_bank :: string where
  "unknown_bank = ''Unknown showcase bank endpoint''"

section \<open>Bank A\<close>

definition naive_respond ::
  "fernet_dec \<Rightarrow> settings \<Rightarrow> (json \<Rightarrow> utext) \<Rightarrow> uuid \<Rightarrow> bank_request \<Rightarrow> db \<Rightarrow> py_exc + (int \<times> string) \<times> db" where
  "naive_respond fdec st rp e rq d =
     bind_exc (marked_endpoint e bank_naive_marker unknown_bank d) (\<lambda>ep.
     bind_exc (parse_envelope rp (bq_doc rq)) (\<lambda>(_, event_type, payload).
     bind_exc (check_signature fdec st ep rq) (\<lambda>(verified, _).
       if get_bank_mode e d = Down then
         bind_exc (record_request e rq event_type verified 503 d) (\<lambda>d1. Inr ((503, ''bank unavailable''), d1))
       else
         bind_exc (parse_trade rp payload) (\<lambda>trade.
         bind_exc (case trade of None \<Rightarrow> Inr d | Some tr \<Rightarrow> apply_trade_naive e tr (bq_now rq) d) (\<lambda>d1.
         bind_exc (record_request e rq event_type verified (if get_bank_mode e d = Healthy then 200 else 500) d1) (\<lambda>d2.
           Inr (if get_bank_mode e d = Flaky then (500, ''internal error'')
                else (200, if trade = None then ''ignored'' else ''applied''), d2)))))))"

section \<open>Bank B\<close>

definition safe_respond ::
  "fernet_dec \<Rightarrow> settings \<Rightarrow> (json \<Rightarrow> utext) \<Rightarrow> uuid \<Rightarrow> bank_request \<Rightarrow> db \<Rightarrow> py_exc + (int \<times> string) \<times> db" where
  "safe_respond fdec st rp e rq d =
     bind_exc (marked_endpoint e bank_safe_marker unknown_bank d) (\<lambda>ep.
     bind_exc (parse_envelope rp (bq_doc rq)) (\<lambda>(event_id, event_type, payload).
     bind_exc (check_signature fdec st ep rq) (\<lambda>(verified, reason).
       if get_bank_mode e d = Down then
         bind_exc (record_request e rq event_type verified 503 d) (\<lambda>d1. Inr ((503, ''bank unavailable''), d1))
       else if \<not> verified then
         bind_exc (record_request e rq event_type False 401 d) (\<lambda>d1. Inr ((401, reason), d1))
       else
         bind_exc (parse_trade rp payload) (\<lambda>trade.
           case (event_id, trade) of
             (Some i, Some tr) \<Rightarrow>
               bind_exc (apply_trade_safe e i tr (bq_now rq) d) (\<lambda>(res, d1).
               bind_exc (record_request e rq event_type True (if get_bank_mode e d = Healthy then 200 else 500) d1) (\<lambda>d2.
                 Inr (if get_bank_mode e d = Flaky then (500, ''internal error'')
                      else (200, if res = Applied then ''applied'' else ''duplicate''), d2)))
           | _ \<Rightarrow>
               bind_exc (record_request e rq event_type True 400 d) (\<lambda>d1.
                 Inr ((400, ''not a recognizable trade delivery''), d1))))))"

text \<open>The routes: an exception rolls the transaction back.\<close>

definition or_rollback :: "db \<Rightarrow> py_exc + 'r \<times> db \<Rightarrow> (py_exc + 'r) \<times> db" where
  "or_rollback d r = (case r of Inl x \<Rightarrow> (Inl x, d) | Inr (resp, d') \<Rightarrow> (Inr resp, d'))"

definition bank_naive_receiver ::
  "fernet_dec \<Rightarrow> settings \<Rightarrow> (json \<Rightarrow> utext) \<Rightarrow> uuid \<Rightarrow> bank_request \<Rightarrow> db \<Rightarrow> (py_exc + int \<times> string) \<times> db" where
  "bank_naive_receiver fdec st rp e rq d = or_rollback d (naive_respond fdec st rp e rq d)"

definition bank_safe_receiver ::
  "fernet_dec \<Rightarrow> settings \<Rightarrow> (json \<Rightarrow> utext) \<Rightarrow> uuid \<Rightarrow> bank_request \<Rightarrow> db \<Rightarrow> (py_exc + int \<times> string) \<times> db" where
  "bank_safe_receiver fdec st rp e rq d = or_rollback d (safe_respond fdec st rp e rq d)"

section \<open>The reconciliation view\<close>

record ledger_account_item =
  li_account :: utext
  li_balance :: string
  li_expected :: string
  li_drift :: string
  li_reconciled :: bool
  li_status :: "utext option"
  li_status_as_of :: "time option"
  li_status_stale :: bool

record ledger_bank_item =
  lb_bank :: string
  lb_endpoint :: uuid
  lb_mode :: string
  lb_total_drift :: string
  lb_reconciled :: bool
  lb_pending :: nat
  lb_dead_lettered :: nat
  lb_accounts :: "ledger_account_item list"
  lb_tail :: "received_request list"

record ledger_response =
  lr_server_time :: time
  lr_starting_balance :: string
  lr_trade_count :: nat
  lr_banks :: "ledger_bank_item list"

definition tail_limit :: nat where
  "tail_limit = 8"

definition account_item :: "account_view \<Rightarrow> ledger_account_item" where
  "account_item a =
   \<lparr> li_account = av_account a, li_balance = show_money (av_balance a), li_expected = show_money (av_expected a),
     li_drift = show_money (av_drift a), li_reconciled = (av_drift a = 0), li_status = av_status a,
     li_status_as_of = av_status_as_of a, li_status_stale = av_status_stale a \<rparr>"

text \<open>The sum of no drifts is printed without decimals.\<close>

definition bank_item :: "string \<Rightarrow> db \<Rightarrow> bank_view \<Rightarrow> ledger_bank_item" where
  "bank_item bank d v =
   \<lparr> lb_bank = bank, lb_endpoint = bv_endpoint v, lb_mode = mode_value (bv_mode v),
     lb_total_drift = (if bv_accounts v = [] then ''0'' else show_money (bv_total_drift v)),
     lb_reconciled = (bv_total_drift v = 0), lb_pending = bv_pending v, lb_dead_lettered = bv_dead_lettered v,
     lb_accounts = map account_item (bv_accounts v), lb_tail = list_inbox (bv_endpoint v) tail_limit d \<rparr>"

definition ledger ::
  "(json \<Rightarrow> utext) \<Rightarrow> (utext list \<Rightarrow> utext) \<Rightarrow> showcase_handles \<Rightarrow> time \<Rightarrow> db \<Rightarrow> py_exc + ledger_response" where
  "ledger jtext tmax h now d =
     bind_exc (expected_from_event_log jtext tmax (sh_project h) d) (\<lambda>expd.
     bind_exc (build_bank_view (sh_bank_naive h) expd d) (\<lambda>naive_view.
     bind_exc (build_bank_view (sh_bank_safe h) expd d) (\<lambda>safe_view.
       Inr \<lparr> lr_server_time = now, lr_starting_balance = show_money starting_balance,
             lr_trade_count = sum_list (map (\<lambda>(_, x). ea_trades x) expd),
             lr_banks = [bank_item ''naive'' d naive_view, bank_item ''safe'' d safe_view] \<rparr>)))"

definition set_bank_health :: "showcase_handles \<Rightarrow> string \<Rightarrow> bank_mode \<Rightarrow> time \<Rightarrow> db \<Rightarrow> (py_exc + uuid) \<times> db" where
  "set_bank_health h bank mode now d =
     (let e = (if bank = ''naive'' then sh_bank_naive h else sh_bank_safe h)
      in or_rollback d (bind_exc (set_bank_mode e mode now d) (\<lambda>d1. Inr (e, d1))))"

section \<open>What a receiver does to the ledger\<close>

lemma record_request_frame:
  assumes "record_request e rq ty v s d = Inr d'"
  shows "balance_of f a d' = balance_of f a d" "processed_by f d' = processed_by f d" "get_bank_mode f d' = get_bank_mode f d"
    "accounts d' = accounts d" "processed d' = processed d"
proof -
  obtain rs where "d' = d\<lparr>inbox := rs\<rparr>"
    using record_frame(1) assms unfolding record_request_def by blast
  then show "balance_of f a d' = balance_of f a d" "processed_by f d' = processed_by f d" "get_bank_mode f d' = get_bank_mode f d"
    "accounts d' = accounts d" "processed d' = processed d"
    by (simp_all add: balance_of_def find_account_def processed_by_def get_bank_mode_def find_health_def)
qed

lemma naive_effect:
  assumes "apply_trade_naive e tr now d = Inr d'"
  shows "balance_of e a d' = balance_of e a d + (if tr_account tr = a then tr_delta tr else 0)" "healths d' = healths d"
proof -
  obtain d1 b where rd: "naive_read e tr now d = Inr (d1, b)" and wr: "naive_write e tr b now d1 = Inr d'"
    using assms by (auto simp: apply_trade_naive_def bind_exc_Inr)
  obtain r where ens: "ensure_account_row e (tr_account tr) now d = Inr d1"
    and r: "find_account e (tr_account tr) d1 = Some r" "b = la_balance r"
    using rd by (auto simp: naive_read_def bind_exc_Inr split: option.splits)
  define r' where "r' = r\<lparr>la_balance := b + tr_delta tr, la_status := Some (tr_description tr),
      la_status_as_of := Some (tr_executed_at tr), la_updated_at := now\<rparr>"
  have d': "d' = put_account r' d1"
    using wr r by (auto simp: naive_write_def r'_def split: if_splits)
  have "la_endpoint r' = e" "la_account r' = tr_account tr" "la_balance r' = b + tr_delta tr"
    using find_account_key [OF r(1)] by (simp_all add: r'_def)
  moreover have "b = balance_of e (tr_account tr) d"
    using ensure_effect(2) [OF ens, of e "tr_account tr"] r by (simp add: balance_of_def)
  ultimately show "balance_of e a d' = balance_of e a d + (if tr_account tr = a then tr_delta tr else 0)"
    using balance_put_account [OF r(1), of r'] ensure_effect(2) [OF ens] unfolding d' by simp
  show "healths d' = healths d"
    using ens unfolding d' by (auto simp: ensure_account_row_def split: if_splits)
qed

lemma mode_healths: "healths d' = healths d \<Longrightarrow> get_bank_mode e d' = get_bank_mode e d"
  by (simp add: get_bank_mode_def find_health_def)

lemma apply_safe_healths:
  assumes "apply_trade_safe e i tr now d = Inr (res, d')"
  shows "healths d' = healths d"
proof -
  have "healths d2 = healths c" if "ensure_account_row e (tr_account tr) now c = Inr d2" for c d2
    using that by (auto simp: ensure_account_row_def split: if_splits)
  then show ?thesis
    using assms unfolding apply_trade_safe_def Let_def
    by (fastforce simp: bind_exc_Inr split: if_splits option.splits)
qed

text \<open>What bank A does with a request it answers.\<close>

definition trade_effect :: "parsed_trade option \<Rightarrow> utext \<Rightarrow> int" where
  "trade_effect t a = (case t of None \<Rightarrow> 0 | Some tr \<Rightarrow> if tr_account tr = a then tr_delta tr else 0)"

lemma naive_receiver_cases:
  assumes "bank_naive_receiver fdec st rp e rq d = (Inr (s, l), d')"
  obtains (down) "get_bank_mode e d = Down" "s = 503" "accounts d' = accounts d"
    | (handled) i ty pl t where "get_bank_mode e d \<noteq> Down" "parse_envelope rp (bq_doc rq) = Inr (i, ty, pl)" "parse_trade rp pl = Inr t"
        "\<And>a. balance_of e a d' = balance_of e a d + trade_effect t a" "get_bank_mode e d' = get_bank_mode e d"
        "s = (if get_bank_mode e d = Flaky then 500 else 200)"
proof -
  have r: "naive_respond fdec st rp e rq d = Inr ((s, l), d')"
    using assms by (auto simp: bank_naive_receiver_def or_rollback_def split: sum.splits)
  then obtain ep i ty pl v x where steps: "marked_endpoint e bank_naive_marker unknown_bank d = Inr ep"
      "parse_envelope rp (bq_doc rq) = Inr (i, ty, pl)" "check_signature fdec st ep rq = Inr (v, x)"
    by (auto simp: naive_respond_def bind_exc_Inr)
  show thesis
  proof (cases "get_bank_mode e d = Down")
    case True
    then obtain d1 where "record_request e rq ty v 503 d = Inr d1" "d' = d1" "s = 503"
      using r steps by (auto simp: naive_respond_def bind_exc_Inr)
    then show thesis
      using down [OF True] record_request_frame(4) by blast
  next
    case False
    then obtain t d1 where t: "parse_trade rp pl = Inr t"
        "(case t of None \<Rightarrow> Inr d | Some tr \<Rightarrow> apply_trade_naive e tr (bq_now rq) d) = Inr d1"
        "record_request e rq ty v (if get_bank_mode e d = Healthy then 200 else 500) d1 = Inr d'"
        "s = (if get_bank_mode e d = Flaky then 500 else 200)"
      using r steps by (auto simp: naive_respond_def bind_exc_Inr split: if_splits)
    have "balance_of e a d1 = balance_of e a d + trade_effect t a \<and> healths d1 = healths d" for a
      using t(2) naive_effect [of e _ "bq_now rq" d d1] by (auto simp: trade_effect_def split: option.splits)
    note d1 = this
    have "balance_of e a d' = balance_of e a d + trade_effect t a" for a
      using record_request_frame(1) [OF t(3)] d1 by simp
    moreover have "get_bank_mode e d' = get_bank_mode e d"
      using record_request_frame(3) [OF t(3)] mode_healths [of d1 d] d1 by simp
    ultimately show thesis
      using handled [OF False steps(2) t(1)] t(4) by blast
  qed
qed

text \<open>What bank B does: only a verified trade with a new event id touches the ledger.\<close>

lemma safe_receiver_cases:
  assumes "bank_safe_receiver fdec st rp e rq d = (Inr (s, l), d')"
  obtains (idle) "accounts d' = accounts d" "processed d' = processed d" "s \<in> {400, 401, 503}"
    | (applied) ep i ty pl tr res d1 where "get_bank_mode e d \<noteq> Down" "marked_endpoint e bank_safe_marker unknown_bank d = Inr ep"
        "\<exists>x. check_signature fdec st ep rq = Inr (True, x)" "parse_envelope rp (bq_doc rq) = Inr (Some i, ty, pl)"
        "parse_trade rp pl = Inr (Some tr)" "apply_trade_safe e i tr (bq_now rq) d = Inr (res, d1)"
        "\<And>a. balance_of e a d' = balance_of e a d1" "processed_by e d' = processed_by e d1" "get_bank_mode e d' = get_bank_mode e d"
        "s = (if get_bank_mode e d = Flaky then 500 else 200)"
proof -
  have r: "safe_respond fdec st rp e rq d = Inr ((s, l), d')"
    using assms by (auto simp: bank_safe_receiver_def or_rollback_def split: sum.splits)
  then obtain ep i ty pl v x where steps: "marked_endpoint e bank_safe_marker unknown_bank d = Inr ep"
      "parse_envelope rp (bq_doc rq) = Inr (i, ty, pl)" "check_signature fdec st ep rq = Inr (v, x)"
    by (auto simp: safe_respond_def bind_exc_Inr)
  have recorded: thesis if "record_request e rq ty v' s' d = Inr d'" "s \<in> {400, 401, 503}" for v' s'
    using idle record_request_frame(4,5) [OF that(1)] that(2) by blast
  show thesis
  proof (cases "get_bank_mode e d = Down \<or> \<not> v")
    case True
    then show thesis
      using r steps recorded by (auto simp: safe_respond_def bind_exc_Inr split: if_splits)
  next
    case False
    then have v: "v" "get_bank_mode e d \<noteq> Down"
      by simp_all
    then obtain t where t: "parse_trade rp pl = Inr t"
      using r steps by (auto simp: safe_respond_def bind_exc_Inr)
    show thesis
    proof (cases "\<exists>j tr. i = Some j \<and> t = Some tr")
      case True
      then obtain j tr where jt: "i = Some j" "t = Some tr"
        by blast
      then obtain res d1 where a: "apply_trade_safe e j tr (bq_now rq) d = Inr (res, d1)"
          "record_request e rq ty True (if get_bank_mode e d = Healthy then 200 else 500) d1 = Inr d'"
          "s = (if get_bank_mode e d = Flaky then 500 else 200)"
        using r steps v t by (auto simp: safe_respond_def bind_exc_Inr split: if_splits)
      show thesis
        using applied [OF v(2) steps(1) _ _ _ a(1)] steps v(1) t jt a(3) record_request_frame(1-3) [OF a(2)]
          mode_healths [OF apply_safe_healths [OF a(1)]] by simp
    next
      case False
      then have "record_request e rq ty True 400 d = Inr d'" "s = 400"
        using r steps v t by (auto simp: safe_respond_def bind_exc_Inr split: option.splits)
      then show thesis
        using recorded by simp
    qed
  qed
qed

lemma safe_unprocessed:
  assumes "bank_safe_receiver fdec st rp e rq d = (Inr resp, d')" "balance_of e a d' \<noteq> balance_of e a d"
  shows "\<exists>i ty pl. parse_envelope rp (bq_doc rq) = Inr (Some i, ty, pl) \<and> i \<notin> processed_by e d"
proof -
  obtain s l where "bank_safe_receiver fdec st rp e rq d = (Inr (s, l), d')"
    using assms(1) by (cases resp) simp
  then show ?thesis
  proof (cases rule: safe_receiver_cases)
    case idle
    then show ?thesis
      using assms(2) by (simp add: balance_of_def find_account_def)
  next
    case (applied ep i ty pl tr res d1)
    then show ?thesis
      using assms(2) apply_safe_effect(2) [OF applied(6), of a] by (auto split: if_splits)
  qed
qed

section \<open>When a receiver answers\<close>

lemma ensure_ok:
  assumes "text_ok a" "e \<in> ep_id ` set (endpoints d)"
  shows "\<exists>d1 r. ensure_account_row e a now d = Inr d1 \<and> find_account e a d1 = Some r \<and> la_balance r = balance_of e a d
    \<and> endpoints d1 = endpoints d \<and> inbox d1 = inbox d \<and> healths d1 = healths d"
proof -
  have "\<exists>d1. ensure_account_row e a now d = Inr d1 \<and> endpoints d1 = endpoints d \<and> inbox d1 = inbox d \<and> healths d1 = healths d"
    using assms by (cases "find_account e a d = None") (simp_all add: ensure_account_row_def)
  then obtain d1 where d1: "ensure_account_row e a now d = Inr d1" "endpoints d1 = endpoints d" "inbox d1 = inbox d" "healths d1 = healths d"
    by blast
  then obtain r where "find_account e a d1 = Some r"
    using ensure_effect(1) by blast
  then show ?thesis
    using d1 ensure_effect(2) [OF d1(1), of e a] by (auto simp: balance_of_def)
qed

lemma naive_ok:
  assumes "text_ok (tr_account tr)" "text_ok (tr_description tr)" "e \<in> ep_id ` set (endpoints d)"
    and "balance_ok (balance_of e (tr_account tr) d + tr_delta tr)"
  shows "\<exists>d'. apply_trade_naive e tr now d = Inr d' \<and> endpoints d' = endpoints d \<and> inbox d' = inbox d"
  using ensure_ok [OF assms(1,3), of now] assms(2,4)
  by (auto simp: apply_trade_naive_def naive_read_def naive_write_def)

lemma safe_ok:
  assumes "text_ok (tr_account tr)" "text_ok (tr_description tr)" "e \<in> ep_id ` set (endpoints d)"
    and "balance_ok (balance_of e (tr_account tr) d + tr_delta tr)" "\<forall>r \<in> set (accounts d). la_status r = None \<or> text_ok (the (la_status r))"
  shows "\<exists>res d'. apply_trade_safe e i tr now d = Inr (res, d') \<and> endpoints d' = endpoints d \<and> inbox d' = inbox d"
proof (cases "i \<in> processed_by e d")
  case True
  then show ?thesis
    by (simp add: apply_trade_safe_def)
next
  case False
  let ?d = "d\<lparr>processed := processed d @ [\<lparr> lp_endpoint = e, lp_event = i, lp_processed_at = now \<rparr>]\<rparr>"
  have "e \<in> ep_id ` set (endpoints ?d)" "balance_of e (tr_account tr) ?d = balance_of e (tr_account tr) d"
    using assms(3) by (simp_all add: balance_of_def find_account_def)
  then obtain d1 r where d1: "ensure_account_row e (tr_account tr) now ?d = Inr d1" "find_account e (tr_account tr) d1 = Some r"
      "la_balance r = balance_of e (tr_account tr) d" "endpoints d1 = endpoints d" "inbox d1 = inbox d"
    using ensure_ok [OF assms(1), of e ?d now] by auto
  have "la_status r = None \<or> text_ok (the (la_status r))"
    using d1(1) find_account_key [OF d1(2)] assms(5) by (auto simp: ensure_account_row_def split: if_splits)
  then have "case la_status (credited tr r) of None \<Rightarrow> True | Some s \<Rightarrow> text_ok s"
    using assms(2) by (auto simp: credited_def Let_def split: option.split)
  then show ?thesis
    using False assms(3,4) d1 unfolding apply_trade_safe_def Let_def by simp
qed

lemma record_ok:
  assumes "request_storable r" "rr_id r \<notin> rr_id ` set (inbox d)" "rr_endpoint r \<in> ep_id ` set (endpoints d)"
  shows "\<exists>d'. record_received_request r d = Inr d' \<and> endpoints d' = endpoints d \<and> set (inbox d') \<subseteq> insert r (set (inbox d))
    \<and> accounts d' = accounts d \<and> healths d' = healths d"
  using assms by (auto simp: record_received_request_def Let_def)

section \<open>Sample banks\<close>

definition naive_bank :: endpoint where
  "naive_bank = sample_endpoint\<lparr>ep_id := 20, ep_event_types := [bank_naive_marker, trade_executed]\<rparr>"

definition safe_bank :: endpoint where
  "safe_bank = sample_endpoint\<lparr>ep_id := 21, ep_event_types := [bank_safe_marker, trade_executed]\<rparr>"

definition flaky :: "uuid \<Rightarrow> receiver_health" where
  "flaky e = \<lparr> rh_endpoint = e, rh_healthy = True, rh_mode = ''flaky'', rh_updated_at = 0 \<rparr>"

definition banks_db :: db where
  "banks_db = (sample_db [])\<lparr>endpoints := [naive_bank, safe_bank], healths := [flaky 20, flaky 21]\<rparr>"

definition trade_doc :: loads_result where
  "trade_doc = Doc (JObj [(ucode ''event_id'', JStr (ucode (show_uuid 50))), (ucode ''type'', JStr trade_executed),
     (ucode ''payload'', JObj (ten_payload 0))])"

definition trade_request :: "uuid \<Rightarrow> bank_request" where
  "trade_request n =
   \<lparr> bq_body = [], bq_text = [], bq_doc = trade_doc,
     bq_signature = Some (build_signature_header ''s3cret'' 1700000000 []), bq_timestamp = None, bq_attempt = None,
     bq_clock = 1700000000, bq_row_id = n, bq_now = 0 \<rparr>"

lemma trade_envelope: "parse_envelope rp trade_doc = Inr (Some 50, trade_executed, ten_payload 0)"
proof -
  have "parse_uuid (ascii_view (ucode (show_uuid 50))) = Some 50"
    using ascii_view_ucode [of "show_uuid 50"] show_uuid_ascii [of _ 50] parse_show_uuid by simp
  then show ?thesis
    unfolding parse_envelope_def trade_doc_def str_item_def get_item_def by (simp add: py_str_def)
qed

lemma hexlify_no_nul: "CHR 0x00 \<notin> set (hexlify bs)"
proof -
  have "code (hex_digit n) \<noteq> 0" if "n < 16" for n
    using that by (simp add: hex_digit_def code_def of_char_of)
  moreover have "unat b div 16 < 16" for b :: "8 word"
    using unsigned_less [of b, where 'a = nat] by simp
  ultimately have "list_all (\<lambda>c. code c \<noteq> 0) (hex_byte b)" for b
    by (simp add: hex_byte_def)
  then have "code c \<noteq> 0" if "c \<in> set (hexlify bs)" for c
    using that by (auto simp: hexlify_def list_all_iff)
  moreover have "code (CHR 0x00) = 0"
    by (simp add: code_def)
  ultimately show ?thesis
    by metis
qed

lemma built_no_nul: "CHR 0x00 \<notin> set (build_signature_header secret ts body)"
proof -
  have "c \<noteq> CHR 0x00" if "c \<in> set (hexlify bs)" for c bs
    using hexlify_no_nul that by metis
  moreover have "c \<noteq> CHR 0x00" if "c \<in> set (show_int i)" for c i
    using show_int_chars [OF that] by (auto simp: is_digit_def code_def)
  ultimately show ?thesis
    by (auto simp: build_signature_header_def sign_payload_def hmac_hexdigest_def Let_def)
qed

lemma trade_storable:
  assumes "s \<in> {200, 500}"
  shows "request_storable (received_row i 0 e trade_executed 1 v s (Some (build_signature_header k ts [])) None [])"
  by (simp add: request_storable_def received_row_def text_ok_def trade_executed_def built_no_nul)

lemma banks_modes: "get_bank_mode 20 banks_db = Flaky" "get_bank_mode 21 banks_db = Flaky"
  by (simp_all add: get_bank_mode_def find_health_def banks_db_def flaky_def)

lemma banks_marked:
  "marked_endpoint 20 bank_naive_marker msg banks_db = Inr naive_bank"
  "marked_endpoint 21 bank_safe_marker msg banks_db = Inr safe_bank"
  by (simp_all add: marked_endpoint_def find_endpoint_def banks_db_def naive_bank_def safe_bank_def)

lemma bank_signature:
  "check_signature sample_dec st naive_bank (trade_request n) = Inr (True, ''ok'')"
  "check_signature sample_dec st safe_bank (trade_request n) = Inr (True, ''ok'')"
  using verify_built [of 1700000000 1700000000] sample_secret [of st]
  by (simp_all add: check_signature_def naive_bank_def safe_bank_def trade_request_def)

definition banks_ready :: "db \<Rightarrow> bool" where
  "banks_ready d \<longleftrightarrow> endpoints d = [naive_bank, safe_bank] \<and> healths d = [flaky 20, flaky 21]"

lemma ready_facts:
  assumes "banks_ready d"
  shows "get_bank_mode 20 d = Flaky" "get_bank_mode 21 d = Flaky"
    "marked_endpoint 20 bank_naive_marker msg d = Inr naive_bank" "marked_endpoint 21 bank_safe_marker msg d = Inr safe_bank"
    "20 \<in> ep_id ` set (endpoints d)" "21 \<in> ep_id ` set (endpoints d)"
  using assms by (simp_all add: banks_ready_def get_bank_mode_def find_health_def flaky_def marked_endpoint_def find_endpoint_def
      naive_bank_def safe_bank_def)

lemma ten_trade: "parse_trade rp (ten_payload 0) = Inr (Some (sample_trade 1000 0))"
  by (rule parse_ten) (simp add: time_in_range_def day_us_def)

lemma ten_texts: "tr_account (sample_trade x t) = ucode ''alice''" "text_ok (tr_account (sample_trade x t))"
  "text_ok (tr_description (sample_trade x t))" "tr_delta (sample_trade x t) = x"
  by (simp_all add: sample_trade_def text_ok_def)

lemma trade_recorded:
  assumes "n \<notin> rr_id ` set (inbox d)" "e \<in> ep_id ` set (endpoints d)"
  shows "\<exists>d'. record_request e (trade_request n) trade_executed True 500 d = Inr d' \<and> endpoints d' = endpoints d
    \<and> rr_id ` set (inbox d') \<subseteq> insert n (rr_id ` set (inbox d)) \<and> healths d' = healths d"
proof -
  let ?r = "received_row n 0 e trade_executed 1 True 500 (Some (build_signature_header ''s3cret'' 1700000000 [])) None []"
  have "request_storable ?r" "rr_id ?r = n" "rr_endpoint ?r = e"
    by (simp_all add: trade_storable) (simp_all add: received_row_def)
  then obtain d' where "record_received_request ?r d = Inr d'" "endpoints d' = endpoints d"
      "set (inbox d') \<subseteq> insert ?r (set (inbox d))" "healths d' = healths d"
    using record_ok [of ?r d] assms by auto
  then show ?thesis
    using \<open>rr_id ?r = n\<close> by (auto simp: record_request_def trade_request_def attempt_number_def)
qed

lemma request_fields: "bq_doc (trade_request n) = trade_doc" "bq_now (trade_request n) = 0"
  by (simp_all add: trade_request_def)

lemma next_id: "X \<subseteq> {90 :: uuid} \<Longrightarrow> 91 \<notin> X"
  by auto

lemma banks_db_ready: "banks_ready banks_db"
  by (simp add: banks_ready_def banks_db_def)

lemma banks_db_empty: "inbox banks_db = []" "accounts banks_db = []" "processed_by e banks_db = {}"
  "balance_of e a banks_db = starting_balance"
  by (simp_all add: banks_db_def sample_db_def empty_db_def processed_by_def balance_of_def find_account_def)

lemma naive_answers:
  assumes "banks_ready d" "n \<notin> rr_id ` set (inbox d)" "balance_ok (balance_of 20 (ucode ''alice'') d + 1000)"
  shows "\<exists>l d'. bank_naive_receiver sample_dec st rp 20 (trade_request n) d = (Inr (500, l), d')
    \<and> banks_ready d' \<and> rr_id ` set (inbox d') \<subseteq> insert n (rr_id ` set (inbox d))"
proof -
  note ready = ready_facts [OF assms(1)]
  obtain d1 where d1: "apply_trade_naive 20 (sample_trade 1000 0) 0 d = Inr d1" "endpoints d1 = endpoints d" "inbox d1 = inbox d"
    using naive_ok [of "sample_trade 1000 0" 20 d 0] ten_texts ready(5) assms(3) by auto
  obtain d2 where d2: "record_request 20 (trade_request n) trade_executed True 500 d1 = Inr d2" "endpoints d2 = endpoints d1"
      "rr_id ` set (inbox d2) \<subseteq> insert n (rr_id ` set (inbox d1))" "healths d2 = healths d1"
    using trade_recorded [of n d1 20] d1(2,3) ready(5) assms(2) by auto
  have "naive_respond sample_dec st rp 20 (trade_request n) d = Inr ((500, ''internal error''), d2)"
    using ready(1,3) d1(1) d2(1) ten_trade bank_signature(1) trade_envelope
    by (simp add: naive_respond_def request_fields)
  then show ?thesis
    using d1(2,3) d2 naive_effect(2) [OF d1(1)] assms(1) by (auto simp: bank_naive_receiver_def or_rollback_def banks_ready_def)
qed

lemma safe_answers:
  assumes "banks_ready d" "n \<notin> rr_id ` set (inbox d)"
    and "50 \<in> processed_by 21 d \<or> accounts d = []"
  shows "\<exists>l d'. bank_safe_receiver sample_dec st rp 21 (trade_request n) d = (Inr (500, l), d')
    \<and> banks_ready d' \<and> rr_id ` set (inbox d') \<subseteq> insert n (rr_id ` set (inbox d)) \<and> 50 \<in> processed_by 21 d'"
proof -
  note ready = ready_facts [OF assms(1)]
  obtain res d1 where d1: "apply_trade_safe 21 50 (sample_trade 1000 0) 0 d = Inr (res, d1)" "endpoints d1 = endpoints d" "inbox d1 = inbox d"
  proof (cases "50 \<in> processed_by 21 d")
    case True
    then show thesis
      using that by (simp add: apply_trade_safe_def)
  next
    case False
    then have "accounts d = []" "balance_of 21 (ucode ''alice'') d = starting_balance"
      using assms(3) by (simp_all add: balance_of_def find_account_def)
    then show thesis
      using safe_ok [of "sample_trade 1000 0" 21 d 50 0] ten_texts ready(6) that
      by (auto simp: balance_ok_def starting_balance_def simp del: ucode_simps)
  qed
  obtain d2 where d2: "record_request 21 (trade_request n) trade_executed True 500 d1 = Inr d2" "endpoints d2 = endpoints d1"
      "rr_id ` set (inbox d2) \<subseteq> insert n (rr_id ` set (inbox d1))" "healths d2 = healths d1"
    using trade_recorded [of n d1 21] d1(2,3) ready(6) assms(2) by auto
  have "safe_respond sample_dec st rp 21 (trade_request n) d = Inr ((500, ''internal error''), d2)"
    using ready(2,4) d1(1) d2(1) ten_trade bank_signature(2) trade_envelope
    by (simp add: safe_respond_def request_fields)
  moreover have "50 \<in> processed_by 21 d2"
    using record_request_frame(2) [OF d2(1)] apply_safe_effect(1) [OF d1(1)] by simp
  ultimately show ?thesis
    using d1(2,3) d2 apply_safe_healths [OF d1(1)] assms(1) by (auto simp: bank_safe_receiver_def or_rollback_def banks_ready_def)
qed

section \<open>Properties\<close>

text \<open>C21: Only a genuine trade moves bank B's money, and only once: a balance changes only by the amount of a
  trade whose request carries a valid signature, reaches the bank while it is not down and names an event
  the bank has not processed; that event is processed from then on, and no request makes the bank
  forget one.\<close>

theorem safe_receiver_guarded:
  assumes "bank_safe_receiver fdec st rp e rq d = (r, d')"
  shows "processed_by e d \<subseteq> processed_by e d'
    \<and> (balance_of e a d' \<noteq> balance_of e a d \<longrightarrow>
        (\<exists>ep i ty pl tr x. marked_endpoint e bank_safe_marker unknown_bank d = Inr ep
           \<and> check_signature fdec st ep rq = Inr (True, x) \<and> get_bank_mode e d \<noteq> Down
           \<and> parse_envelope rp (bq_doc rq) = Inr (Some i, ty, pl) \<and> parse_trade rp pl = Inr (Some tr) \<and> tr_account tr = a
           \<and> i \<notin> processed_by e d \<and> i \<in> processed_by e d' \<and> balance_of e a d' = balance_of e a d + tr_delta tr))"
proof (cases r)
  case (Inl x)
  then have "d' = d"
    using assms by (auto simp: bank_safe_receiver_def or_rollback_def split: sum.splits)
  then show ?thesis
    by simp
next
  case (Inr resp)
  obtain s l where resp: "bank_safe_receiver fdec st rp e rq d = (Inr (s, l), d')"
    using assms Inr by (cases resp) simp
  then show ?thesis
  proof (cases rule: safe_receiver_cases)
    case idle
    then show ?thesis
      by (simp add: processed_by_def balance_of_def find_account_def)
  next
    case (applied ep i ty pl tr res d1)
    note eff = apply_safe_effect [OF applied(6)]
    show ?thesis
    proof (cases "i \<in> processed_by e d \<or> tr_account tr \<noteq> a")
      case True
      then show ?thesis
        using eff(1) eff(2) [of a] applied(7,8) by auto
    next
      case False
      then show ?thesis
        using eff(1) eff(2) [of a] applied(1-5,7,8) by (auto intro!: exI)
    qed
  qed
qed

theorem safe_receiver_guarded_witness:
  "\<exists>l d'. bank_safe_receiver sample_dec default_settings (\<lambda>_. []) 21 (trade_request 90) banks_db = (Inr (500, l), d')
    \<and> processed_by 21 banks_db \<subseteq> processed_by 21 d' \<and> 50 \<in> processed_by 21 d'"
proof -
  obtain l d' where "bank_safe_receiver sample_dec default_settings (\<lambda>_. []) 21 (trade_request 90) banks_db = (Inr (500, l), d')"
    "50 \<in> processed_by 21 d'"
    using safe_answers [OF banks_db_ready, of 90 default_settings "\<lambda>_. []"] banks_db_empty by auto
  then show ?thesis
    using safe_receiver_guarded by blast
qed

text \<open>C22: A lost acknowledgement costs bank A, not bank B: when a flaky bank applies a trade and answers 500,
  the platform's retry of the same delivery credits the trade a second time at bank A and leaves bank B's
  balance as the first delivery made it.\<close>

theorem lost_ack:
  assumes "parse_envelope rp doc = Inr (Some i, ty, pl)" "parse_trade rp pl = Inr (Some tr)"
    and "get_bank_mode ea da = Flaky" "bq_doc ra = doc" "bq_doc ra' = doc"
    and "bank_naive_receiver fdec st rp ea ra da = (Inr respa, da1)" "bank_naive_receiver fdec st rp ea ra' da1 = (Inr respa', da2)"
    and "get_bank_mode eb db = Flaky" "i \<notin> processed_by eb db" "bq_doc rb = doc" "bq_doc rb' = doc"
    and "bank_safe_receiver fdec st rp eb rb db = (Inr (500, l), db1)" "bank_safe_receiver fdec st rp eb rb' db1 = (Inr respb', db2)"
  shows "fst respa = 500 \<and> balance_of ea (tr_account tr) da2 = balance_of ea (tr_account tr) da + 2 * tr_delta tr
    \<and> balance_of eb (tr_account tr) db1 = balance_of eb (tr_account tr) db + tr_delta tr
    \<and> balance_of eb (tr_account tr) db2 = balance_of eb (tr_account tr) db1"
proof -
  have naive: "s = 500 \<and> balance_of ea (tr_account tr) d' = balance_of ea (tr_account tr) d + tr_delta tr \<and> get_bank_mode ea d' = Flaky"
    if "bank_naive_receiver fdec st rp ea rq d = (Inr (s, m), d')" "bq_doc rq = doc" "get_bank_mode ea d = Flaky" for rq d s m d'
    using that(1)
  proof (cases rule: naive_receiver_cases)
    case down
    then show ?thesis
      using that(3) by simp
  next
    case (handled j u q t)
    then have "t = Some tr"
      using that(2) assms(1,2) by simp
    then show ?thesis
      using handled(4) [of "tr_account tr"] handled(5,6) that(3) by (simp add: trade_effect_def)
  qed
  obtain s m s' m' where resp: "respa = (s, m)" "respa' = (s', m')"
    by fastforce
  have a1: "s = 500" "balance_of ea (tr_account tr) da1 = balance_of ea (tr_account tr) da + tr_delta tr" "get_bank_mode ea da1 = Flaky"
    using naive [of ra da s m da1] assms(3,4,6) resp by simp_all
  have a2: "balance_of ea (tr_account tr) da2 = balance_of ea (tr_account tr) da1 + tr_delta tr"
    using naive [of ra' da1 s' m' da2] assms(5,7) resp a1(3) by simp
  have b1: "balance_of eb (tr_account tr) db1 = balance_of eb (tr_account tr) db + tr_delta tr" "i \<in> processed_by eb db1"
    using assms(12)
  proof (atomize(full), cases rule: safe_receiver_cases)
    case idle
    then show "balance_of eb (tr_account tr) db1 = balance_of eb (tr_account tr) db + tr_delta tr \<and> i \<in> processed_by eb db1"
      by simp
  next
    case (applied ep j u q t res c)
    then have "j = i" "t = tr"
      using assms(1,2,10) by simp_all
    then show "balance_of eb (tr_account tr) db1 = balance_of eb (tr_account tr) db + tr_delta tr \<and> i \<in> processed_by eb db1"
      using apply_safe_effect(1) [OF applied(6)] apply_safe_effect(2) [OF applied(6), of "tr_account tr"] applied(7,8) assms(9)
      by simp
  qed
  have "balance_of eb (tr_account tr) db2 = balance_of eb (tr_account tr) db1"
  proof (rule ccontr)
    assume "balance_of eb (tr_account tr) db2 \<noteq> balance_of eb (tr_account tr) db1"
    then obtain j u q where "parse_envelope rp doc = Inr (Some j, u, q)" "j \<notin> processed_by eb db1"
      using safe_unprocessed [OF assms(13)] assms(11) by blast
    then show False
      using assms(1) b1(2) by simp
  qed
  then show ?thesis
    using a1 a2 b1(1) resp by simp
qed

theorem lost_ack_witness:
  "\<exists>la da la' da' lb db lb' db'.
      bank_naive_receiver sample_dec default_settings (\<lambda>_. []) 20 (trade_request 90) banks_db = (Inr (500, la), da)
    \<and> bank_naive_receiver sample_dec default_settings (\<lambda>_. []) 20 (trade_request 91) da = (Inr (500, la'), da')
    \<and> bank_safe_receiver sample_dec default_settings (\<lambda>_. []) 21 (trade_request 90) banks_db = (Inr (500, lb), db)
    \<and> bank_safe_receiver sample_dec default_settings (\<lambda>_. []) 21 (trade_request 91) db = (Inr (500, lb'), db')
    \<and> balance_of 20 (ucode ''alice'') da' = starting_balance + 2000
    \<and> balance_of 21 (ucode ''alice'') db' = starting_balance + 1000"
proof -
  let ?A = "bank_naive_receiver sample_dec default_settings (\<lambda>_. []) 20"
  let ?B = "bank_safe_receiver sample_dec default_settings (\<lambda>_. []) 21"
  have ok: "balance_ok (starting_balance + 1000)" "balance_ok (starting_balance + 1000 + 1000)"
    by (simp_all add: balance_ok_def starting_balance_def)
  obtain la da where a1: "?A (trade_request 90) banks_db = (Inr (500, la), da)" "banks_ready da"
      "rr_id ` set (inbox da) \<subseteq> {90}"
    using naive_answers [OF banks_db_ready, of 90 default_settings "\<lambda>_. []"] banks_db_empty ok(1) by auto
  have "balance_of 20 (ucode ''alice'') da = starting_balance + 1000"
    using a1(1)
  proof (cases rule: naive_receiver_cases)
    case down
    then show ?thesis
      using ready_facts(1) [OF banks_db_ready] by simp
  next
    case (handled i ty pl t)
    then have "t = Some (sample_trade 1000 0)"
      using trade_envelope ten_trade by (simp add: request_fields)
    then show ?thesis
      using handled(4) ten_texts banks_db_empty by (simp add: trade_effect_def)
  qed
  then obtain la' da' where a2: "?A (trade_request 91) da = (Inr (500, la'), da')"
    using naive_answers [OF a1(2) next_id [OF a1(3)], of default_settings "\<lambda>_. []"] ok(2) by auto
  obtain lb db where b1: "?B (trade_request 90) banks_db = (Inr (500, lb), db)" "banks_ready db"
      "rr_id ` set (inbox db) \<subseteq> {90}" "50 \<in> processed_by 21 db"
    using safe_answers [OF banks_db_ready, of 90 default_settings "\<lambda>_. []"] banks_db_empty by auto
  obtain lb' db' where b2: "?B (trade_request 91) db = (Inr (500, lb'), db')"
    using safe_answers [OF b1(2) next_id [OF b1(3)], of default_settings "\<lambda>_. []"] b1(4) by auto
  have new: "50 \<notin> processed_by 21 banks_db"
    by (simp add: banks_db_empty)
  note lost = lost_ack [OF trade_envelope ten_trade ready_facts(1) [OF banks_db_ready] request_fields(1) request_fields(1) a1(1) a2
      ready_facts(2) [OF banks_db_ready] new request_fields(1) request_fields(1) b1(1) b2]
  have "balance_of 20 (ucode ''alice'') da' = starting_balance + 2000" "balance_of 21 (ucode ''alice'') db' = starting_balance + 1000"
    using lost by (simp_all only: ten_texts(1,4) banks_db_empty(4))
  then show ?thesis
    using a1(1) a2 b1(1) b2 by blast
qed

text \<open>Two requests anyone can send make bank A answer with an unhandled exception instead of recording them:
  a body that is not UTF-8, whatever its signature, and a trade whose amount reads NaN, unless the bank is
  down; neither leaves a trace in the database.\<close>

theorem bank_body_raises:
  assumes "marked_endpoint e bank_naive_marker unknown_bank d = Inr ep"
    and "decrypt_secret fdec st (ep_secret_enc ep) = Inr secret" "bq_signature rq = None" "get_bank_mode e d \<noteq> Down"
  shows "(bq_doc rq = Undecodable \<longrightarrow> bank_naive_receiver fdec st rp e rq d = (Inl UnicodeDecodeError, d))
    \<and> (bq_doc rq = Doc (JObj [(ucode ''payload'', JObj (trade_payload (ucode ''alice'') ''buy'' (ucode ''NaN'') 0))]) \<longrightarrow>
        bank_naive_receiver fdec st rp e rq d = (Inl InvalidOperation, d))"
proof -
  let ?pl = "trade_payload (ucode ''alice'') ''buy'' (ucode ''NaN'') 0"
  have "fromisoformat (ascii_view (ucode (isoformat 0))) = Some (Aware 0)"
    using isoformat_chars [of 0] ascii_view_ucode [of "isoformat 0"] fromisoformat_isoformat [of 0]
    by (simp add: time_in_range_def day_us_def)
  moreover have "parse_amount (ucode ''NaN'') = Some Amount_NaN"
    by (simp add: parse_amount_def parse_decimal_def ustrip_def is_space_point_def ulower_def quantize_cents_def)
  moreover have "is_side ?pl = Some (ucode ''buy'')"
    by (simp add: is_side_def)
  ultimately have "parse_trade rp ?pl = Inl InvalidOperation"
    unfolding parse_trade_def str_item_def py_str_def by simp
  moreover have "\<exists>i ty. parse_envelope rp (Doc (JObj [(ucode ''payload'', JObj ?pl)])) = Inr (i, ty, ?pl)"
    by (simp add: parse_envelope_def get_item_def)
  moreover have "\<exists>x. check_signature fdec st ep rq = Inr (False, x)"
    using assms(2,3) by (simp add: check_signature_def verify_signature_def truthy_def)
  ultimately show ?thesis
    using assms(1,4) by (auto simp: bank_naive_receiver_def naive_respond_def or_rollback_def parse_envelope_def)
qed

theorem bank_body_raises_witness:
  "bank_naive_receiver sample_dec default_settings (\<lambda>_. []) 20 ((trade_request 90)\<lparr>bq_signature := None, bq_doc := Undecodable\<rparr>) banks_db
    = (Inl UnicodeDecodeError, banks_db)"
  using bank_body_raises [OF ready_facts(3) [OF banks_db_ready], of sample_dec default_settings "''s3cret''"
      "(trade_request 90)\<lparr>bq_signature := None, bq_doc := Undecodable\<rparr>" "\<lambda>_. []"] sample_secret [of default_settings]
    ready_facts(1) [OF banks_db_ready]
  by (simp add: naive_bank_def)

end
