(* ===== verification/Metrics.thy ===== *)
theory Metrics
  imports Worker_Progress Isoparse
begin

text \<open>
  The dashboard's aggregates (\<^verbatim>\<open>app/services/metrics.py\<close>) and the latency statistics of the benchmark
  (\<^verbatim>\<open>benchmark/runner.py\<close>). PostgreSQL's \<^verbatim>\<open>percentile_cont\<close> is the parameter \<open>pct\<close>; floats are
  rationals.
\<close>

section \<open>The dashboard summary\<close>

record status_totals =
  tot_pending :: int
  tot_in_flight :: int
  tot_succeeded :: int
  tot_failed :: int
  tot_dead_lettered :: int
  tot_all :: int

record metrics_summary =
  ms_totals :: status_totals
  ms_success_rate :: "rat option"
  ms_dlq_depth :: int
  ms_attempts_total :: int
  ms_latency :: "(rat \<times> rat \<times> rat) option"
  ms_throughput :: rat

definition project_deliveries :: "uuid \<Rightarrow> db \<Rightarrow> delivery list" where
  "project_deliveries p d = filter (\<lambda>x. delivery_project d x = Some p) (deliveries d)"

definition status_count :: "delivery_status \<Rightarrow> uuid \<Rightarrow> db \<Rightarrow> int" where
  "status_count s p d = int (length (filter (\<lambda>x. dl_status x = s) (project_deliveries p d)))"

definition status_totals_of :: "uuid \<Rightarrow> db \<Rightarrow> status_totals" where
  "status_totals_of p d =
     (let n = (\<lambda>s. status_count s p d)
      in \<lparr> tot_pending = n Pending, tot_in_flight = n In_flight, tot_succeeded = n Succeeded, tot_failed = n Failed,
           tot_dead_lettered = n Dead_lettered, tot_all = n Pending + n In_flight + n Succeeded + n Failed + n Dead_lettered \<rparr>)"

definition success_rate_of :: "status_totals \<Rightarrow> rat option" where
  "success_rate_of t =
     (let terminal = tot_succeeded t + tot_dead_lettered t
      in if 0 < terminal then Some (of_int (round_half_even (of_int (tot_succeeded t) / of_int terminal * 10000)) / 10000)
         else None)"

definition project_attempts :: "uuid \<Rightarrow> db \<Rightarrow> delivery_attempt list" where
  "project_attempts p d =
     filter (\<lambda>a. case find_delivery (at_delivery a) d of None \<Rightarrow> False | Some x \<Rightarrow> delivery_project d x = Some p) (attempts d)"

definition durations_of :: "uuid \<Rightarrow> db \<Rightarrow> int list" where
  "durations_of p d = List.map_filter at_duration_ms (project_attempts p d)"

definition throughput_window :: time where
  "throughput_window = seconds 60"

definition succeeded_recent :: "uuid \<Rightarrow> time \<Rightarrow> db \<Rightarrow> int" where
  "succeeded_recent p now d =
     int (length (filter (\<lambda>x. dl_status x = Succeeded \<and> now - throughput_window \<le> dl_updated_at x) (project_deliveries p d)))"

definition delivery_summary :: "(rat \<Rightarrow> int list \<Rightarrow> rat option) \<Rightarrow> uuid \<Rightarrow> time \<Rightarrow> db \<Rightarrow> py_exc + metrics_summary" where
  "delivery_summary pct p now d =
     (let totals = status_totals_of p d;
          ds = durations_of p d;
          result = (\<lambda>latency. Inr \<lparr> ms_totals = totals, ms_success_rate = success_rate_of totals,
              ms_dlq_depth = tot_dead_lettered totals, ms_attempts_total = int (length (project_attempts p d)),
              ms_latency = latency, ms_throughput = of_int (succeeded_recent p now d) \<rparr>)
      in case (pct (1 / 2) ds, pct (95 / 100) ds, pct (99 / 100) ds) of
           (None, _, _) \<Rightarrow> result None
         | (Some p50, Some p95, Some p99) \<Rightarrow> result (Some (p50, p95, p99))
         | _ \<Rightarrow> Inl TypeError)"

section \<open>The benchmark's statistics\<close>

record latency_stats =
  lt_count :: nat
  lt_p50 :: rat
  lt_p95 :: rat
  lt_p99 :: rat
  lt_mean :: rat
  lt_min :: rat
  lt_max :: rat

text \<open>A trailing Z reads as a zero offset, and a datetime without an offset as UTC.\<close>

definition parse_iso :: "string \<Rightarrow> py_exc + time" where
  "parse_iso ts =
     (let s = (if ts \<noteq> [] \<and> last ts = CHR ''Z'' then butlast ts @ ''+00:00'' else ts)
      in case fromisoformat s of
           None \<Rightarrow> Inl (ValueError ''Invalid isoformat string'')
         | Some (Aware t) \<Rightarrow> Inr t
         | Some (Naive t) \<Rightarrow> Inr t)"

fun latency_samples :: "(string \<times> string) list \<Rightarrow> py_exc + rat list" where
  "latency_samples [] = Inr []"
| "latency_samples ((created, updated) # ds) =
     bind_exc (parse_iso created) (\<lambda>c. bind_exc (parse_iso updated) (\<lambda>u.
       let ms = of_int (u - c) / 1000
       in bind_exc (latency_samples ds) (\<lambda>rest. Inr (if 0 \<le> ms then ms # rest else rest))))"

definition pct_index :: "nat \<Rightarrow> nat \<Rightarrow> nat" where
  "pct_index p n = min (p * n div 100) (n - 1)"

definition compute_latency_stats :: "(string \<times> string) list \<Rightarrow> py_exc + latency_stats" where
  "compute_latency_stats ds =
     (if ds = [] then Inl (ValueError ''No deliveries to compute stats from'')
      else bind_exc (latency_samples ds) (\<lambda>samples.
        if samples = [] then Inl (ValueError ''No valid (non-negative) latency samples found'')
        else let xs = sort samples; n = length xs; pct = (\<lambda>p. xs ! pct_index p n)
             in Inr \<lparr> lt_count = n, lt_p50 = pct 50, lt_p95 = pct 95, lt_p99 = pct 99,
                      lt_mean = sum_list xs / of_nat n, lt_min = xs ! 0, lt_max = last xs \<rparr>))"

section \<open>Counting by status\<close>

lemma status_partition:
  "(\<Sum>s \<in> {Pending, In_flight, Succeeded, Failed, Dead_lettered}. length (filter (\<lambda>x. dl_status x = s) xs)) = length xs"
proof (induction xs)
  case (Cons x xs)
  then show ?case
    by (cases "dl_status x") simp_all
qed simp

lemma totals_all: "tot_all (status_totals_of p d) = int (length (project_deliveries p d))"
  using status_partition [of "project_deliveries p d"] by (simp add: status_totals_of_def status_count_def Let_def)

lemma success_rate_bounds:
  assumes "0 \<le> tot_succeeded t" "0 \<le> tot_dead_lettered t" "success_rate_of t = Some r"
  shows "0 \<le> r \<and> r \<le> 1 \<and> \<bar>r - of_int (tot_succeeded t) / of_int (tot_succeeded t + tot_dead_lettered t)\<bar> \<le> 1 / 20000"
proof -
  define q :: rat where "q = of_int (tot_succeeded t) / of_int (tot_succeeded t + tot_dead_lettered t)"
  have t: "0 < tot_succeeded t + tot_dead_lettered t" and r: "r = of_int (round_half_even (q * 10000)) / 10000"
    using assms(3) by (auto simp: success_rate_of_def q_def Let_def split: if_splits)
  have pos: "(0::rat) < of_int (tot_succeeded t + tot_dead_lettered t)"
    using t by (simp only: of_int_0_less_iff)
  have q: "0 \<le> q" "q \<le> 1"
    using assms(1,2) pos by (simp_all add: q_def divide_le_eq_1)
  have lo: "round_half_even (of_int 0) \<le> round_half_even (q * 10000)"
    using q(1) by (intro round_half_even_mono) simp
  have hi: "round_half_even (q * 10000) \<le> round_half_even (of_int 10000)"
    using q(2) by (intro round_half_even_mono) simp
  have "(0::rat) \<le> of_int (round_half_even (q * 10000))" "of_int (round_half_even (q * 10000)) \<le> (of_int 10000 :: rat)"
    using lo hi by (simp_all only: round_half_even_of_int of_int_0_le_iff of_int_le_iff)
  then have "0 \<le> r \<and> r \<le> 1"
    unfolding r by simp
  moreover have "\<bar>r - q\<bar> \<le> 1 / 20000"
    using round_half_even_bounds [of "q * 10000"] unfolding r abs_le_iff by (simp add: field_simps)
  ultimately show ?thesis
    by (simp add: q_def)
qed

text \<open>Under the audit invariant a delivery has as many attempt rows as its count says.\<close>

lemma attempts_sum:
  assumes "distinct (map dl_id xs)"
  shows "length (filter (\<lambda>a. \<exists>x \<in> set xs. at_delivery a = dl_id x) as)
    = (\<Sum>x \<leftarrow> xs. length (filter (\<lambda>a. at_delivery a = dl_id x) as))"
  using assms
proof (induction xs)
  case (Cons x xs)
  have "length (filter (\<lambda>a. \<exists>y \<in> set (x # xs). at_delivery a = dl_id y) as)
      = length (filter (\<lambda>a. at_delivery a = dl_id x) as) + length (filter (\<lambda>a. \<exists>y \<in> set xs. at_delivery a = dl_id y) as)"
    using Cons.prems by (induction as) auto
  then show ?case
    using Cons by simp
qed simp

lemma project_attempts_sum:
  assumes "distinct (map dl_id (deliveries d))" "audited d"
  shows "int (length (project_attempts p d)) = (\<Sum>x \<leftarrow> project_deliveries p d. dl_attempt_count x)"
proof -
  let ?xs = "project_deliveries p d"
  have dist: "distinct (map dl_id ?xs)"
    using assms(1) by (simp add: project_deliveries_def distinct_map_filter)
  have "(case find_delivery i d of None \<Rightarrow> False | Some x \<Rightarrow> delivery_project d x = Some p)
      \<longleftrightarrow> (\<exists>x \<in> set ?xs. i = dl_id x)" for i
  proof (cases "find_delivery i d")
    case None
    then have "i \<notin> dl_id ` set (deliveries d)"
      by (simp add: find_delivery_def find_pk_None)
    then show ?thesis
      using None by (auto simp: project_deliveries_def)
  next
    case (Some x)
    then have "y = x" if "y \<in> set (deliveries d)" "dl_id y = i" for y
      using find_pk_inj [OF assms(1)] that by (simp add: find_delivery_def)
    moreover have "x \<in> set (deliveries d)" "dl_id x = i"
      using find_delivery_mem [OF Some] by blast+
    ultimately have "delivery_project d x = Some p \<longleftrightarrow> (\<exists>y \<in> set ?xs. i = dl_id y)"
      unfolding project_deliveries_def set_filter by blast
    then show ?thesis
      using Some by simp
  qed
  then have "project_attempts p d = filter (\<lambda>a. \<exists>x \<in> set ?xs. at_delivery a = dl_id x) (attempts d)"
    by (simp only: project_attempts_def)
  then have "length (project_attempts p d) = (\<Sum>x \<leftarrow> ?xs. length (attempts_of (dl_id x) d))"
    using attempts_sum [OF dist, of "attempts d"] by (simp add: attempts_of_def)
  moreover have "int (\<Sum>x \<leftarrow> xs. length (attempts_of (dl_id x) d)) = (\<Sum>x \<leftarrow> xs. dl_attempt_count x)"
    if "set xs \<subseteq> set (deliveries d)" for xs
    using that
  proof (induction xs)
    case (Cons x xs)
    then have "0 \<le> dl_attempt_count x" "length (map at_number (attempts_of (dl_id x) d)) = length [1..dl_attempt_count x]"
      using assms(2) by (auto simp: audited_def)
    then show ?case
      using Cons by simp
  qed simp
  ultimately show ?thesis
    by (simp add: project_deliveries_def)
qed

section \<open>Order statistics\<close>

lemma parse_iso_error: "parse_iso t = Inl e \<Longrightarrow> \<exists>msg. e = ValueError msg"
  by (auto simp: parse_iso_def Let_def split: option.splits datetime.splits if_splits)

lemma samples_Cons:
  "latency_samples ((created, updated) # ds) = Inr xs \<longleftrightarrow>
     (\<exists>c u rest. parse_iso created = Inr c \<and> parse_iso updated = Inr u \<and> latency_samples ds = Inr rest
        \<and> xs = (if c \<le> u then of_int (u - c) / 1000 # rest else rest))"
  by (auto simp: bind_exc_Inr Let_def)

lemma samples_error: "latency_samples ds = Inl e \<Longrightarrow> \<exists>msg. e = ValueError msg"
proof (induction ds)
  case (Cons a ds)
  obtain created updated where "a = (created, updated)"
    by fastforce
  then show ?case
    using Cons by (auto simp: bind_exc_def Let_def dest: parse_iso_error split: sum.splits)
qed simp

lemma samples_sound: "latency_samples ds = Inr xs \<Longrightarrow> length xs \<le> length ds \<and> (\<forall>x \<in> set xs. 0 \<le> x)"
proof (induction ds arbitrary: xs)
  case (Cons a ds)
  obtain created updated where a: "a = (created, updated)"
    by fastforce
  obtain c u rest where "latency_samples ds = Inr rest" "xs = (if c \<le> u then of_int (u - c) / 1000 # rest else rest)"
    using Cons.prems unfolding a samples_Cons by blast
  then show ?case
    using Cons.IH by auto
qed simp

lemma pct_index_mono: "p \<le> q \<Longrightarrow> pct_index p n \<le> pct_index q n"
  by (simp add: pct_index_def div_le_mono min.coboundedI1 min.mono)

lemma mean_between:
  fixes xs :: "rat list"
  assumes "xs \<noteq> []" "\<forall>x \<in> set xs. lo \<le> x \<and> x \<le> hi"
  shows "lo \<le> sum_list xs / of_nat (length xs) \<and> sum_list xs / of_nat (length xs) \<le> hi"
proof -
  have "of_nat (length xs) * lo \<le> sum_list xs \<and> sum_list xs \<le> of_nat (length xs) * hi"
    using assms(2) by (induction xs) (auto simp: algebra_simps intro: add_mono)
  moreover have "(0::rat) < of_nat (length xs)"
    using assms(1) by simp
  ultimately show ?thesis
    by (simp add: le_divide_eq divide_le_eq mult.commute)
qed

section \<open>Properties\<close>

text \<open>The dashboard's figures agree with the tables and with each other: the five status counts add up to
  all of the project's deliveries, the dead-letter depth is the dead-lettered count, the success rate is
  absent exactly when nothing has ended and otherwise within half a ten-thousandth of succeeded over
  ended, the throughput is at most the succeeded count, and the number of attempts is the sum of the
  deliveries' attempt counts whenever the audit trail is complete.\<close>

theorem summary_consistent:
  assumes "delivery_summary pct p now d = Inr m" "distinct (map dl_id (deliveries d))" "audited d"
  shows "tot_pending (ms_totals m) + tot_in_flight (ms_totals m) + tot_succeeded (ms_totals m) + tot_failed (ms_totals m)
        + tot_dead_lettered (ms_totals m) = int (length (project_deliveries p d))
    \<and> tot_all (ms_totals m) = int (length (project_deliveries p d))
    \<and> ms_dlq_depth m = int (length (filter (\<lambda>x. dl_status x = Dead_lettered) (project_deliveries p d)))
    \<and> (ms_success_rate m = None \<longleftrightarrow> tot_succeeded (ms_totals m) + ms_dlq_depth m = 0)
    \<and> (\<forall>r. ms_success_rate m = Some r \<longrightarrow> 0 \<le> r \<and> r \<le> 1
        \<and> \<bar>r - of_int (tot_succeeded (ms_totals m)) / of_int (tot_succeeded (ms_totals m) + ms_dlq_depth m)\<bar> \<le> 1 / 20000)
    \<and> ms_throughput m \<le> of_int (tot_succeeded (ms_totals m))
    \<and> ms_attempts_total m = (\<Sum>x \<leftarrow> project_deliveries p d. dl_attempt_count x)"
proof -
  let ?t = "status_totals_of p d"
  have m: "ms_totals m = ?t" "ms_dlq_depth m = tot_dead_lettered ?t" "ms_success_rate m = success_rate_of ?t"
    "ms_attempts_total m = int (length (project_attempts p d))" "ms_throughput m = of_int (succeeded_recent p now d)"
    using assms(1) by (auto simp: delivery_summary_def Let_def split: option.splits)
  have nonneg: "0 \<le> tot_succeeded ?t" "0 \<le> tot_dead_lettered ?t"
    by (simp_all add: status_totals_of_def status_count_def Let_def)
  have "succeeded_recent p now d \<le> tot_succeeded ?t"
    unfolding succeeded_recent_def status_totals_of_def status_count_def Let_def
    by (simp add: filter_filter [symmetric] conj_commute del: filter_filter)
  moreover have "success_rate_of ?t = None \<longleftrightarrow> tot_succeeded ?t + tot_dead_lettered ?t = 0"
    using nonneg by (auto simp: success_rate_of_def Let_def)
  moreover have "tot_pending ?t + tot_in_flight ?t + tot_succeeded ?t + tot_failed ?t + tot_dead_lettered ?t = tot_all ?t"
    by (simp add: status_totals_of_def Let_def)
  moreover have "tot_dead_lettered ?t = int (length (filter (\<lambda>x. dl_status x = Dead_lettered) (project_deliveries p d)))"
    by (simp add: status_totals_of_def status_count_def Let_def)
  ultimately show ?thesis
    using m totals_all [of p d] success_rate_bounds [OF nonneg] project_attempts_sum [OF assms(2,3)]
    by simp
qed

theorem summary_consistent_witness:
  "\<exists>m. delivery_summary (\<lambda>_ _. None) 1 5000 (sample_db [sample_delivery, private_delivery]) = Inr m
    \<and> tot_all (ms_totals m) = 2 \<and> ms_attempts_total m = 0"
proof -
  let ?d = "sample_db [sample_delivery, private_delivery]"
  have ids: "dl_id sample_delivery = 6" "dl_id private_delivery = 7" "dl_endpoint sample_delivery = 2"
    "dl_endpoint private_delivery = 3" "dl_attempt_count sample_delivery = 0" "dl_attempt_count private_delivery = 0"
    by (simp_all add: sample_delivery_def private_delivery_def)
  then have dl: "project_deliveries 1 ?d = [sample_delivery, private_delivery]"
    by (simp add: project_deliveries_def delivery_project_def) (simp add: sample_endpoint_def private_endpoint_def)
  obtain m where m: "delivery_summary (\<lambda>_ _. None) 1 5000 ?d = Inr m"
    by (simp add: delivery_summary_def Let_def)
  moreover have "distinct (map dl_id (deliveries ?d))" "audited ?d"
    using ids by (simp_all add: audited_def attempts_of_def)
  ultimately show ?thesis
    using summary_consistent [OF m] ids unfolding dl by simp
qed

text \<open>The benchmark's percentiles are in order: whenever the statistics are computed there is at least one
  sample, and 0 <= min <= p50 <= p95 <= p99 <= max with the mean between min and max; they are refused
  with ValueError exactly when a timestamp does not parse or no latency is non-negative.\<close>

theorem latency_stats_ordered:
  "case compute_latency_stats ds of
     Inl e \<Rightarrow> (\<exists>msg. e = ValueError msg) \<and> (latency_samples ds = Inr [] \<or> (\<exists>e'. latency_samples ds = Inl e'))
   | Inr s \<Rightarrow> 0 < lt_count s \<and> lt_count s \<le> length ds \<and> 0 \<le> lt_min s \<and> lt_min s \<le> lt_p50 s \<and> lt_p50 s \<le> lt_p95 s
       \<and> lt_p95 s \<le> lt_p99 s \<and> lt_p99 s \<le> lt_max s \<and> lt_min s \<le> lt_mean s \<and> lt_mean s \<le> lt_max s"
proof (cases "compute_latency_stats ds")
  case (Inl e)
  then show ?thesis
    using samples_error [of ds] by (auto simp: compute_latency_stats_def bind_exc_def Let_def split: sum.splits if_splits)
next
  case (Inr s)
  then obtain ys where ys: "latency_samples ds = Inr ys" "ys \<noteq> []"
    and s: "s = \<lparr> lt_count = length (sort ys), lt_p50 = sort ys ! pct_index 50 (length (sort ys)),
        lt_p95 = sort ys ! pct_index 95 (length (sort ys)), lt_p99 = sort ys ! pct_index 99 (length (sort ys)),
        lt_mean = sum_list (sort ys) / of_nat (length (sort ys)), lt_min = sort ys ! 0, lt_max = last (sort ys) \<rparr>"
    by (auto simp: compute_latency_stats_def bind_exc_Inr Let_def split: if_splits)
  define xs where "xs = sort ys"
  have len: "length xs = length ys" "set xs = set ys" "sorted xs"
    by (simp_all add: xs_def)
  moreover have "xs \<noteq> []"
    using len(1) ys(2) by (metis length_0_conv)
  ultimately have xs: "xs \<noteq> []" "sorted xs" "set xs = set ys" "length xs = length ys"
    by simp_all
  have nth: "i \<le> j \<Longrightarrow> j < length xs \<Longrightarrow> xs ! i \<le> xs ! j" for i j
    using xs(2) by (rule sorted_nth_mono)
  have last: "last xs = xs ! (length xs - 1)"
    using xs(1) by (rule last_conv_nth)
  have idx: "pct_index q (length xs) \<le> length xs - 1" for q
    by (simp add: pct_index_def)
  have all: "\<forall>x \<in> set xs. xs ! 0 \<le> x \<and> x \<le> last xs"
    unfolding last using nth by (auto simp: in_set_conv_nth)
  have "xs ! 0 \<in> set ys"
    using xs by (metis length_greater_0_conv nth_mem)
  then have "0 \<le> xs ! 0"
    using samples_sound [OF ys(1)] by blast
  moreover have "length ys \<le> length ds"
    using samples_sound [OF ys(1)] by blast
  moreover have "xs ! 0 \<le> xs ! pct_index 50 (length xs)" "xs ! pct_index 50 (length xs) \<le> xs ! pct_index 95 (length xs)"
    "xs ! pct_index 95 (length xs) \<le> xs ! pct_index 99 (length xs)" "xs ! pct_index 99 (length xs) \<le> last xs"
    unfolding last using xs(1) idx pct_index_mono [of 50 95] pct_index_mono [of 95 99]
    by (auto intro!: nth le_less_trans [OF idx])
  ultimately show ?thesis
    using mean_between [OF xs(1) all] ys(2) Inr xs(4) unfolding s xs_def [symmetric] by simp
qed

end
