(* ===== verification/Showcase.thy ===== *)
theory Showcase
  imports Banks Metrics
begin

text \<open>
  The platform side of the live demo (\<^verbatim>\<open>app/services/showcase.py\<close>): seeding the shared project and
  its endpoints, looking them up again, the lists of the dashboard, and the dead-letter fast path.
  Seeding holds an advisory lock, so it is one step; UUIDs, secrets and the clock are arguments.
\<close>

section \<open>Names\<close>

definition price_tick :: utext where
  "price_tick = ucode ''price.tick''"

definition price_alert :: utext where
  "price_alert = ucode ''price.alert''"

definition timeline_keep :: nat where
  "timeline_keep = 12"

section \<open>Lookups\<close>

text \<open>\<^verbatim>\<open>scalar_one_or_none\<close>.\<close>

definition one_or_none :: "'r list \<Rightarrow> py_exc + 'r option" where
  "one_or_none rs = (case rs of [] \<Rightarrow> Inr None | [r] \<Rightarrow> Inr (Some r) | _ \<Rightarrow> Inl MultipleResultsFound)"

definition tagged :: "utext \<Rightarrow> endpoint \<Rightarrow> bool" where
  "tagged marker e \<longleftrightarrow> marker \<in> set (ep_event_types e)"

definition is_discord :: "endpoint \<Rightarrow> bool" where
  "is_discord e \<longleftrightarrow> ep_payload_format e = Discord"

definition endpoints_with :: "(endpoint \<Rightarrow> bool) \<Rightarrow> uuid \<Rightarrow> db \<Rightarrow> endpoint list" where
  "endpoints_with P p d = filter (\<lambda>e. ep_project e = p \<and> P e) (endpoints d)"

definition named_projects :: "settings \<Rightarrow> db \<Rightarrow> project list" where
  "named_projects st d = filter (\<lambda>p. pj_name p = ucode (showcase_project_name st)) (projects d)"

section \<open>Seeding\<close>

record new_endpoint_io =
  ne_id :: uuid
  ne_secret :: bytes
  ne_fernet :: "nat list"

record seed_io =
  sd_now :: time
  sd_project :: uuid
  sd_receiver :: new_endpoint_io
  sd_discord :: new_endpoint_io
  sd_naive :: new_endpoint_io
  sd_safe :: new_endpoint_io
  sd_key :: uuid

definition showcase_endpoint ::
  "fernet_enc \<Rightarrow> settings \<Rightarrow> uuid \<Rightarrow> time \<Rightarrow> new_endpoint_io \<Rightarrow> string \<Rightarrow> utext list \<Rightarrow> payload_format \<Rightarrow> endpoint" where
  "showcase_endpoint fenc st p now ne url types fmt =
   \<lparr> ep_id = ne_id ne, ep_project = p, ep_url = url, ep_event_types = types,
     ep_secret_enc = encrypt_secret fenc st (ne_fernet ne) (generate_endpoint_secret (ne_secret ne)),
     ep_status = Active, ep_payload_format = fmt, ep_created_at = now, ep_updated_at = now, ep_rate_limit_rps = None \<rparr>"

definition add_endpoint :: "endpoint \<Rightarrow> db \<Rightarrow> py_exc + db" where
  "add_endpoint e d =
     (if \<not> endpoint_storable e then Inl DataError
      else if ep_id e \<in> ep_id ` set (endpoints d) \<or> ep_project e \<notin> pj_id ` set (projects d) then Inl IntegrityError
      else Inr (d\<lparr>endpoints := endpoints d @ [e]\<rparr>))"

definition add_health :: "uuid \<Rightarrow> time \<Rightarrow> db \<Rightarrow> py_exc + db" where
  "add_health e now d =
     (if find_health e d \<noteq> None \<or> e \<notin> ep_id ` set (endpoints d) then Inl IntegrityError
      else Inr (d\<lparr>healths := healths d @ [\<lparr> rh_endpoint = e, rh_healthy = True, rh_mode = ''healthy'', rh_updated_at = now \<rparr>]\<rparr>))"

definition add_with_health :: "endpoint \<Rightarrow> time \<Rightarrow> db \<Rightarrow> py_exc + endpoint \<times> db" where
  "add_with_health e now d =
     bind_exc (add_endpoint e d) (\<lambda>d1. bind_exc (add_health (ep_id e) now d1) (\<lambda>d2. Inr (e, d2)))"

definition base_url :: "settings \<Rightarrow> string" where
  "base_url st = rstrip_char CHR ''/'' (public_base_url st)"

definition find_or_create_receiver ::
  "fernet_enc \<Rightarrow> settings \<Rightarrow> seed_io \<Rightarrow> uuid \<Rightarrow> db \<Rightarrow> py_exc + endpoint \<times> db" where
  "find_or_create_receiver fenc st io p d =
     bind_exc (one_or_none (endpoints_with (tagged showcase_marker) p d)) (\<lambda>existing.
       case existing of
         Some e \<Rightarrow> Inr (e, d)
       | None \<Rightarrow>
           add_with_health
             (showcase_endpoint fenc st p (sd_now io) (sd_receiver io)
               (base_url st @ ''/showcase/receiver/'' @ show_uuid (ne_id (sd_receiver io)))
               [showcase_marker, price_tick, price_alert] Raw)
             (sd_now io) d)"

definition find_or_create_bank ::
  "fernet_enc \<Rightarrow> settings \<Rightarrow> time \<Rightarrow> new_endpoint_io \<Rightarrow> utext \<Rightarrow> string \<Rightarrow> uuid \<Rightarrow> db \<Rightarrow> py_exc + endpoint \<times> db" where
  "find_or_create_bank fenc st now ne marker kind p d =
     bind_exc (one_or_none (endpoints_with (tagged marker) p d)) (\<lambda>existing.
       case existing of
         Some e \<Rightarrow> Inr (e, d)
       | None \<Rightarrow>
           add_with_health
             (showcase_endpoint fenc st p now ne
               (base_url st @ ''/showcase/ledger/'' @ kind @ ''/'' @ show_uuid (ne_id ne))
               [marker, trade_executed] Raw)
             now d)"

definition find_or_create_discord ::
  "fernet_enc \<Rightarrow> settings \<Rightarrow> seed_io \<Rightarrow> uuid \<Rightarrow> db \<Rightarrow> py_exc + endpoint option \<times> db" where
  "find_or_create_discord fenc st io p d =
     (let webhook_url = showcase_discord_webhook_url st
      in if webhook_url = [] then Inr (None, d)
         else bind_exc (one_or_none (endpoints_with is_discord p d)) (\<lambda>existing.
           case existing of
             Some e \<Rightarrow>
               (if ep_url e = webhook_url then Inr (Some e, d)
                else let e' = e\<lparr>ep_url := webhook_url, ep_updated_at := sd_now io\<rparr>
                     in if endpoint_storable e' then Inr (Some e', put_endpoint e' d) else Inl DataError)
           | None \<Rightarrow>
               (let e = showcase_endpoint fenc st p (sd_now io) (sd_discord io) webhook_url [price_alert] Discord
                in bind_exc (add_endpoint e d) (\<lambda>d1. Inr (Some e, d1)))))"

text \<open>The key is looked up by its hash alone, in every project and whether or not it is revoked.\<close>

definition ensure_api_key :: "settings \<Rightarrow> seed_io \<Rightarrow> uuid \<Rightarrow> db \<Rightarrow> py_exc + db" where
  "ensure_api_key st io p d =
     (let plaintext = showcase_api_key st; h = hash_api_key plaintext
      in if plaintext = [] then Inr d
         else bind_exc (one_or_none (keys_with_hash h d)) (\<lambda>existing.
           if existing \<noteq> None then Inr d
           else if CHR 0x00 \<in> set (take 12 plaintext) then Inl DataError
           else if sd_key io \<in> ak_id ` set (api_keys d) \<or> p \<notin> pj_id ` set (projects d) then Inl IntegrityError
           else Inr (d\<lparr>api_keys := api_keys d @
             [\<lparr> ak_id = sd_key io, ak_project = p, ak_name = Some (ucode ''showcase-producer''),
                ak_key_prefix = take 12 plaintext, ak_key_hash = h, ak_last_used_at = None, ak_revoked_at = None,
                ak_created_at = sd_now io, ak_updated_at = sd_now io \<rparr>]\<rparr>)))"

definition seed_project :: "settings \<Rightarrow> seed_io \<Rightarrow> db \<Rightarrow> py_exc + uuid \<times> db" where
  "seed_project st io d =
     (let name = ucode (showcase_project_name st)
      in bind_exc (one_or_none (named_projects st d)) (\<lambda>existing.
           case existing of
             Some p \<Rightarrow> Inr (pj_id p, d)
           | None \<Rightarrow>
               if 255 < length name \<or> 0 \<in> set name then Inl DataError
               else if sd_project io \<in> pj_id ` set (projects d) then Inl IntegrityError
               else Inr (sd_project io, d\<lparr>projects := projects d @
                 [\<lparr> pj_id = sd_project io, pj_name = name, pj_created_at = sd_now io, pj_updated_at = sd_now io \<rparr>]\<rparr>)))"

definition seed_showcase :: "fernet_enc \<Rightarrow> settings \<Rightarrow> seed_io \<Rightarrow> db \<Rightarrow> py_exc + showcase_handles \<times> db" where
  "seed_showcase fenc st io d =
     bind_exc (seed_project st io d) (\<lambda>(p, d1).
     bind_exc (find_or_create_receiver fenc st io p d1) (\<lambda>(receiver, d2).
     bind_exc (find_or_create_discord fenc st io p d2) (\<lambda>(discord, d3).
     bind_exc (find_or_create_bank fenc st (sd_now io) (sd_naive io) bank_naive_marker ''naive'' p d3) (\<lambda>(bank_naive, d4).
     bind_exc (find_or_create_bank fenc st (sd_now io) (sd_safe io) bank_safe_marker ''safe'' p d4) (\<lambda>(bank_safe, d5).
     bind_exc (ensure_api_key st io p d5) (\<lambda>d6.
       Inr (\<lparr> sh_project = p, sh_receiver = ep_id receiver, sh_discord = map_option ep_id discord,
              sh_bank_naive = ep_id bank_naive, sh_bank_safe = ep_id bank_safe \<rparr>, d6)))))))"

section \<open>Resolving\<close>

definition resolve_showcase :: "settings \<Rightarrow> db \<Rightarrow> py_exc + showcase_handles option" where
  "resolve_showcase st d =
     bind_exc (one_or_none (named_projects st d)) (\<lambda>project.
       case project of None \<Rightarrow> Inr None | Some pj \<Rightarrow>
         (let p = pj_id pj
          in bind_exc (one_or_none (endpoints_with (tagged showcase_marker) p d)) (\<lambda>receiver.
             case receiver of None \<Rightarrow> Inr None | Some r \<Rightarrow>
               bind_exc (one_or_none (endpoints_with (tagged bank_naive_marker) p d)) (\<lambda>bank_naive.
               bind_exc (one_or_none (endpoints_with (tagged bank_safe_marker) p d)) (\<lambda>bank_safe.
                 case (bank_naive, bank_safe) of
                   (Some bn, Some bs) \<Rightarrow>
                     bind_exc (one_or_none (endpoints_with is_discord p d)) (\<lambda>discord.
                       Inr (Some \<lparr> sh_project = p, sh_receiver = ep_id r, sh_discord = map_option ep_id discord,
                                   sh_bank_naive = ep_id bn, sh_bank_safe = ep_id bs \<rparr>))
                 | _ \<Rightarrow> Inr None)))))"

section \<open>Reading\<close>

text \<open>Of equal times, the last row of the table.\<close>

definition latest_dead_lettered_id :: "uuid \<Rightarrow> db \<Rightarrow> uuid option" where
  "latest_dead_lettered_id p d =
     (case sort_key dl_updated_at (filter (\<lambda>x. dl_status x = Dead_lettered) (project_deliveries p d)) of
        [] \<Rightarrow> None | xs \<Rightarrow> Some (dl_id (last xs)))"

definition get_scoped_delivery :: "uuid \<Rightarrow> uuid \<Rightarrow> db \<Rightarrow> delivery option" where
  "get_scoped_delivery p i d =
     (case find_delivery i d of None \<Rightarrow> None | Some x \<Rightarrow> if delivery_project d x = Some p then Some x else None)"

definition list_recent_deliveries :: "uuid \<Rightarrow> nat \<Rightarrow> db \<Rightarrow> delivery list" where
  "list_recent_deliveries e limit d =
     take limit (newest_first delivery_place (filter (\<lambda>x. dl_endpoint x = e) (deliveries d)))"

definition list_recent_events :: "uuid \<Rightarrow> nat \<Rightarrow> db \<Rightarrow> event list" where
  "list_recent_events p limit d = take limit (newest_first event_place (filter (\<lambda>e. ev_project e = p) (events d)))"

section \<open>The dead-letter fast path\<close>

definition build_showcase_tick :: "time \<Rightarrow> utext \<times> payload" where
  "build_showcase_tick now =
     (let s = (\<lambda>k v. (ucode k, JStr (ucode v)))
      in (price_tick,
          [s ''symbol'' ''BTC-USD'', s ''base'' ''BTC'', s ''quote'' ''USD'', s ''price'' ''0'', s ''change'' ''0'',
           s ''change_pct'' ''0.00'', s ''direction'' ''flat'', s ''observed_at'' (isoformat now), s ''demo'' ''dead-letter'']))"

text \<open>
  One call of \<^verbatim>\<open>process_delivery\<close> after another, until the row is dead-lettered or the calls are used
  up; the delivery is the session's own, as the last call left it.
\<close>

fun fast_forward_loop ::
  "fernet_dec \<Rightarrow> settings \<Rightarrow> worker_env \<Rightarrow> uuid \<Rightarrow> attempt_io list \<Rightarrow> sess \<Rightarrow> sess \<times> (py_exc + unit)" where
  "fast_forward_loop fdec st env i [] s = (s, Inr ())"
| "fast_forward_loop fdec st env i (io # ios) s =
     (case find_delivery i (s_db s) of
        None \<Rightarrow> (s, Inl StaleDataError)
      | Some x \<Rightarrow>
          if dl_status x = Dead_lettered then (s, Inr ())
          else (case process_delivery fdec st env x io None s of
              (s', Inl e) \<Rightarrow> (s', Inl e)
            | (s', Inr _) \<Rightarrow> fast_forward_loop fdec st env i ios s'))"

text \<open>
  \<open>locked\<close> is the database once the row's lock is held, with whatever other sessions committed before,
  or None when the lock timed out. An exception rolls back to it.
\<close>

definition fast_forward_to_dead_letter ::
  "fernet_dec \<Rightarrow> settings \<Rightarrow> worker_env \<Rightarrow> uuid \<Rightarrow> uuid \<Rightarrow> (nat \<Rightarrow> attempt_io) \<Rightarrow> db option \<Rightarrow> sess
   \<Rightarrow> sess \<times> (py_exc + uuid option)" where
  "fast_forward_to_dead_letter fdec st env e ev ios locked s =
     (case locked of
        None \<Rightarrow> (s, Inr None)
      | Some d \<Rightarrow>
          (case one_or_none (filter (\<lambda>x. dl_event x = ev \<and> dl_endpoint x = e) (deliveries d)) of
             Inl x \<Rightarrow> (s\<lparr>s_db := d\<rparr>, Inl x)
           | Inr None \<Rightarrow> (s\<lparr>s_db := d\<rparr>, Inr None)
           | Inr (Some x) \<Rightarrow>
               (case fast_forward_loop fdec st env (dl_id x) (map ios [0..<nat (max_delivery_attempts st)]) (s\<lparr>s_db := d\<rparr>) of
                  (s', Inl err) \<Rightarrow> (s'\<lparr>s_db := d\<rparr>, Inl err)
                | (s', Inr _) \<Rightarrow>
                    (s', Inr (if map_option dl_status (find_delivery (dl_id x) (s_db s')) = Some Dead_lettered
                              then Some (dl_id x) else None)))))"

text \<open>\<open>between\<close> is what happens between the first commit and the lock.\<close>

definition emit_and_dead_letter ::
  "fernet_dec \<Rightarrow> settings \<Rightarrow> worker_env \<Rightarrow> (payload \<Rightarrow> payload) \<Rightarrow> uuid \<Rightarrow> uuid \<Rightarrow> time \<Rightarrow> ingest_io \<Rightarrow> (db \<Rightarrow> db option)
   \<Rightarrow> (nat \<Rightarrow> attempt_io) \<Rightarrow> sess \<Rightarrow> sess \<times> (py_exc + uuid option)" where
  "emit_and_dead_letter fdec st env jsonb p e now iio between ios s =
     (let (ty, pl) = build_showcase_tick now
      in case ingest_event jsonb iio p ty pl None (s_db s) (s_db s) of
           (Inl err, _, _) \<Rightarrow> (s, Inl err)
         | (Inr (ev, _), d1, _) \<Rightarrow>
             fast_forward_to_dead_letter fdec st env e ev ios (between d1) (s\<lparr>s_db := d1\<rparr>))"

section \<open>What a step of the seeding adds\<close>

lemma one_or_none_simps [simp]:
  "one_or_none [] = Inr None" "one_or_none [r] = Inr (Some r)" "one_or_none (r # q # rs) = Inl MultipleResultsFound"
  by (simp_all add: one_or_none_def)

lemma one_or_none_Inr:
  "one_or_none rs = Inr None \<longleftrightarrow> rs = []" "one_or_none rs = Inr (Some r) \<longleftrightarrow> rs = [r]"
  by (auto simp: one_or_none_def split: list.splits)

lemma one_or_none_ids:
  assumes "map f rs = [i]"
  shows "\<exists>r. one_or_none rs = Inr (Some r) \<and> f r = i"
  using assms by (cases rs) auto

lemma endpoints_with_add [simp]:
  "endpoints_with P q (d\<lparr>endpoints := endpoints d @ [e]\<rparr>) = endpoints_with P q d @ (if ep_project e = q \<and> P e then [e] else [])"
  by (simp add: endpoints_with_def)

lemma endpoints_with_frame [simp]:
  "endpoints_with P q (d\<lparr>healths := hs\<rparr>) = endpoints_with P q d"
  "endpoints_with P q (d\<lparr>api_keys := ks\<rparr>) = endpoints_with P q d"
  "endpoints_with P q (d\<lparr>projects := ps\<rparr>) = endpoints_with P q d"
  by (simp_all add: endpoints_with_def)

text \<open>
  What finding or creating an endpoint with these event types and the raw format leaves: it is the only
  one of the project with its mark, and no list of endpoints that a new one would not enter has changed.
\<close>

definition only_added :: "(endpoint \<Rightarrow> bool) \<Rightarrow> utext list \<Rightarrow> uuid \<Rightarrow> db \<Rightarrow> endpoint \<Rightarrow> db \<Rightarrow> bool" where
  "only_added P types p d e d' \<longleftrightarrow>
     endpoints_with P p d' = [e] \<and> projects d' = projects d \<and> api_keys d' = api_keys d
     \<and> (distinct (map ep_id (endpoints d)) \<longrightarrow> distinct (map ep_id (endpoints d')))
     \<and> (\<forall>Q q. (\<forall>x. ep_event_types x = types \<longrightarrow> ep_payload_format x = Raw \<longrightarrow> \<not> Q x) \<longrightarrow>
           endpoints_with Q q d' = endpoints_with Q q d)"

lemma add_with_health_only:
  assumes "add_with_health e now d = Inr (e', d')" "endpoints_with P p d = []" "ep_project e = p" "P e" "ep_payload_format e = Raw"
  shows "only_added P (ep_event_types e) p d e' d'"
  using assms
  by (auto simp: only_added_def add_with_health_def bind_exc_Inr add_endpoint_def add_health_def split: if_splits)

lemma found_only:
  assumes "one_or_none (endpoints_with P p d) = Inr (Some e)"
  shows "only_added P types p d e d"
  using assms by (simp add: only_added_def one_or_none_Inr)

lemma receiver_only:
  assumes "find_or_create_receiver fenc st io p d = Inr (e, d')"
  shows "only_added (tagged showcase_marker) [showcase_marker, price_tick, price_alert] p d e d'"
proof -
  obtain r where r: "one_or_none (endpoints_with (tagged showcase_marker) p d) = Inr r"
    using assms by (auto simp: find_or_create_receiver_def bind_exc_Inr)
  show ?thesis
  proof (cases r)
    case None
    then have "endpoints_with (tagged showcase_marker) p d = []"
      using r by (simp add: one_or_none_Inr)
    moreover have "only_added (tagged showcase_marker) (ep_event_types x) p d e d'"
      if "add_with_health x (sd_now io) d = Inr (e, d')" "ep_project x = p" "ep_event_types x = [showcase_marker, price_tick, price_alert]"
        "ep_payload_format x = Raw" "endpoints_with (tagged showcase_marker) p d = []" for x
      using that by (intro add_with_health_only) (auto simp: tagged_def)
    ultimately show ?thesis
      using assms r None by (fastforce simp: find_or_create_receiver_def showcase_endpoint_def)
  next
    case (Some x)
    then show ?thesis
      using assms r found_only [of "tagged showcase_marker" p d x] by (auto simp: find_or_create_receiver_def)
  qed
qed

lemma bank_only:
  assumes "find_or_create_bank fenc st now ne marker kind p d = Inr (e, d')"
  shows "only_added (tagged marker) [marker, trade_executed] p d e d'"
proof -
  obtain r where r: "one_or_none (endpoints_with (tagged marker) p d) = Inr r"
    using assms by (auto simp: find_or_create_bank_def bind_exc_Inr)
  show ?thesis
  proof (cases r)
    case None
    then have "endpoints_with (tagged marker) p d = []"
      using r by (simp add: one_or_none_Inr)
    moreover have "only_added (tagged marker) (ep_event_types x) p d e d'"
      if "add_with_health x now d = Inr (e, d')" "ep_project x = p" "ep_event_types x = [marker, trade_executed]"
        "ep_payload_format x = Raw" "endpoints_with (tagged marker) p d = []" for x
      using that by (intro add_with_health_only) (auto simp: tagged_def)
    ultimately show ?thesis
      using assms r None by (fastforce simp: find_or_create_bank_def showcase_endpoint_def)
  next
    case (Some x)
    then show ?thesis
      using assms r found_only [of "tagged marker" p d x] by (auto simp: find_or_create_bank_def)
  qed
qed

text \<open>The Discord endpoint may be re-pointed, which changes a row but no row's id, tags or format.\<close>

lemma put_endpoint_ids:
  assumes "distinct (map ep_id (endpoints d))" "e \<in> set (endpoints d)" "ep_id e' = ep_id e" "ep_project e' = ep_project e"
    and "P e' = P e"
  shows "map ep_id (endpoints_with P q (put_endpoint e' d)) = map ep_id (endpoints_with P q d)"
proof -
  have "map ep_id (filter Q (put_pk ep_id e' es)) = map ep_id (filter Q es)"
    if "\<And>x. x \<in> set es \<Longrightarrow> ep_id x = ep_id e' \<Longrightarrow> Q x = Q e'" for Q es
    using that by (induction es) auto
  moreover have "(ep_project x = q \<and> P x) = (ep_project e' = q \<and> P e')" if "x \<in> set (endpoints d)" "ep_id x = ep_id e'" for x
  proof -
    have "x = e"
      using assms(1,2,3) that by (auto simp: distinct_map inj_on_def)
    then show ?thesis
      using assms(4,5) by simp
  qed
  ultimately show ?thesis
    by (simp add: endpoints_with_def put_endpoint_def)
qed

lemma discord_effect:
  assumes "find_or_create_discord fenc st io p d = Inr (r, d')" "distinct (map ep_id (endpoints d))"
  shows "projects d' = projects d" "api_keys d' = api_keys d" "distinct (map ep_id (endpoints d'))"
    and "showcase_discord_webhook_url st = [] \<Longrightarrow> r = None \<and> d' = d"
    and "showcase_discord_webhook_url st \<noteq> [] \<Longrightarrow>
      \<exists>e. r = Some e \<and> ep_url e = showcase_discord_webhook_url st \<and> endpoints_with is_discord p d' = [e]"
    and "m \<noteq> price_alert \<Longrightarrow> map ep_id (endpoints_with (tagged m) q d') = map ep_id (endpoints_with (tagged m) q d)"
proof -
  let ?w = "showcase_discord_webhook_url st"
  have "projects d' = projects d \<and> api_keys d' = api_keys d \<and> distinct (map ep_id (endpoints d'))
    \<and> (?w = [] \<longrightarrow> r = None \<and> d' = d)
    \<and> (?w \<noteq> [] \<longrightarrow> (\<exists>e. r = Some e \<and> ep_url e = ?w \<and> endpoints_with is_discord p d' = [e]))
    \<and> (m \<noteq> price_alert \<longrightarrow> map ep_id (endpoints_with (tagged m) q d') = map ep_id (endpoints_with (tagged m) q d))"
  proof (cases "?w = []")
    case True
    then show ?thesis
      using assms by (simp add: find_or_create_discord_def)
  next
    case w: False
    then obtain ex where ex: "one_or_none (endpoints_with is_discord p d) = Inr ex"
      using assms by (auto simp: find_or_create_discord_def bind_exc_Inr Let_def)
    show ?thesis
    proof (cases ex)
      case None
      then have none: "endpoints_with is_discord p d = []"
        using ex by (simp add: one_or_none_Inr)
      define e where "e = showcase_endpoint fenc st p (sd_now io) (sd_discord io) ?w [price_alert] Discord"
      have e: "ep_url e = ?w" "ep_event_types e = [price_alert]" "ep_payload_format e = Discord" "ep_project e = p"
        by (simp_all add: e_def showcase_endpoint_def)
      have d': "add_endpoint e d = Inr d'" "r = Some e"
        using assms(1) w ex None unfolding find_or_create_discord_def Let_def e_def by (auto simp: bind_exc_Inr)
      then have "d' = d\<lparr>endpoints := endpoints d @ [e]\<rparr>" "ep_id e \<notin> ep_id ` set (endpoints d)"
        by (auto simp: add_endpoint_def split: if_splits)
      then show ?thesis
        using e none w d'(2) assms(2) by (auto simp: is_discord_def tagged_def)
    next
      case (Some e)
      then have one: "endpoints_with is_discord p d = [e]"
        using ex by (simp add: one_or_none_Inr)
      then have mem: "e \<in> set (endpoints d)" "ep_project e = p" "is_discord e"
        unfolding endpoints_with_def by (metis (mono_tags, lifting) list.set_intros(1) mem_Collect_eq set_filter)+
      show ?thesis
      proof (cases "ep_url e = ?w")
        case True
        then show ?thesis
          using assms w ex Some one by (auto simp: find_or_create_discord_def)
      next
        case False
        define e' where "e' = e\<lparr>ep_url := ?w, ep_updated_at := sd_now io\<rparr>"
        have d': "d' = put_endpoint e' d" "r = Some e'"
          using assms(1) w ex Some False by (auto simp: find_or_create_discord_def Let_def e'_def split: if_splits)
        have e': "ep_id e' = ep_id e" "ep_project e' = ep_project e" "ep_event_types e' = ep_event_types e"
          "ep_payload_format e' = ep_payload_format e" "ep_url e' = ?w"
          by (simp_all add: e'_def)
        have "map ep_id (endpoints_with is_discord p d') = [ep_id e]"
          using put_endpoint_ids [OF assms(2) mem(1) e'(1,2), of is_discord p] e'(4) one d'(1) by (simp add: is_discord_def)
        then obtain z where z: "endpoints_with is_discord p d' = [z]" "ep_id z = ep_id e"
          by auto
        then have "z \<in> set (endpoints_with is_discord p d')"
          by simp
        then have "z \<in> set (put_pk ep_id e' (endpoints d))"
          unfolding d'(1) by (simp add: endpoints_with_def put_endpoint_def)
        then have "z = e'"
          using set_put_pk [of z ep_id e' "endpoints d"] z(2) e'(1) by auto
        then show ?thesis
          using d' z w e' assms(2) put_endpoint_ids [OF assms(2) mem(1) e'(1,2), of "tagged m" q]
          by (simp add: tagged_def) (simp add: put_endpoint_def map_pk_put_pk)
      qed
    qed
  qed
  then show "projects d' = projects d" "api_keys d' = api_keys d" "distinct (map ep_id (endpoints d'))"
    "?w = [] \<Longrightarrow> r = None \<and> d' = d"
    "?w \<noteq> [] \<Longrightarrow> \<exists>e. r = Some e \<and> ep_url e = ?w \<and> endpoints_with is_discord p d' = [e]"
    "m \<noteq> price_alert \<Longrightarrow> map ep_id (endpoints_with (tagged m) q d') = map ep_id (endpoints_with (tagged m) q d)"
    by blast+
qed

lemma seed_project_effect:
  assumes "seed_project st io d = Inr (p, d')"
  shows "\<exists>pj. named_projects st d' = [pj] \<and> pj_id pj = p" "endpoints d' = endpoints d" "api_keys d' = api_keys d"
proof -
  obtain r where r: "one_or_none (named_projects st d) = Inr r"
    using assms by (auto simp: seed_project_def bind_exc_Inr Let_def)
  have "(\<exists>pj. named_projects st d' = [pj] \<and> pj_id pj = p) \<and> endpoints d' = endpoints d \<and> api_keys d' = api_keys d"
  proof (cases r)
    case None
    then have "named_projects st d = []"
      using r by (simp add: one_or_none_Inr)
    then show ?thesis
      using assms r None unfolding seed_project_def Let_def by (auto simp: named_projects_def split: if_splits)
  next
    case (Some pj)
    then have "named_projects st d = [pj]"
      using r by (simp add: one_or_none_Inr)
    then show ?thesis
      using assms r Some unfolding seed_project_def Let_def by auto
  qed
  then show "\<exists>pj. named_projects st d' = [pj] \<and> pj_id pj = p" "endpoints d' = endpoints d" "api_keys d' = api_keys d"
    by blast+
qed

lemma ensure_key_effect:
  assumes "ensure_api_key st io p d = Inr d'"
  shows "endpoints d' = endpoints d" "projects d' = projects d"
    "showcase_api_key st = [] \<or> (\<exists>k. keys_with_hash (hash_api_key (showcase_api_key st)) d' = [k])"
proof -
  have "endpoints d' = endpoints d \<and> projects d' = projects d
    \<and> (showcase_api_key st = [] \<or> (\<exists>k. keys_with_hash (hash_api_key (showcase_api_key st)) d' = [k]))"
  proof (cases "showcase_api_key st = []")
    case True
    then show ?thesis
      using assms by (simp add: ensure_api_key_def)
  next
    case False
    then obtain r where r: "one_or_none (keys_with_hash (hash_api_key (showcase_api_key st)) d) = Inr r"
      using assms by (auto simp: ensure_api_key_def bind_exc_Inr Let_def)
    show ?thesis
    proof (cases r)
      case None
      then have "keys_with_hash (hash_api_key (showcase_api_key st)) d = []"
        using r by (simp add: one_or_none_Inr)
      then show ?thesis
        using assms r None False unfolding ensure_api_key_def Let_def by (auto simp: keys_with_hash_def split: if_splits)
    next
      case (Some k)
      then have "keys_with_hash (hash_api_key (showcase_api_key st)) d = [k]"
        using r by (simp add: one_or_none_Inr)
      then show ?thesis
        using assms r Some False unfolding ensure_api_key_def Let_def by auto
    qed
  qed
  then show "endpoints d' = endpoints d" "projects d' = projects d"
    "showcase_api_key st = [] \<or> (\<exists>k. keys_with_hash (hash_api_key (showcase_api_key st)) d' = [k])"
    by blast+
qed

section \<open>What seeding leaves\<close>

text \<open>The state a seeded database is in, for the given handles.\<close>

definition seeded :: "settings \<Rightarrow> showcase_handles \<Rightarrow> db \<Rightarrow> bool" where
  "seeded st h d \<longleftrightarrow>
     (\<exists>pj. named_projects st d = [pj] \<and> pj_id pj = sh_project h)
     \<and> map ep_id (endpoints_with (tagged showcase_marker) (sh_project h) d) = [sh_receiver h]
     \<and> map ep_id (endpoints_with (tagged bank_naive_marker) (sh_project h) d) = [sh_bank_naive h]
     \<and> map ep_id (endpoints_with (tagged bank_safe_marker) (sh_project h) d) = [sh_bank_safe h]
     \<and> (if showcase_discord_webhook_url st = [] then sh_discord h = None
        else \<exists>e. endpoints_with is_discord (sh_project h) d = [e] \<and> sh_discord h = Some (ep_id e)
               \<and> ep_url e = showcase_discord_webhook_url st)
     \<and> (showcase_api_key st = [] \<or> (\<exists>k. keys_with_hash (hash_api_key (showcase_api_key st)) d = [k]))"

lemma seeded_lookups:
  assumes "seeded st h d"
  shows "\<exists>r. one_or_none (endpoints_with (tagged showcase_marker) (sh_project h) d) = Inr (Some r) \<and> ep_id r = sh_receiver h"
    and "\<exists>r. one_or_none (endpoints_with (tagged bank_naive_marker) (sh_project h) d) = Inr (Some r) \<and> ep_id r = sh_bank_naive h"
    and "\<exists>r. one_or_none (endpoints_with (tagged bank_safe_marker) (sh_project h) d) = Inr (Some r) \<and> ep_id r = sh_bank_safe h"
  using assms unfolding seeded_def by (simp_all add: one_or_none_ids)

lemma marker_facts:
  "showcase_marker \<noteq> bank_naive_marker" "showcase_marker \<noteq> bank_safe_marker" "bank_naive_marker \<noteq> bank_safe_marker"
  "showcase_marker \<notin> {trade_executed, price_tick, price_alert}" "bank_naive_marker \<notin> {trade_executed, price_tick, price_alert}"
  "bank_safe_marker \<notin> {trade_executed, price_tick, price_alert}"
  by (simp_all add: showcase_marker_def bank_naive_marker_def bank_safe_marker_def trade_executed_def price_tick_def price_alert_def)

lemma only_added_other:
  assumes "only_added P types p d e d'"
  shows "m \<notin> set types \<Longrightarrow> endpoints_with (tagged m) q d' = endpoints_with (tagged m) q d"
    and "endpoints_with is_discord q d' = endpoints_with is_discord q d"
  using assms by (auto simp: only_added_def tagged_def is_discord_def)

lemma seed_showcase_seeded:
  assumes "seed_showcase fenc st io d = Inr (h, d')" "distinct (map ep_id (endpoints d))"
  shows "seeded st h d'"
proof -
  obtain p d1 r d2 dc d3 bn d4 bs d5 where
    s1: "seed_project st io d = Inr (p, d1)"
    and s2: "find_or_create_receiver fenc st io p d1 = Inr (r, d2)"
    and s3: "find_or_create_discord fenc st io p d2 = Inr (dc, d3)"
    and s4: "find_or_create_bank fenc st (sd_now io) (sd_naive io) bank_naive_marker ''naive'' p d3 = Inr (bn, d4)"
    and s5: "find_or_create_bank fenc st (sd_now io) (sd_safe io) bank_safe_marker ''safe'' p d4 = Inr (bs, d5)"
    and s6: "ensure_api_key st io p d5 = Inr d'"
    and h: "h = \<lparr> sh_project = p, sh_receiver = ep_id r, sh_discord = map_option ep_id dc,
              sh_bank_naive = ep_id bn, sh_bank_safe = ep_id bs \<rparr>"
    using assms(1) by (auto simp: seed_showcase_def bind_exc_Inr)
  note e1 = seed_project_effect [OF s1]
  note e2 = receiver_only [OF s2]
  have dist: "distinct (map ep_id (endpoints d2))"
    using e2 e1(2) assms(2) by (auto simp: only_added_def)
  note e3 = discord_effect [OF s3 dist]
  note e4 = bank_only [OF s4]
  note e5 = bank_only [OF s5]
  note e6 = ensure_key_effect [OF s6]
  have last: "endpoints_with P q d' = endpoints_with P q d5" for P q
    using e6(1) by (simp add: endpoints_with_def)
  note frame = only_added_other [OF e4] only_added_other [OF e5]
  have "map ep_id (endpoints_with (tagged showcase_marker) p d') = [ep_id r]"
    using e2 e3(6) [of showcase_marker p] marker_facts frame(1) [of showcase_marker p] frame(3) [of showcase_marker p]
    by (simp add: last only_added_def)
  moreover have "endpoints_with (tagged bank_naive_marker) p d' = [bn]"
    using e4 marker_facts frame(3) [of bank_naive_marker p] by (simp add: last only_added_def)
  moreover have "endpoints_with (tagged bank_safe_marker) p d' = [bs]"
    using e5 by (simp add: last only_added_def)
  moreover have "endpoints_with is_discord p d' = endpoints_with is_discord p d3"
    using frame(2,4) by (simp add: last)
  moreover have "projects d' = projects d1"
    using e2 e3(1) e4 e5 e6(2) by (simp add: only_added_def)
  ultimately show ?thesis
    using e1(1) e3(4,5) e6(3) unfolding seeded_def h by (auto simp: named_projects_def)
qed

lemma seeded_resolves:
  assumes "seeded st h d" "showcase_discord_webhook_url st \<noteq> [] \<or> endpoints_with is_discord (sh_project h) d = []"
  shows "resolve_showcase st d = Inr (Some h)"
proof -
  obtain pj where pj: "named_projects st d = [pj]" "pj_id pj = sh_project h"
    using assms(1) by (auto simp: seeded_def)
  obtain r bn bs where found: "one_or_none (endpoints_with (tagged showcase_marker) (sh_project h) d) = Inr (Some r)" "ep_id r = sh_receiver h"
    "one_or_none (endpoints_with (tagged bank_naive_marker) (sh_project h) d) = Inr (Some bn)" "ep_id bn = sh_bank_naive h"
    "one_or_none (endpoints_with (tagged bank_safe_marker) (sh_project h) d) = Inr (Some bs)" "ep_id bs = sh_bank_safe h"
    using seeded_lookups [OF assms(1)] by blast
  have "\<exists>dc. one_or_none (endpoints_with is_discord (sh_project h) d) = Inr dc \<and> map_option ep_id dc = sh_discord h"
    using assms by (auto simp: seeded_def split: if_splits)
  then show ?thesis
    using pj found by (auto simp: resolve_showcase_def)
qed

lemma seeded_again:
  assumes "seeded st h d"
  shows "seed_showcase fenc st io d = Inr (h, d)"
proof -
  obtain pj where pj: "named_projects st d = [pj]" "pj_id pj = sh_project h"
    using assms(1) by (auto simp: seeded_def)
  then have s1: "seed_project st io d = Inr (sh_project h, d)"
    by (simp add: seed_project_def)
  obtain r bn bs where found: "one_or_none (endpoints_with (tagged showcase_marker) (sh_project h) d) = Inr (Some r)" "ep_id r = sh_receiver h"
    "one_or_none (endpoints_with (tagged bank_naive_marker) (sh_project h) d) = Inr (Some bn)" "ep_id bn = sh_bank_naive h"
    "one_or_none (endpoints_with (tagged bank_safe_marker) (sh_project h) d) = Inr (Some bs)" "ep_id bs = sh_bank_safe h"
    using seeded_lookups [OF assms(1)] by blast
  obtain dc where dc: "find_or_create_discord fenc st io (sh_project h) d = Inr (dc, d)" "map_option ep_id dc = sh_discord h"
    using assms(1) by (auto simp: seeded_def find_or_create_discord_def split: if_splits)
  have "ensure_api_key st io (sh_project h) d = Inr d"
    using assms(1) by (auto simp: seeded_def ensure_api_key_def Let_def)
  then show ?thesis
    using s1 found dc by (simp add: seed_showcase_def find_or_create_receiver_def find_or_create_bank_def)
qed

text \<open>Seeding is idempotent, and what it seeds is found: from any database whose endpoint ids are distinct,
  after one seeding that returns, any later seeding gives the same handles and changes nothing, whatever
  ids and secrets it would have drawn; and the read-only lookup gives these handles too, provided a
  project without a configured Discord webhook holds no Discord endpoint.\<close>

theorem seed_idempotent:
  assumes "seed_showcase fenc st io d = Inr (h, d')" "distinct (map ep_id (endpoints d))"
  shows "(\<forall>io'. seed_showcase fenc st io' d' = Inr (h, d'))
    \<and> (showcase_discord_webhook_url st \<noteq> [] \<or> endpoints_with is_discord (sh_project h) d' = []
        \<longrightarrow> resolve_showcase st d' = Inr (Some h))"
  using seeded_again seeded_resolves seed_showcase_seeded [OF assms] by blast

definition seed_ids :: "uuid \<Rightarrow> new_endpoint_io" where
  "seed_ids i = \<lparr> ne_id = i, ne_secret = [1, 2, 3], ne_fernet = [] \<rparr>"

definition sample_seed :: seed_io where
  "sample_seed =
   \<lparr> sd_now = 100, sd_project = 1, sd_receiver = seed_ids 10, sd_discord = seed_ids 11, sd_naive = seed_ids 12,
     sd_safe = seed_ids 13, sd_key = 14 \<rparr>"

lemma show_uuid_storable: "length (show_uuid u) \<le> 36" "CHR 0x00 \<notin> set (show_uuid u)"
proof -
  show "length (show_uuid u) \<le> 36"
    by (simp add: show_uuid_def Let_def)
  have "hex_value (CHR 0x00) = None"
    by (simp add: hex_value_def is_digit_def code_def)
  then show "CHR 0x00 \<notin> set (show_uuid u)"
    using show_uuid_chars [of "CHR 0x00" u] uuid_hex_chars(1) [of "CHR 0x00" u] by auto
qed

lemma seed_url_storable:
  assumes "length t \<le> 100" "CHR 0x00 \<notin> set t"
  shows "length (base_url default_settings @ t @ show_uuid u) \<le> 2048 \<and> CHR 0x00 \<notin> set (base_url default_settings @ t @ show_uuid u)"
proof -
  have "length (base_url default_settings) \<le> 100 \<and> CHR 0x00 \<notin> set (base_url default_settings)"
    by (simp add: base_url_def default_settings_def rstrip_char_def)
  then show ?thesis
    using assms show_uuid_storable [of u] by auto
qed

lemma seed_urls_storable:
  "list_all (\<lambda>u. length u \<le> 2048 \<and> CHR 0x00 \<notin> set u)
     [base_url default_settings @ ''/showcase/receiver/'' @ show_uuid 10,
      base_url default_settings @ ''/showcase/ledger/'' @ ''naive'' @ ''/'' @ show_uuid 12,
      base_url default_settings @ ''/showcase/ledger/'' @ ''safe'' @ ''/'' @ show_uuid 13]"
  using seed_url_storable [of "''/showcase/receiver/''" 10] seed_url_storable [of "''/showcase/ledger/naive/''" 12]
    seed_url_storable [of "''/showcase/ledger/safe/''" 13] by simp

lemma sample_seeding:
  "\<exists>d. seed_showcase sample_enc default_settings sample_seed empty_db
     = Inr (\<lparr> sh_project = 1, sh_receiver = 10, sh_discord = None, sh_bank_naive = 12, sh_bank_safe = 13 \<rparr>, d)
     \<and> endpoints_with is_discord 1 d = [] \<and> visitors d = [] \<and> 1 \<in> pj_id ` set (projects d)"
proof -
  have st: "showcase_discord_webhook_url default_settings = []" "showcase_api_key default_settings = []"
    "length (showcase_project_name default_settings) \<le> 255" "0 \<notin> set (ucode (showcase_project_name default_settings))"
    by (simp_all add: default_settings_def)
  have types: "list_all (\<lambda>t. 0 \<notin> set t) [showcase_marker, price_tick, price_alert, bank_naive_marker, bank_safe_marker, trade_executed]"
    by (simp add: showcase_marker_def bank_naive_marker_def bank_safe_marker_def trade_executed_def price_tick_def price_alert_def)
  show ?thesis
    using st types seed_urls_storable marker_facts
    by (simp add: seed_showcase_def seed_project_def named_projects_def empty_db_def Let_def sample_seed_def seed_ids_def
        find_or_create_receiver_def find_or_create_bank_def find_or_create_discord_def ensure_api_key_def endpoints_with_def
        add_with_health_def add_endpoint_def add_health_def showcase_endpoint_def endpoint_storable_def find_health_def
        tagged_def is_discord_def)
qed

theorem seed_idempotent_witness:
  "\<exists>h d. seed_showcase sample_enc default_settings sample_seed empty_db = Inr (h, d)
     \<and> seed_showcase sample_enc default_settings (sample_seed\<lparr>sd_project := 2\<rparr>) d = Inr (h, d)
     \<and> (endpoints_with is_discord 1 d = [] \<longrightarrow> resolve_showcase default_settings d = Inr (Some h))"
proof -
  let ?h = "\<lparr> sh_project = 1, sh_receiver = 10, sh_discord = None, sh_bank_naive = 12, sh_bank_safe = 13 \<rparr>"
  obtain d where d: "seed_showcase sample_enc default_settings sample_seed empty_db = Inr (?h, d)"
    using sample_seeding by blast
  have "endpoints empty_db = []"
    by (simp add: empty_db_def)
  then have "distinct (map ep_id (endpoints empty_db))"
    by simp
  note seeded = seed_idempotent [OF d this]
  have "sh_project ?h = 1"
    by simp
  then show ?thesis
    using d seeded by metis
qed

end
