(* ===== verification/Fast_Forward.thy ===== *)
theory Fast_Forward
  imports Showcase
begin

text \<open>
  What the dead-letter fast path does to the delivery it locks: how many requests it sends and which
  answer decides.
\<close>

definition answer_storable :: "attempt_io \<Rightarrow> bool" where
  "answer_storable io \<longleftrightarrow> (case io_outcome io of Http_response _ b \<Rightarrow> 0 \<notin> set b | Http_exception e \<Rightarrow> 0 \<notin> set e)"

text \<open>A row the loop can send: its endpoint, event and secret are there and the guard lets its URL pass.\<close>

definition sendable_to :: "fernet_dec \<Rightarrow> settings \<Rightarrow> endpoint \<Rightarrow> event \<Rightarrow> string \<Rightarrow> delivery \<Rightarrow> db \<Rightarrow> bool" where
  "sendable_to fdec st ep ev secret x d \<longleftrightarrow> find_delivery (dl_id x) d = Some x
     \<and> find_endpoint (dl_endpoint x) d = Some ep \<and> decrypt_secret fdec st (ep_secret_enc ep) = Inr secret
     \<and> validate_url_not_ssrf (ep_url ep) = Inr () \<and> find_event (dl_event x) d = Some ev
     \<and> (\<forall>a \<in> set (attempts d). at_delivery a = dl_id x \<longrightarrow> at_number a \<le> dl_attempt_count x)"

definition sendable :: "fernet_dec \<Rightarrow> settings \<Rightarrow> delivery \<Rightarrow> db \<Rightarrow> bool" where
  "sendable fdec st x d \<longleftrightarrow> (\<exists>ep ev secret. sendable_to fdec st ep ev secret x d)"

definition fresh_answers :: "attempt_io list \<Rightarrow> db \<Rightarrow> bool" where
  "fresh_answers ios d \<longleftrightarrow> distinct (map io_attempt_id ios) \<and> set (map io_attempt_id ios) \<inter> at_id ` set (attempts d) = {}
     \<and> list_all answer_storable ios"

lemma process_sendable_to:
  assumes "sendable_to fdec st ep ev secret x (s_db s)" "fresh_answers (io # ios) (s_db s)" "dl_attempt_count x < 1024"
  obtains s' x' where "process_delivery fdec st env x io name s = (s', Inr ())" "sendable_to fdec st ep ev secret x' (s_db s')"
    and "fresh_answers ios (s_db s')" "dl_id x' = dl_id x" "dl_attempt_count x' = dl_attempt_count x + 1"
    and "s_sent s' = s_sent s @ [attempt_request st ep ev secret x io]"
    and "dl_status x' = (if http_succeeded (io_outcome io) then Succeeded
          else if max_delivery_attempts st \<le> dl_attempt_count x + 1 then Dead_lettered else Pending)"
proof -
  let ?n = "dl_attempt_count x + 1"
  have world: "find_endpoint (dl_endpoint x) (s_db s) = Some ep" "find_event (dl_event x) (s_db s) = Some ev"
      "decrypt_secret fdec st (ep_secret_enc ep) = Inr secret" "validate_url_not_ssrf (ep_url ep) = Inr ()"
    and row: "find_delivery (dl_id x) (s_db s) = Some x"
    and nums: "\<forall>a \<in> set (attempts (s_db s)). at_delivery a = dl_id x \<longrightarrow> at_number a \<le> dl_attempt_count x"
    using assms(1) by (auto simp: sendable_to_def)
  obtain c x' where settle: "settle st io ?n x (s_counters s) = (c, Inr x')"
    using settle_total [of ?n st io x "s_counters s"] assms(3) by (cases "settle st io ?n x (s_counters s)") auto
  note sp = settle_spec [OF settle]
  have "deliverable fdec st x io ep ev secret (s_db s)"
    using world row nums assms(2,3) unfolding deliverable_def fresh_answers_def answer_storable_def by fastforce
  note pd = process_deliverable [OF this world(4) settle, of env name]
  define s' where "s' = s\<lparr>s_counters := c, s_sent := s_sent s @ [attempt_request st ep ev secret x io],
       s_db := (put_delivery x' (s_db s))\<lparr>attempts := attempts (s_db s) @
         [attempt_row x ?n (resolve_worker_name st env name) io]\<rparr>\<rparr>"
  have ends: "dl_id x' = dl_id x" "dl_endpoint x' = dl_endpoint x" "dl_event x' = dl_event x" "dl_attempt_count x' = ?n"
    using sp by simp_all
  have "sendable_to fdec st ep ev secret x' (s_db s')"
    using world row nums ends by (auto simp: sendable_to_def s'_def find_delivery_put attempt_row_def)
  moreover have "fresh_answers ios (s_db s')"
    using assms(2) by (auto simp: fresh_answers_def s'_def attempt_row_def)
  ultimately show thesis
    using that [of s' x'] pd ends sp(7) by (simp add: s'_def)
qed

lemma process_sendable:
  assumes "sendable fdec st x (s_db s)" "fresh_answers (io # ios) (s_db s)" "dl_attempt_count x < 1024"
  obtains s' x' where "process_delivery fdec st env x io name s = (s', Inr ())" "sendable fdec st x' (s_db s')"
    and "fresh_answers ios (s_db s')" "dl_id x' = dl_id x" "dl_attempt_count x' = dl_attempt_count x + 1"
    and "length (s_sent s') = Suc (length (s_sent s))"
    and "dl_status x' = (if http_succeeded (io_outcome io) then Succeeded
          else if max_delivery_attempts st \<le> dl_attempt_count x + 1 then Dead_lettered else Pending)"
proof -
  obtain ep ev secret where to: "sendable_to fdec st ep ev secret x (s_db s)"
    using assms(1) by (auto simp: sendable_def)
  show thesis
    by (rule process_sendable_to [OF to assms(2,3), of env name]) (rule that, auto simp: sendable_def)
qed

lemma fast_forward_loop_sends:
  assumes "sendable fdec st x (s_db s)" "fresh_answers ios (s_db s)" "dl_status x \<noteq> Dead_lettered"
    and "dl_attempt_count x + int (length ios) = max_delivery_attempts st" "max_delivery_attempts st \<le> 1024" "ios \<noteq> []"
  shows "\<exists>s' x'. fast_forward_loop fdec st env (dl_id x) ios s = (s', Inr ())
    \<and> find_delivery (dl_id x) (s_db s') = Some x' \<and> dl_attempt_count x' = max_delivery_attempts st
    \<and> length (s_sent s') = length (s_sent s) + length ios
    \<and> dl_status x' = (if http_succeeded (io_outcome (last ios)) then Succeeded else Dead_lettered)"
  using assms
proof (induction ios arbitrary: s x)
  case (Cons io ios)
  have "dl_attempt_count x < 1024"
    using Cons.prems(4,5) by simp
  then obtain s1 x1 where step: "process_delivery fdec st env x io None s = (s1, Inr ())" "sendable fdec st x1 (s_db s1)"
      "fresh_answers ios (s_db s1)" "dl_id x1 = dl_id x" "dl_attempt_count x1 = dl_attempt_count x + 1"
      "length (s_sent s1) = Suc (length (s_sent s))"
    and status: "dl_status x1 = (if http_succeeded (io_outcome io) then Succeeded
          else if max_delivery_attempts st \<le> dl_attempt_count x + 1 then Dead_lettered else Pending)"
    by (rule process_sendable [OF Cons.prems(1,2)]) (rule that)
  have row: "find_delivery (dl_id x) (s_db s) = Some x" "find_delivery (dl_id x) (s_db s1) = Some x1"
    using Cons.prems(1) step(2,4) by (auto simp: sendable_def sendable_to_def)
  show ?case
  proof (cases "ios = []")
    case True
    then show ?thesis
      using Cons.prems(3,4) row step status by simp
  next
    case False
    then have "dl_status x1 \<noteq> Dead_lettered"
      using status Cons.prems(4) by (cases ios) auto
    then show ?thesis
      using Cons.IH [OF step(2,3)] Cons.prems(3,4,5) False row step(1,4,5,6) by simp
  qed
qed simp

section \<open>Properties\<close>

text \<open>C24: The fast path sends exactly as many requests as the retry limit allows, whatever the receiver answers:
  a success does not stop it, so a receiver brought up in the meantime gets the same event again with
  every further attempt. Only the last answer counts: the delivery ends dead-lettered, and its id is
  returned, if and only if that one failed.\<close>

theorem fast_forward_spec:
  assumes "locked = Some d" "filter (\<lambda>y. dl_event y = ev \<and> dl_endpoint y = e) (deliveries d) = [x]"
    and "sendable fdec st x d" "fresh_answers (map ios [0..<nat (max_delivery_attempts st)]) d"
    and "dl_status x = Pending" "dl_attempt_count x = 0" "1 \<le> max_delivery_attempts st" "max_delivery_attempts st \<le> 1024"
  shows "\<exists>s' x'. let n = nat (max_delivery_attempts st); ok = http_succeeded (io_outcome (ios (n - 1))) in
    fast_forward_to_dead_letter fdec st env e ev ios locked s = (s', Inr (if ok then None else Some (dl_id x)))
    \<and> length (s_sent s') = length (s_sent s) + n
    \<and> find_delivery (dl_id x) (s_db s') = Some x' \<and> dl_attempt_count x' = int n
    \<and> dl_status x' = (if ok then Succeeded else Dead_lettered)"
proof -
  let ?n = "nat (max_delivery_attempts st)"
  let ?ios = "map ios [0..<?n]"
  have ios: "dl_attempt_count x + int (length ?ios) = max_delivery_attempts st" "?ios \<noteq> []" "last ?ios = ios (?n - 1)"
    using assms(6,7) by (auto simp: last_conv_nth)
  obtain s' x' where r: "fast_forward_loop fdec st env (dl_id x) ?ios (s\<lparr>s_db := d\<rparr>) = (s', Inr ())"
      "find_delivery (dl_id x) (s_db s') = Some x'" "dl_attempt_count x' = max_delivery_attempts st"
      "length (s_sent s') = length (s_sent s) + length ?ios"
      "dl_status x' = (if http_succeeded (io_outcome (last ?ios)) then Succeeded else Dead_lettered)"
    using fast_forward_loop_sends [of fdec st x "s\<lparr>s_db := d\<rparr>" ?ios env] assms(3-5,8) ios(1,2) by auto
  then show ?thesis
    using assms(1,2,7) ios(3) by (auto simp: fast_forward_to_dead_letter_def Let_def)
qed

definition answered :: "int \<Rightarrow> nat \<Rightarrow> attempt_io" where
  "answered c k = sample_io\<lparr>io_outcome := Http_response c [], io_attempt_id := of_nat k\<rparr>"

theorem fast_forward_spec_witness:
  "\<exists>s'. fast_forward_to_dead_letter sample_dec default_settings sample_env 2 5 (answered 200)
     (Some (sample_db [sample_delivery])) (sample_sess []) = (s', Inr None) \<and> length (s_sent s') = 6"
proof -
  let ?d = "sample_db [sample_delivery]"
  have "sendable sample_dec default_settings sample_delivery ?d"
    using sample_deliverable sample_public by (auto simp: sendable_def sendable_to_def deliverable_def)
  moreover have "fresh_answers (map (answered 200) [0..<nat (max_delivery_attempts default_settings)]) ?d"
    by (simp add: fresh_answers_def answered_def default_settings_def upt_rec answer_storable_def)
  moreover have "filter (\<lambda>y. dl_event y = 5 \<and> dl_endpoint y = 2) (deliveries ?d) = [sample_delivery]"
    by (simp add: sample_delivery_def)
  moreover have "dl_status sample_delivery = Pending" "dl_attempt_count sample_delivery = 0"
    by (simp_all add: sample_delivery_def)
  moreover have "max_delivery_attempts default_settings = 6" "http_succeeded (io_outcome (answered 200 5))"
    by (simp_all add: default_settings_def answered_def http_succeeded_def)
  ultimately show ?thesis
    using fast_forward_spec [of "Some ?d" ?d 5 2 sample_delivery sample_dec default_settings "answered 200" sample_env "sample_sess []"]
    by (auto simp: Let_def)
qed

end
