(* ===== verification/Showcase_Routes.thy ===== *)
theory Showcase_Routes
  imports Fast_Forward
begin

text \<open>
  The public routes of the live demo (\<^verbatim>\<open>app/routers/showcase.py\<close>, \<^verbatim>\<open>app/schemas/showcase.py\<close>). Every
  route resolves the one seeded project, seeding it when it is missing. The producer behind the two
  proxy routes answers through an argument.
\<close>

section \<open>Dependencies\<close>

definition get_showcase :: "fernet_enc \<Rightarrow> settings \<Rightarrow> seed_io \<Rightarrow> db \<Rightarrow> (py_exc + showcase_handles) \<times> db" where
  "get_showcase fenc st io d =
     (case resolve_showcase st d of
        Inl e \<Rightarrow> (Inl e, d)
      | Inr (Some h) \<Rightarrow> (Inr h, d)
      | Inr None \<Rightarrow> or_rollback d (seed_showcase fenc st io d))"

definition record_visitor_activity :: "showcase_handles \<Rightarrow> time \<Rightarrow> time \<Rightarrow> db \<Rightarrow> (py_exc + unit) \<times> db" where
  "record_visitor_activity h now db_now d =
     or_rollback d (bind_exc (touch_visitor_seen (sh_project h) now db_now d) (\<lambda>d'. Inr ((), d')))"

text \<open>A route of the dashboard's polling loop: the project, then the visit, each committed, then a read.\<close>

record visit_io =
  vi_seed :: seed_io
  vi_now :: time
  vi_db_now :: time

definition visited ::
  "fernet_enc \<Rightarrow> settings \<Rightarrow> visit_io \<Rightarrow> (showcase_handles \<Rightarrow> db \<Rightarrow> py_exc + 'r) \<Rightarrow> db \<Rightarrow> (py_exc + 'r) \<times> db" where
  "visited fenc st io read d =
     (case get_showcase fenc st (vi_seed io) d of
        (Inl e, d1) \<Rightarrow> (Inl e, d1)
      | (Inr h, d1) \<Rightarrow>
          (case record_visitor_activity h (vi_now io) (vi_db_now io) d1 of
             (Inl e, d2) \<Rightarrow> (Inl e, d2)
           | (Inr _, d2) \<Rightarrow> (read h d2, d2)))"

section \<open>The dashboard's reads\<close>

definition summary ::
  "fernet_enc \<Rightarrow> settings \<Rightarrow> visit_io \<Rightarrow> (rat \<Rightarrow> int list \<Rightarrow> rat option) \<Rightarrow> time \<Rightarrow> db \<Rightarrow> (py_exc + metrics_summary) \<times> db" where
  "summary fenc st io pct now d = visited fenc st io (\<lambda>h d'. delivery_summary pct (sh_project h) now d') d"

record feed_event_item =
  fe_id :: uuid
  fe_type :: utext
  fe_payload :: payload
  fe_created_at :: time

definition feed_event_view :: "event \<Rightarrow> feed_event_item" where
  "feed_event_view e = \<lparr> fe_id = ev_id e, fe_type = ev_type e, fe_payload = ev_payload e, fe_created_at = ev_created_at e \<rparr>"

record received_request_item =
  ri_id :: uuid
  ri_event_type :: utext
  ri_attempt :: int
  ri_verified :: bool
  ri_response_status :: int
  ri_signature_header :: "string option"
  ri_timestamp_header :: "string option"
  ri_body :: utext
  ri_received_at :: time

definition received_view :: "received_request \<Rightarrow> received_request_item" where
  "received_view r =
   \<lparr> ri_id = rr_id r, ri_event_type = rr_event_type r, ri_attempt = rr_attempt r, ri_verified = rr_verified r,
     ri_response_status = rr_response_status r, ri_signature_header = rr_signature_header r,
     ri_timestamp_header = rr_timestamp_header r, ri_body = rr_body r, ri_received_at = rr_received_at r \<rparr>"

record feed_response =
  fr_healthy :: bool
  fr_discord_enabled :: bool
  fr_widget_server :: "string option"
  fr_widget_channel :: "string option"
  fr_events :: "feed_event_item list"
  fr_inbox :: "received_request_item list"

definition or_none :: "string \<Rightarrow> string option" where
  "or_none s = (if s = [] then None else Some s)"

definition feed :: "fernet_enc \<Rightarrow> settings \<Rightarrow> visit_io \<Rightarrow> db \<Rightarrow> (py_exc + feed_response) \<times> db" where
  "feed fenc st io d = visited fenc st io (\<lambda>h d'. Inr
     \<lparr> fr_healthy = get_health (sh_receiver h) d', fr_discord_enabled = (sh_discord h \<noteq> None),
       fr_widget_server = or_none (discord_widget_server_id st), fr_widget_channel = or_none (discord_widget_channel_id st),
       fr_events = map feed_event_view (list_recent_events (sh_project h) 25 d'),
       fr_inbox = map received_view (list_inbox (sh_receiver h) inbox_keep d') \<rparr>) d"

record timeline_attempt =
  ta_number :: int
  ta_response_status :: "int option"
  ta_error :: "utext option"
  ta_duration_ms :: "int option"
  ta_worker_id :: "string option"
  ta_created_at :: time

definition timeline_attempt_view :: "delivery_attempt \<Rightarrow> timeline_attempt" where
  "timeline_attempt_view a =
   \<lparr> ta_number = at_number a, ta_response_status = at_response_status a, ta_error = at_error a,
     ta_duration_ms = at_duration_ms a, ta_worker_id = at_worker_id a, ta_created_at = at_created_at a \<rparr>"

record timeline_delivery =
  td_id :: uuid
  td_event :: uuid
  td_event_type :: utext
  td_status :: delivery_status
  td_attempt_count :: int
  td_next_attempt_at :: time
  td_leased_until :: "time option"
  td_claimed_by :: "string option"
  td_created_at :: time
  td_attempts :: "timeline_attempt list"

definition timeline_item :: "db \<Rightarrow> delivery \<Rightarrow> py_exc + timeline_delivery" where
  "timeline_item d x =
     (case find_event (dl_event x) d of
        None \<Rightarrow> Inl AttributeError
      | Some ev \<Rightarrow> Inr
         \<lparr> td_id = dl_id x, td_event = dl_event x, td_event_type = ev_type ev, td_status = dl_status x,
           td_attempt_count = dl_attempt_count x, td_next_attempt_at = dl_next_attempt_at x,
           td_leased_until = dl_leased_until x, td_claimed_by = dl_claimed_by x, td_created_at = dl_created_at x,
           td_attempts = map timeline_attempt_view (sort_key at_number (attempts_of (dl_id x) d)) \<rparr>)"

fun collect_exc :: "(py_exc + 'r) list \<Rightarrow> py_exc + 'r list" where
  "collect_exc [] = Inr []"
| "collect_exc (r # rs) = bind_exc r (\<lambda>x. bind_exc (collect_exc rs) (\<lambda>xs. Inr (x # xs)))"

record worker_stat =
  ws_name :: string
  ws_attempts :: nat

text \<open>Attempts per worker, the busiest first and ties by name.\<close>

definition attempt_workers :: "timeline_delivery list \<Rightarrow> string list" where
  "attempt_workers items = List.map_filter ta_worker_id (concat (map td_attempts items))"

definition worker_stats :: "timeline_delivery list \<Rightarrow> worker_stat list" where
  "worker_stats items =
     (let names = attempt_workers items
      in map (\<lambda>n. \<lparr> ws_name = n, ws_attempts = count_list names n \<rparr>)
           (sort_key (\<lambda>n. (- int (count_list names n), ucode n)) (remdups names)))"

record deliveries_response =
  dv_server_time :: time
  dv_retry_base :: rat
  dv_retry_cap :: rat
  dv_max_attempts :: int
  dv_receiver :: uuid
  dv_workers :: "worker_stat list"
  dv_deliveries :: "timeline_delivery list"

definition timeline :: "fernet_enc \<Rightarrow> settings \<Rightarrow> visit_io \<Rightarrow> time \<Rightarrow> db \<Rightarrow> (py_exc + deliveries_response) \<times> db" where
  "timeline fenc st io now d = visited fenc st io (\<lambda>h d'.
     bind_exc (collect_exc (map (timeline_item d') (list_recent_deliveries (sh_receiver h) timeline_keep d'))) (\<lambda>items. Inr
       \<lparr> dv_server_time = now, dv_retry_base = retry_base_seconds st, dv_retry_cap = retry_cap_seconds st,
         dv_max_attempts = max_delivery_attempts st, dv_receiver = sh_receiver h,
         dv_workers = worker_stats items, dv_deliveries = items \<rparr>)) d"

section \<open>The visitor's switches\<close>

definition set_receiver_health :: "showcase_handles \<Rightarrow> bool \<Rightarrow> time \<Rightarrow> db \<Rightarrow> (py_exc + uuid \<times> bool) \<times> db" where
  "set_receiver_health h healthy now d =
     or_rollback d (bind_exc (set_health (sh_receiver h) healthy now d) (\<lambda>d'. Inr ((sh_receiver h, healthy), d')))"

definition force_dead_letter ::
  "fernet_dec \<Rightarrow> settings \<Rightarrow> worker_env \<Rightarrow> (payload \<Rightarrow> payload) \<Rightarrow> showcase_handles \<Rightarrow> time \<Rightarrow> ingest_io \<Rightarrow> (db \<Rightarrow> db option)
   \<Rightarrow> (nat \<Rightarrow> attempt_io) \<Rightarrow> sess \<Rightarrow> sess \<times> (py_exc + uuid option \<times> bool)" where
  "force_dead_letter fdec st env jsonb h now iio between ios s =
     (if get_health (sh_receiver h) (s_db s)
      then (s, Inl (HTTPException 409 ''Bring the pipeline down first, then force a dead-letter.''))
      else case find_endpoint (sh_receiver h) (s_db s) of
          None \<Rightarrow> (s, Inl (http_404 ''Showcase receiver not found''))
        | Some receiver \<Rightarrow>
            (case find_project (ep_project receiver) (s_db s) of
               None \<Rightarrow> (s, Inl (http_404 ''Showcase receiver not found''))
             | Some project \<Rightarrow>
                 (case emit_and_dead_letter fdec st env jsonb (pj_id project) (ep_id receiver) now iio between ios s of
                    (s', Inl e) \<Rightarrow> (s', Inl e)
                  | (s', Inr i) \<Rightarrow> (s', Inr (i, False)))))"

text \<open>As the public redrive, it reads one database and writes another.\<close>

definition redrive ::
  "showcase_handles \<Rightarrow> uuid option \<Rightarrow> time \<Rightarrow> db \<Rightarrow> db \<Rightarrow> (py_exc + (uuid \<times> delivery_status) option) \<times> db" where
  "redrive h body now d1 d2 =
     (case (case body of Some i \<Rightarrow> Some i | None \<Rightarrow> latest_dead_lettered_id (sh_project h) d1) of
        None \<Rightarrow> (Inr None, d2)
      | Some i \<Rightarrow>
          (case get_scoped_delivery (sh_project h) i d1 of
             None \<Rightarrow> (Inl (http_404 ''Delivery not found''), d2)
           | Some seen \<Rightarrow>
               if dl_status seen \<noteq> Dead_lettered then (Inl (HTTPException 409 ''Delivery is not dead-lettered''), d2)
               else (case find_delivery i d2 of
                   None \<Rightarrow> (Inl StaleDataError, d2)
                 | Some x \<Rightarrow> let x' = redrive_write seen now x in (Inr (Some (i, dl_status x')), put_delivery x' d2))))"

section \<open>The proxies\<close>

text \<open>
  What \<^verbatim>\<open>client.post\<close> comes back with: an \<^verbatim>\<open>httpx.HTTPError\<close>, or a status and the document of
  \<^verbatim>\<open>resp.json()\<close>, if the body is one. A status other than 2xx makes \<^verbatim>\<open>raise_for_status\<close> raise.
\<close>

datatype producer_reply = Unreachable | Reply int loads_result

definition reply_doc :: "producer_reply \<Rightarrow> json option" where
  "reply_doc r =
     (case r of
        Reply c (Doc j) \<Rightarrow> if 200 \<le> c \<and> c < 300 then Some j else None
      | _ \<Rightarrow> None)"

definition producer_url :: "settings \<Rightarrow> string \<Rightarrow> string" where
  "producer_url st path = rstrip_char CHR ''/'' (producer_base_url st) @ path"

text \<open>\<^verbatim>\<open>int\<close> of a JSON value; the integer part of a float, from its repr, is the parameter \<open>trunc\<close>.\<close>

definition py_int :: "(string \<Rightarrow> py_exc + int) \<Rightarrow> json \<Rightarrow> py_exc + int" where
  "py_int trunc v =
     (case v of
        JInt i \<Rightarrow> Inr i
      | JBool b \<Rightarrow> Inr (if b then 1 else 0)
      | JFloat r \<Rightarrow> trunc r
      | JStr s \<Rightarrow> (case parse_int (ascii_view s) of None \<Rightarrow> Inl (ValueError ''int'') | Some i \<Rightarrow> Inr i)
      | _ \<Rightarrow> Inl TypeError)"

text \<open>A transport error, a bad status, a body that is not JSON, and a value that is no number publish 0.\<close>

definition burst :: "(string \<Rightarrow> py_exc + int) \<Rightarrow> producer_reply \<Rightarrow> py_exc + int" where
  "burst trunc reply =
     (case reply_doc reply of
        None \<Rightarrow> Inr 0
      | Some (JObj kvs) \<Rightarrow>
          (case py_int trunc (case get_item kvs ''published'' of None \<Rightarrow> JInt 0 | Some v \<Rightarrow> v) of
             Inl (ValueError _) \<Rightarrow> Inr 0 | Inl TypeError \<Rightarrow> Inr 0 | r \<Rightarrow> r)
      | Some _ \<Rightarrow> Inl AttributeError)"

record duplicate_result =
  du_status :: int
  du_event_id :: "uuid option"
  du_queued :: "int option"

record duplicate_response =
  du_key :: "utext option"
  du_results :: "duplicate_result list"

text \<open>\<open>validate\<close> is the schema library's \<^verbatim>\<open>model_validate\<close>, with None for a validation error.\<close>

definition duplicate :: "(json \<Rightarrow> duplicate_response option) \<Rightarrow> producer_reply \<Rightarrow> duplicate_response" where
  "duplicate validate reply =
     (case Option.bind (reply_doc reply) validate of None \<Rightarrow> \<lparr> du_key = None, du_results = [] \<rparr> | Some r \<Rightarrow> r)"

section \<open>The receiver\<close>

definition received_type :: "(json \<Rightarrow> utext) \<Rightarrow> loads_result \<Rightarrow> py_exc + utext" where
  "received_type rp doc =
     (case doc of
        Undecodable \<Rightarrow> Inl UnicodeDecodeError
      | Doc (JObj kvs) \<Rightarrow> Inr (py_str rp (case get_item kvs ''type'' of None \<Rightarrow> JStr (ucode ''unknown'') | Some v \<Rightarrow> v))
      | _ \<Rightarrow> Inr (ucode ''unknown''))"

definition receiver_respond ::
  "fernet_dec \<Rightarrow> settings \<Rightarrow> (json \<Rightarrow> utext) \<Rightarrow> uuid \<Rightarrow> bank_request \<Rightarrow> db \<Rightarrow> py_exc + (int \<times> string) \<times> db" where
  "receiver_respond fdec st rp e rq d =
     bind_exc (marked_endpoint e showcase_marker ''Unknown showcase endpoint'' d) (\<lambda>ep.
     bind_exc (check_signature fdec st ep rq) (\<lambda>(verified, reason).
     bind_exc (received_type rp (bq_doc rq)) (\<lambda>event_type.
       let healthy = get_health e d;
           response_status = (if \<not> verified then 401 else if healthy then 200 else 503)
       in bind_exc (record_request e rq event_type verified response_status d) (\<lambda>d1.
            Inr (if \<not> verified then (401, reason)
                 else if \<not> healthy then (503, ''pipeline unavailable'') else (200, ''accepted''), d1)))))"

definition showcase_receiver ::
  "fernet_dec \<Rightarrow> settings \<Rightarrow> (json \<Rightarrow> utext) \<Rightarrow> uuid \<Rightarrow> bank_request \<Rightarrow> db \<Rightarrow> (py_exc + int \<times> string) \<times> db" where
  "showcase_receiver fdec st rp e rq d = or_rollback d (receiver_respond fdec st rp e rq d)"

section \<open>Facts\<close>

lemma or_rollback_Inr: "or_rollback d r = (Inr y, d') \<longleftrightarrow> r = Inr (y, d')"
  by (auto simp: or_rollback_def split: sum.splits)

lemma get_showcase_resolves:
  assumes "get_showcase fenc st io d = (Inr h, d')" "distinct (map ep_id (endpoints d))"
    and "showcase_discord_webhook_url st \<noteq> [] \<or> endpoints_with is_discord (sh_project h) d' = []"
  shows "resolve_showcase st d' = Inr (Some h)"
proof (cases "resolve_showcase st d = Inr None")
  case True
  then have "seed_showcase fenc st io d = Inr (h, d')"
    using assms(1) by (simp add: get_showcase_def or_rollback_Inr)
  then show ?thesis
    using seeded_resolves [OF seed_showcase_seeded [OF _ assms(2)] assms(3)] by blast
next
  case False
  then show ?thesis
    using assms(1) by (auto simp: get_showcase_def split: sum.splits option.splits)
qed

text \<open>The workers' counts are those of the attempts shown, none is missing and none is shown twice.\<close>

lemma worker_stats_spec:
  "map ws_name (worker_stats items) = sort_key (\<lambda>n. (- int (count_list (attempt_workers items) n), ucode n)) (remdups (attempt_workers items))"
  "sum_list (map ws_attempts (worker_stats items)) = length (attempt_workers items)"
proof -
  let ?names = "attempt_workers items"
  let ?sorted = "sort_key (\<lambda>n. (- int (count_list ?names n), ucode n)) (remdups ?names)"
  show "map ws_name (worker_stats items) = ?sorted"
    by (simp add: worker_stats_def Let_def comp_def)
  have "sum_list (map ws_attempts (worker_stats items)) = sum_list (map (count_list ?names) ?sorted)"
    by (simp add: worker_stats_def Let_def comp_def)
  also have "\<dots> = (\<Sum>n \<in> set ?names. count_list ?names n)"
    by (subst sum_list_distinct_conv_sum_set) simp_all
  also have "\<dots> = length ?names"
    by (rule sum_count_set) simp_all
  finally show "sum_list (map ws_attempts (worker_stats items)) = length ?names" .
qed

section \<open>The receiver and the worker\<close>

text \<open>How a request of the worker arrives at a receiver route.\<close>

definition arrives :: "http_request \<Rightarrow> bank_request \<Rightarrow> bool" where
  "arrives rq b \<longleftrightarrow> bq_body b = rq_content rq \<and> bq_signature b = map_of (rq_headers rq) ''X-Webhook-Signature''
     \<and> bq_timestamp b = map_of (rq_headers rq) ''X-Webhook-Timestamp'' \<and> bq_attempt b = map_of (rq_headers rq) ''X-Webhook-Attempt''"

text \<open>What an attempt that sent a request and returned has made of its delivery.\<close>

lemma sent_status:
  assumes "process_delivery fdec st env x io name s = (s', Inr u)" "s_sent s' \<noteq> s_sent s"
  shows "map_option dl_status (find_delivery (dl_id x) (s_db s')) = Some
    (if http_succeeded (io_outcome io) then Succeeded
     else if max_delivery_attempts st \<le> dl_attempt_count x + 1 then Dead_lettered else Pending)"
proof -
  obtain ep ev secret where w: "find_endpoint (dl_endpoint x) (s_db s) = Some ep" "decrypt_secret fdec st (ep_secret_enc ep) = Inr secret"
      "find_event (dl_event x) (s_db s) = Some ev" "validate_url_not_ssrf (ep_url ep) = Inr ()"
    using sent_public [OF assms] by metis
  obtain c r where settle: "settle st io (dl_attempt_count x + 1) x (s_counters s) = (c, r)"
    by fastforce
  then obtain x' where x': "r = Inr x'"
    using assms(1) process_delivery_public [OF w, of env io name] by (cases r) auto
  note sp = settle_spec [OF settle [unfolded x']]
  obtain d where d: "flush_attempt (attempt_row x (dl_attempt_count x + 1) (resolve_worker_name st env name) io) x' (s_db s) = Inr d"
      "s_db s' = d"
    using assms(1) process_delivery_public [OF w, of env io name] settle x' by (auto simp: flush_session_Inr)
  show ?thesis
    using flush_attempt_Inr [OF d(1)] d(2) sp by (auto simp: find_delivery_put)
qed

section \<open>Properties\<close>

text \<open>The worker and the showcase receiver agree: a request the worker sends for a delivery to the seeded
  receiver is verified there within the signature's window, and the receiver's answer is 200 while the
  visitor has the pipeline up and 503 while it is down, recorded with the number of the attempt. When that
  answer is the outcome of the attempt, the delivery has succeeded exactly if the pipeline was up.\<close>

theorem receiver_answers_worker:
  assumes "process_delivery fdec st env x io name s = (s', Inr ())" "s_sent s' = s_sent s @ [rq]"
    and "\<bar>io_ts io\<bar> < 2 ^ 64" "\<bar>bq_clock b - of_int (io_ts io)\<bar> \<le> 300" "0 \<le> dl_attempt_count x" "dl_attempt_count x < 2 ^ 31"
    and "arrives rq b" "find_endpoint (dl_endpoint x) d = find_endpoint (dl_endpoint x) (s_db s)"
    and "showcase_receiver fdec st rp (dl_endpoint x) b d = (Inr (sc, msg), d')"
    and "io_outcome io = Http_response sc body"
  shows "sc = (if get_health (dl_endpoint x) d then 200 else 503)
    \<and> (\<exists>row. record_received_request row d = Inr d' \<and> rr_verified row \<and> rr_response_status row = sc
          \<and> rr_attempt row = dl_attempt_count x + 1)
    \<and> (map_option dl_status (find_delivery (dl_id x) (s_db s')) = Some Succeeded \<longleftrightarrow> get_health (dl_endpoint x) d)"
proof -
  have sent: "s_sent s' \<noteq> s_sent s"
    using assms(2) by simp
  obtain ep ev secret where w: "find_endpoint (dl_endpoint x) (s_db s) = Some ep" "decrypt_secret fdec st (ep_secret_enc ep) = Inr secret"
      "s_sent s' = s_sent s @ [attempt_request st ep ev secret x io]"
    using sent_public [OF assms(1) sent] by metis
  then have rq: "rq = attempt_request st ep ev secret x io"
    using assms(2) by simp
  have b: "bq_signature b = Some (build_signature_header secret (io_ts io) (bq_body b))" "bq_attempt b = Some (show_int (dl_attempt_count x + 1))"
    using assms(7) by (simp_all add: arrives_def rq request_signature)
  have num: "attempt_number (bq_attempt b) = dl_attempt_count x + 1"
    using b(2) parse_int_show_int [of "dl_attempt_count x + 1"] assms(5,6) by (simp add: attempt_number_def)
  have ver: "check_signature fdec st ep b = Inr (True, ''ok'')"
    using w(2) b(1) webhook.accepts [OF assms(3,4)] by (simp add: check_signature_def)
  have "receiver_respond fdec st rp (dl_endpoint x) b d = Inr ((sc, msg), d')"
    using assms(9) by (simp add: showcase_receiver_def or_rollback_Inr)
  then obtain ep' ty where steps: "marked_endpoint (dl_endpoint x) showcase_marker ''Unknown showcase endpoint'' d = Inr ep'"
      "check_signature fdec st ep' b = Inr (True, ''ok'') \<longrightarrow>
        record_request (dl_endpoint x) b ty True (if get_health (dl_endpoint x) d then 200 else 503) d = Inr d'
        \<and> sc = (if get_health (dl_endpoint x) d then 200 else 503)"
    unfolding receiver_respond_def Let_def by (auto simp: bind_exc_Inr split: if_splits)
  have "ep' = ep"
    using steps(1) w(1) assms(8) by (auto simp: marked_endpoint_def split: option.splits if_splits)
  then have rec: "record_request (dl_endpoint x) b ty True sc d = Inr d'" "sc = (if get_health (dl_endpoint x) d then 200 else 503)"
    using steps(2) ver by simp_all
  have "http_succeeded (io_outcome io) \<longleftrightarrow> get_health (dl_endpoint x) d"
    using assms(10) rec(2) by (simp add: http_succeeded_def)
  then have "map_option dl_status (find_delivery (dl_id x) (s_db s')) = Some Succeeded \<longleftrightarrow> get_health (dl_endpoint x) d"
    using sent_status [OF assms(1) sent] by (auto split: if_splits)
  moreover have "\<exists>row. record_received_request row d = Inr d' \<and> rr_verified row \<and> rr_response_status row = sc
          \<and> rr_attempt row = dl_attempt_count x + 1"
    using rec(1) num unfolding record_request_def received_row_def by fastforce
  ultimately show ?thesis
    using rec(2) by blast
qed

definition tagged_endpoint :: endpoint where
  "tagged_endpoint = sample_endpoint\<lparr>ep_event_types := [showcase_marker, sample_type]\<rparr>"

definition receiver_sess :: sess where
  "receiver_sess = (sample_sess [sample_delivery])\<lparr>s_db := (sample_db [sample_delivery])\<lparr>endpoints := [tagged_endpoint]\<rparr>\<rparr>"

definition worker_request :: http_request where
  "worker_request = attempt_request default_settings tagged_endpoint sample_event ''s3cret'' sample_delivery sample_io"

definition arrived_request :: bank_request where
  "arrived_request =
   \<lparr> bq_body = rq_content worker_request, bq_text = [], bq_doc = Not_json,
     bq_signature = map_of (rq_headers worker_request) ''X-Webhook-Signature'',
     bq_timestamp = map_of (rq_headers worker_request) ''X-Webhook-Timestamp'',
     bq_attempt = map_of (rq_headers worker_request) ''X-Webhook-Attempt'',
     bq_clock = 1700000000, bq_row_id = 90, bq_now = 500 \<rparr>"

lemma receiver_world:
  "find_endpoint 2 (s_db receiver_sess) = Some tagged_endpoint" "find_event 5 (s_db receiver_sess) = Some sample_event"
  "find_delivery 6 (s_db receiver_sess) = Some sample_delivery" "attempts (s_db receiver_sess) = []" "inbox (s_db receiver_sess) = []"
  "get_health 2 (s_db receiver_sess)" "s_counters receiver_sess = zero_counters" "s_sent receiver_sess = []"
  by (simp_all add: receiver_sess_def find_endpoint_def find_event_def find_delivery_def get_health_def find_health_def sample_db_def
      empty_db_def tagged_endpoint_def sample_endpoint_def sample_event_def sample_delivery_def)

lemma sample_receiver_attempt:
  "\<exists>s'. process_delivery sample_dec default_settings sample_env sample_delivery sample_io None receiver_sess = (s', Inr ())
     \<and> s_sent s' = s_sent receiver_sess @ [worker_request]"
proof -
  have f: "dl_endpoint sample_delivery = 2" "dl_event sample_delivery = 5" "dl_id sample_delivery = 6" "dl_attempt_count sample_delivery = 0"
    by (simp_all add: sample_delivery_def)
  have ep: "ep_secret_enc tagged_endpoint = ep_secret_enc sample_endpoint" "ep_url tagged_endpoint = ep_url sample_endpoint"
    by (simp_all add: tagged_endpoint_def)
  have "deliverable sample_dec default_settings sample_delivery sample_io tagged_endpoint sample_event ''s3cret'' (s_db receiver_sess)"
    using receiver_world sample_secret [of default_settings] f ep by (simp add: deliverable_def) (simp add: sample_io_def)
  moreover obtain c x' where "settle default_settings sample_io (dl_attempt_count sample_delivery + 1) sample_delivery (s_counters receiver_sess) = (c, Inr x')"
    by (simp add: settle_def Let_def sample_io_def http_succeeded_def)
  ultimately show ?thesis
    using process_deliverable [of sample_dec default_settings sample_delivery sample_io tagged_endpoint sample_event "''s3cret''" receiver_sess c x'
        sample_env None] sample_public ep by (simp add: worker_request_def)
qed

lemma sample_receiver_answer:
  "\<exists>d'. showcase_receiver sample_dec default_settings (\<lambda>_. []) 2 arrived_request (s_db receiver_sess) = (Inr (200, ''accepted''), d')"
proof -
  have sig: "bq_signature arrived_request = Some (build_signature_header ''s3cret'' 1700000000 (bq_body arrived_request))"
    "bq_attempt arrived_request = Some (show_int 1)" "bq_timestamp arrived_request = Some (show_int 1700000000)"
    by (simp_all add: arrived_request_def worker_request_def request_signature)
       (simp_all add: sample_io_def sample_delivery_def)
  have "marked_endpoint 2 showcase_marker msg (s_db receiver_sess) = Inr tagged_endpoint" for msg
    by (simp add: marked_endpoint_def receiver_world(1)) (simp add: tagged_endpoint_def)
  moreover have "check_signature sample_dec default_settings tagged_endpoint arrived_request = Inr (True, ''ok'')"
    using webhook.accepts [of 1700000000 1700000000] sample_secret [of default_settings]
    by (simp add: check_signature_def sig tagged_endpoint_def) (simp add: arrived_request_def)
  moreover have "c \<noteq> CHR 0x00" if "c \<in> set (show_int i)" for c i
    using show_int_chars [OF that] by (auto simp: is_digit_def code_def)
  then have "request_storable (received_row 90 500 2 (ucode ''unknown'') 1 True 200 (bq_signature arrived_request) (bq_timestamp arrived_request) [])"
    using built_no_nul by (fastforce simp: request_storable_def received_row_def text_ok_def sig)
  then have "\<exists>d'. record_request 2 arrived_request (ucode ''unknown'') True 200 (s_db receiver_sess) = Inr d'"
    using record_ok [of "received_row 90 500 2 (ucode ''unknown'') 1 True 200 (bq_signature arrived_request) (bq_timestamp arrived_request) []"
        "s_db receiver_sess"] receiver_world(5) parse_int_show_int [of 1]
    unfolding record_request_def attempt_number_def sig
    by (fastforce simp: arrived_request_def received_row_def receiver_sess_def tagged_endpoint_def sample_endpoint_def)
  ultimately show ?thesis
    using receiver_world(6) by (auto simp: showcase_receiver_def or_rollback_Inr receiver_respond_def received_type_def arrived_request_def)
qed

theorem receiver_answers_worker_witness:
  "\<exists>d' row. showcase_receiver sample_dec default_settings (\<lambda>_. []) 2 arrived_request (s_db receiver_sess) = (Inr (200, ''accepted''), d')
     \<and> record_received_request row (s_db receiver_sess) = Inr d' \<and> rr_verified row \<and> rr_attempt row = 1"
proof -
  obtain s' where s': "process_delivery sample_dec default_settings sample_env sample_delivery sample_io None receiver_sess = (s', Inr ())"
      "s_sent s' = s_sent receiver_sess @ [worker_request]"
    using sample_receiver_attempt by blast
  obtain d' where d': "showcase_receiver sample_dec default_settings (\<lambda>_. []) 2 arrived_request (s_db receiver_sess) = (Inr (200, ''accepted''), d')"
    using sample_receiver_answer by blast
  have f: "dl_endpoint sample_delivery = 2" "dl_attempt_count sample_delivery = 0" "io_ts sample_io = 1700000000"
    "bq_clock arrived_request = 1700000000" "io_outcome sample_io = Http_response 200 (ucode ''ok'')"
    by (simp_all add: sample_delivery_def sample_io_def arrived_request_def)
  have "arrives worker_request arrived_request"
    by (simp add: arrives_def arrived_request_def)
  then show ?thesis
    using receiver_answers_worker [OF s', of arrived_request "s_db receiver_sess" "\<lambda>_. []" 200 "''accepted''" d' "ucode ''ok''"] d'
    by (simp add: f) blast
qed

end
