(* ===== verification/Platform.thy ===== *)
theory Platform
  imports Showcase_Routes
begin

text \<open>
  The platform as a whole: the committed database, and every transaction of the worker, the API and the
  showcase as one step of a transition system. A step reads what it reads from any earlier database where
  the code reads without a lock, so the interleavings of concurrent requests are runs of this system. What
  holds in every reachable database follows from the invariant contract of \<^verbatim>\<open>Prelude\<close>.
\<close>

section \<open>Steps\<close>

inductive platform_step ::
  "fernet_enc \<Rightarrow> fernet_dec \<Rightarrow> settings \<Rightarrow> worker_env \<Rightarrow> (payload \<Rightarrow> payload) \<Rightarrow> db \<Rightarrow> db \<Rightarrow> bool"
  for fenc fdec st env jsonb where
  tick: "worker_tick fdec st env name io s = (s', n) \<Longrightarrow> platform_step fenc fdec st env jsonb (s_db s) (s_db s')"
| publish: "ingest_event jsonb io p ty pl key d1 d = (r, d', b) \<Longrightarrow> platform_step fenc fdec st env jsonb d d'"
| api_redrive: "redrive_delivery i p now d1 d = (r, d') \<Longrightarrow> platform_step fenc fdec st env jsonb d d'"
| new_project: "create_project i nm now d = (r, d') \<Longrightarrow> platform_step fenc fdec st env jsonb d d'"
| mint: "create_api_key p i nm rnd now d = (r', d') \<Longrightarrow> platform_step fenc fdec st env jsonb d d'"
| revoke: "delete_api_key p i now d = (u, d') \<Longrightarrow> platform_step fenc fdec st env jsonb d d'"
| authenticate: "get_current_project cred now d = (pj, d') \<Longrightarrow> platform_step fenc fdec st env jsonb d d'"
| register: "create_endpoint fenc st p body i srnd frnd now d = (er, d') \<Longrightarrow> platform_step fenc fdec st env jsonb d d'"
| change: "update_endpoint i p upd now d = (ur, d') \<Longrightarrow> platform_step fenc fdec st env jsonb d d'"
| rotate_secret: "rotate_endpoint_secret fenc st i p srnd frnd now d = (sr, d') \<Longrightarrow> platform_step fenc fdec st env jsonb d d'"
| remove: "delete_endpoint i p d = (u, d') \<Longrightarrow> platform_step fenc fdec st env jsonb d d'"
| resolve: "get_showcase fenc st sio d = (hr, d') \<Longrightarrow> platform_step fenc fdec st env jsonb d d'"
| visit: "record_visitor_activity h now db_now d = (u, d') \<Longrightarrow> platform_step fenc fdec st env jsonb d d'"
| toggle: "set_receiver_health h healthy now d = (tr, d') \<Longrightarrow> platform_step fenc fdec st env jsonb d d'"
| toggle_bank: "set_bank_health h bank mode now d = (br, d') \<Longrightarrow> platform_step fenc fdec st env jsonb d d'"
| force: "fast_forward_to_dead_letter fdec st env e ev ios (Some d) s = (s', fr) \<Longrightarrow> platform_step fenc fdec st env jsonb d (s_db s')"
| demo_redrive: "redrive h sel now d1 d = (dr, d') \<Longrightarrow> platform_step fenc fdec st env jsonb d d'"
| receive: "showcase_receiver fdec st rp e rq d = (a, d') \<Longrightarrow> platform_step fenc fdec st env jsonb d d'"
| receive_naive: "bank_naive_receiver fdec st rp e rq d = (a, d') \<Longrightarrow> platform_step fenc fdec st env jsonb d d'"
| receive_safe: "bank_safe_receiver fdec st rp e rq d = (a, d') \<Longrightarrow> platform_step fenc fdec st env jsonb d d'"

section \<open>The invariant\<close>

definition keys_recorded :: "db \<Rightarrow> bool" where
  "keys_recorded d \<longleftrightarrow> (\<forall>e \<in> set (events d). \<forall>k. ev_idempotency_key e = Some k \<longrightarrow>
     (\<exists>r \<in> set (idem_records d). ir_project r = ev_project e \<and> ir_key r = k \<and> ir_event r = ev_id e))"

definition attempts_owned :: "db \<Rightarrow> bool" where
  "attempts_owned d \<longleftrightarrow> at_delivery ` set (attempts d) \<subseteq> dl_id ` set (deliveries d)"

definition platform_ok :: "db \<Rightarrow> bool" where
  "platform_ok d \<longleftrightarrow> distinct (map dl_id (deliveries d)) \<and> none_in_flight d \<and> audited d \<and> attempts_owned d
     \<and> distinct (map ev_id (events d)) \<and> distinct (map (\<lambda>r. (ir_project r, ir_key r)) (idem_records d)) \<and> keys_recorded d"

text \<open>What the invariant is about; most steps leave all of it alone.\<close>

definition same_pipeline :: "db \<Rightarrow> db \<Rightarrow> bool" where
  "same_pipeline d d' \<longleftrightarrow> deliveries d' = deliveries d \<and> attempts d' = attempts d \<and> events d' = events d
     \<and> idem_records d' = idem_records d"

lemma same_pipeline_ok: "same_pipeline d d' \<Longrightarrow> platform_ok d \<Longrightarrow> platform_ok d'"
  by (simp add: same_pipeline_def platform_ok_def none_in_flight_def audited_def attempts_of_def attempts_owned_def keys_recorded_def)

lemma same_pipeline_refl [simp]: "same_pipeline d d"
  by (simp add: same_pipeline_def)

lemma same_pipeline_trans: "same_pipeline a b \<Longrightarrow> same_pipeline b c \<Longrightarrow> same_pipeline a c"
  by (simp add: same_pipeline_def)

lemma or_rollback_pipeline:
  assumes "or_rollback d r = (x, d')" "\<And>y d2. r = Inr (y, d2) \<Longrightarrow> same_pipeline d d2"
  shows "same_pipeline d d'"
  using assms by (auto simp: or_rollback_def split: sum.splits)

section \<open>Steps outside the pipeline\<close>

lemma account_steps:
  "create_project i nm now d = (r, d') \<Longrightarrow> same_pipeline d d'"
  "create_api_key p i nm rnd now d = (r', d') \<Longrightarrow> same_pipeline d d'"
  "delete_api_key p i now d = (u, d') \<Longrightarrow> same_pipeline d d'"
  "get_current_project cred now d = (pj, d') \<Longrightarrow> same_pipeline d d'"
  by (auto simp: create_project_def create_api_key_def delete_api_key_def revoke_api_key_def get_current_project_def
      put_api_key_def same_pipeline_def Let_def split: if_splits sum.splits prod.splits option.splits list.splits py_exc.splits)

lemma endpoint_steps:
  "create_endpoint fenc st p body i srnd frnd now d = (er, d') \<Longrightarrow> same_pipeline d d'"
  "update_endpoint i p upd now d = (ur, d') \<Longrightarrow> same_pipeline d d'"
  "rotate_endpoint_secret fenc st i p srnd frnd now d = (sr, d') \<Longrightarrow> same_pipeline d d'"
  by (auto simp: create_endpoint_def update_endpoint_def rotate_endpoint_secret_def put_endpoint_def same_pipeline_def Let_def
      split: if_splits sum.splits option.splits)

lemma add_endpoint_pipeline: "add_endpoint e d = Inr d' \<Longrightarrow> same_pipeline d d'"
  by (auto simp: add_endpoint_def same_pipeline_def split: if_splits)

lemma add_health_pipeline: "add_health e now d = Inr d' \<Longrightarrow> same_pipeline d d'"
  by (auto simp: add_health_def same_pipeline_def split: if_splits)

lemma add_with_health_pipeline: "add_with_health e now d = Inr (e', d') \<Longrightarrow> same_pipeline d d'"
  unfolding add_with_health_def by (auto simp: bind_exc_Inr intro: add_endpoint_pipeline add_health_pipeline same_pipeline_trans)

lemma seed_project_pipeline:
  assumes "seed_project st io d = Inr (p, d')"
  shows "same_pipeline d d'"
proof -
  obtain r where r: "one_or_none (named_projects st d) = Inr r"
    using assms by (auto simp: seed_project_def bind_exc_Inr Let_def)
  then show ?thesis
    using assms unfolding seed_project_def Let_def by (cases r) (auto simp: same_pipeline_def split: if_splits)
qed

lemma receiver_pipeline:
  assumes "find_or_create_receiver fenc st io p d = Inr (e, d')"
  shows "same_pipeline d d'"
proof -
  obtain r where r: "one_or_none (endpoints_with (tagged showcase_marker) p d) = Inr r"
    using assms by (auto simp: find_or_create_receiver_def bind_exc_Inr)
  then show ?thesis
    using assms unfolding find_or_create_receiver_def by (cases r) (auto dest: add_with_health_pipeline)
qed

lemma bank_pipeline:
  assumes "find_or_create_bank fenc st now ne marker kind p d = Inr (e, d')"
  shows "same_pipeline d d'"
proof -
  obtain r where r: "one_or_none (endpoints_with (tagged marker) p d) = Inr r"
    using assms by (auto simp: find_or_create_bank_def bind_exc_Inr)
  then show ?thesis
    using assms unfolding find_or_create_bank_def by (cases r) (auto dest: add_with_health_pipeline)
qed

lemma discord_pipeline:
  assumes "find_or_create_discord fenc st io p d = Inr (r, d')"
  shows "same_pipeline d d'"
proof (cases "showcase_discord_webhook_url st = []")
  case True
  then show ?thesis
    using assms by (simp add: find_or_create_discord_def)
next
  case False
  then obtain ex where ex: "one_or_none (endpoints_with is_discord p d) = Inr ex"
    using assms by (auto simp: find_or_create_discord_def bind_exc_Inr Let_def)
  show ?thesis
  proof (cases ex)
    case None
    then show ?thesis
      using assms ex False unfolding find_or_create_discord_def Let_def by (auto simp: bind_exc_Inr dest: add_endpoint_pipeline)
  next
    case (Some e)
    then show ?thesis
      using assms ex False unfolding find_or_create_discord_def Let_def
      by (auto simp: put_endpoint_def same_pipeline_def split: if_splits)
  qed
qed

lemma key_pipeline:
  assumes "ensure_api_key st io p d = Inr d'"
  shows "same_pipeline d d'"
proof (cases "showcase_api_key st = []")
  case True
  then show ?thesis
    using assms by (simp add: ensure_api_key_def)
next
  case False
  then obtain r where r: "one_or_none (keys_with_hash (hash_api_key (showcase_api_key st)) d) = Inr r"
    using assms by (auto simp: ensure_api_key_def bind_exc_Inr Let_def)
  then show ?thesis
    using assms False unfolding ensure_api_key_def Let_def by (cases r) (auto simp: same_pipeline_def split: if_splits)
qed

lemma seed_pipeline:
  assumes "seed_showcase fenc st io d = Inr (h, d')"
  shows "same_pipeline d d'"
proof -
  obtain p d1 r d2 dc d3 bn d4 bs d5 where
    "seed_project st io d = Inr (p, d1)" "find_or_create_receiver fenc st io p d1 = Inr (r, d2)"
    "find_or_create_discord fenc st io p d2 = Inr (dc, d3)"
    "find_or_create_bank fenc st (sd_now io) (sd_naive io) bank_naive_marker ''naive'' p d3 = Inr (bn, d4)"
    "find_or_create_bank fenc st (sd_now io) (sd_safe io) bank_safe_marker ''safe'' p d4 = Inr (bs, d5)"
    "ensure_api_key st io p d5 = Inr d'"
    using assms by (auto simp: seed_showcase_def bind_exc_Inr)
  then have "same_pipeline d d1" "same_pipeline d1 d2" "same_pipeline d2 d3" "same_pipeline d3 d4" "same_pipeline d4 d5" "same_pipeline d5 d'"
    by (blast intro: seed_project_pipeline receiver_pipeline discord_pipeline bank_pipeline key_pipeline)+
  then show ?thesis
    by (simp add: same_pipeline_def)
qed

lemma showcase_steps:
  "get_showcase fenc st io d = (hr, d') \<Longrightarrow> same_pipeline d d'"
  "record_visitor_activity h now db_now d = (u, d') \<Longrightarrow> same_pipeline d d'"
  "set_receiver_health h healthy now d = (tr, d') \<Longrightarrow> same_pipeline d d'"
  "set_bank_health h bank mode now d = (br, d') \<Longrightarrow> same_pipeline d d'"
proof -
  show "get_showcase fenc st io d = (hr, d') \<Longrightarrow> same_pipeline d d'"
    unfolding get_showcase_def by (auto elim!: or_rollback_pipeline dest: seed_pipeline split: sum.splits option.splits)
  show "record_visitor_activity h now db_now d = (u, d') \<Longrightarrow> same_pipeline d d'"
    unfolding record_visitor_activity_def
    by (erule or_rollback_pipeline) (auto simp: bind_exc_Inr touch_visitor_seen_def same_pipeline_def split: if_splits)
  show "set_receiver_health h healthy now d = (tr, d') \<Longrightarrow> same_pipeline d d'"
    unfolding set_receiver_health_def
    by (erule or_rollback_pipeline) (auto simp: bind_exc_Inr set_health_def put_health_def same_pipeline_def split: if_splits option.splits)
  show "set_bank_health h bank mode now d = (br, d') \<Longrightarrow> same_pipeline d d'"
    unfolding set_bank_health_def Let_def
    by (erule or_rollback_pipeline) (auto simp: bind_exc_Inr set_bank_mode_def put_health_def same_pipeline_def split: if_splits option.splits)
qed

section \<open>Receivers\<close>

lemma record_pipeline: "record_request e rq ty v sc d = Inr d' \<Longrightarrow> same_pipeline d d'"
  unfolding record_request_def by (auto dest!: record_frame(1) simp: same_pipeline_def)

lemma ensure_account_pipeline: "ensure_account_row e a now d = Inr d' \<Longrightarrow> same_pipeline d d'"
  by (auto simp: ensure_account_row_def same_pipeline_def split: if_splits)

lemma put_account_pipeline: "same_pipeline d (put_account r d)"
  by (simp add: put_account_def same_pipeline_def)

lemma naive_pipeline:
  assumes "apply_trade_naive e tr now d = Inr d'"
  shows "same_pipeline d d'"
proof -
  obtain d1 b where rd: "naive_read e tr now d = Inr (d1, b)" and wr: "naive_write e tr b now d1 = Inr d'"
    using assms by (auto simp: apply_trade_naive_def bind_exc_Inr)
  have "same_pipeline d d1"
    using rd ensure_account_pipeline [of e "tr_account tr" now d] by (auto simp: naive_read_def bind_exc_Inr split: option.splits)
  moreover have "d' = d1 \<or> (\<exists>r. d' = put_account r d1)"
    using wr by (auto simp: naive_write_def split: option.splits if_splits)
  ultimately show ?thesis
    using put_account_pipeline same_pipeline_trans by blast
qed

lemma safe_pipeline:
  assumes "apply_trade_safe e i tr now d = Inr (res, d')"
  shows "same_pipeline d d'"
proof (cases "i \<in> processed_by e d")
  case True
  then show ?thesis
    using assms by (simp add: apply_trade_safe_def)
next
  case False
  define d0 where "d0 = d\<lparr>processed := processed d @ [\<lparr> lp_endpoint = e, lp_event = i, lp_processed_at = now \<rparr>]\<rparr>"
  obtain d1 r where d1: "ensure_account_row e (tr_account tr) now d0 = Inr d1" "find_account e (tr_account tr) d1 = Some r"
    using assms False by (auto simp: apply_trade_safe_def d0_def bind_exc_Inr split: if_splits option.splits)
  then have "d' = d1 \<or> (\<exists>r. d' = put_account r d1)"
    using assms False by (auto simp: apply_trade_safe_def d0_def Let_def split: if_splits)
  moreover have "same_pipeline d d0" "same_pipeline d0 d1"
    using ensure_account_pipeline [OF d1(1)] by (simp_all add: d0_def same_pipeline_def)
  ultimately show ?thesis
    using put_account_pipeline same_pipeline_trans by blast
qed

lemma receiver_steps:
  "showcase_receiver fdec st rp e rq d = (a, d') \<Longrightarrow> same_pipeline d d'"
  "bank_naive_receiver fdec st rp e rq d = (a, d') \<Longrightarrow> same_pipeline d d'"
  "bank_safe_receiver fdec st rp e rq d = (a, d') \<Longrightarrow> same_pipeline d d'"
proof -
  show "showcase_receiver fdec st rp e rq d = (a, d') \<Longrightarrow> same_pipeline d d'"
    unfolding showcase_receiver_def receiver_respond_def Let_def
    by (erule or_rollback_pipeline) (auto simp: bind_exc_Inr intro: record_pipeline)
  show "bank_naive_receiver fdec st rp e rq d = (a, d') \<Longrightarrow> same_pipeline d d'"
    unfolding bank_naive_receiver_def naive_respond_def
    by (erule or_rollback_pipeline)
       (auto simp: bind_exc_Inr dest!: record_pipeline naive_pipeline intro: same_pipeline_trans split: if_splits option.splits)
  have "same_pipeline d d2" if safe: "safe_respond fdec st rp e rq d = Inr (y, d2)" for y d2
  proof -
    obtain ep i ty pl v why where steps: "marked_endpoint e bank_safe_marker unknown_bank d = Inr ep"
        "parse_envelope rp (bq_doc rq) = Inr (i, ty, pl)" "check_signature fdec st ep rq = Inr (v, why)"
      using safe by (auto simp: safe_respond_def bind_exc_Inr)
    show ?thesis
    proof (cases "get_bank_mode e d = Down \<or> \<not> v")
      case True
      then show ?thesis
        using safe steps unfolding safe_respond_def by (auto simp: bind_exc_Inr intro: record_pipeline split: if_splits)
    next
      case False
      then obtain t where t: "parse_trade rp pl = Inr t"
        using safe steps unfolding safe_respond_def by (auto simp: bind_exc_Inr)
      show ?thesis
        using safe steps False t unfolding safe_respond_def
        by (cases i; cases t) (auto simp: bind_exc_Inr dest!: record_pipeline safe_pipeline intro: same_pipeline_trans)
    qed
  qed
  then show "bank_safe_receiver fdec st rp e rq d = (a, d') \<Longrightarrow> same_pipeline d d'"
    unfolding bank_safe_receiver_def by (auto elim!: or_rollback_pipeline)
qed

section \<open>Steps of the pipeline\<close>

text \<open>What an attempt leaves besides the delivery's own row and count.\<close>

definition same_log :: "db \<Rightarrow> db \<Rightarrow> bool" where
  "same_log d d' \<longleftrightarrow> events d' = events d \<and> idem_records d' = idem_records d \<and> (attempts_owned d \<longrightarrow> attempts_owned d')"

lemma recorded_log:
  assumes "attempt_recorded x d x' a d'" "find_delivery (dl_id x) d = Some x"
  shows "same_log d d'"
proof -
  have "dl_id x \<in> dl_id ` set (deliveries d)"
    using find_delivery_mem [OF assms(2)] by auto
  moreover have "dl_id ` set (deliveries d') = dl_id ` set (deliveries d)"
    using recorded_ids [OF assms(1)] by (metis set_map)
  ultimately show ?thesis
    using assms(1) unfolding attempt_recorded_def same_log_def attempts_owned_def by auto
qed

lemma put_all_idem: "idem_records (put_all xs d) = idem_records d"
  by (induction xs arbitrary: d) simp_all

lemma run_once_log:
  assumes "run_once fdec st env name io s = (s', Inr n)" "distinct (map dl_id (deliveries (s_db s)))"
  shows "same_log (s_db s) (s_db s')"
proof -
  define d0 where "d0 = recover_expired_leases (tk_recover_now io) (s_db s)"
  obtain rows d1 where cl: "claim_due_deliveries st env None name (tk_locked io) (tk_now io) (tk_flush_now io) d0 = Inr (rows, d1)"
    using assms(1) unfolding run_once_def d0_def Let_def by (auto split: sum.splits)
  have rows: "rows = map (claim_stamp st env name (tk_now io) (tk_flush_now io)) (tick_batch st io (s_db s))" and d1: "d1 = put_all rows d0"
    using claim_Inr [OF cl] by (auto simp: d0_def)
  define s1 where "s1 = s\<lparr>s_db := d1, s_counters := (s_counters s)\<lparr>cn_claimed := cn_claimed (s_counters s) + int (length rows)\<rparr>\<rparr>"
  obtain u where pa: "process_all fdec st env name (tk_attempts io) [] rows s1 = (s', Inr u)"
    using assms(1) cl unfolding run_once_def d0_def s1_def Let_def by (auto split: prod.splits sum.splits)
  have s1: "s_db s1 = d1"
    by (simp add: s1_def)
  have "map dl_id (deliveries d1) = map dl_id (deliveries (s_db s))" "attempts d1 = attempts (s_db s)"
    "events d1 = events (s_db s)" "idem_records d1 = idem_records (s_db s)"
    by (simp_all add: d1 d0_def put_all_idem recover_expired_leases_def comp_def if_distrib cong: if_cong)
  then have base: "same_log (s_db s) d1"
    unfolding same_log_def attempts_owned_def by (metis set_map)
  have "distinct (map dl_id (deliveries d0))"
    using assms(2) by (simp add: d0_def)
  then have "batch_ok rows (s_db s1)"
    unfolding s1 d1 using rows unfolding d0_def by (rule claim_batch_ok)
  moreover have "same_log (s_db s) (s_db s1)"
    using base by (simp add: s1)
  moreover have "same_log (s_db s) d'" if "same_log (s_db s) d" "find_delivery (dl_id x) d = Some x" "attempt_recorded x d x' a d'"
    for x d x' a d'
    using that(1) recorded_log [OF that(3,2)] by (simp add: same_log_def)
  ultimately show ?thesis
    by (rule process_all_inv [OF pa])
qed

lemma tick_step:
  assumes "worker_tick fdec st env name io s = (s', n)" "platform_ok (s_db s)"
  shows "platform_ok (s_db s')"
proof -
  have ids: "distinct (map dl_id (deliveries (s_db s)))"
    using assms(2) by (simp add: platform_ok_def)
  have "none_in_flight (s_db s')" "audited (s_db s')"
    using tick_keeps_none_in_flight [OF assms(1) ids] tick_keeps_audited [OF assms(1) ids] assms(2) by (simp_all add: platform_ok_def)
  moreover have "map dl_id (deliveries (s_db s')) = map dl_id (deliveries (s_db s)) \<and> same_log (s_db s) (s_db s')"
    using assms(1)
  proof (cases rule: worker_tick_cases)
    case committed
    then show ?thesis
      using run_once_Inr(2) [OF committed ids] run_once_log [OF committed ids] by simp
  next
    case rolled_back
    then show ?thesis
      by (simp add: same_log_def)
  qed
  ultimately show ?thesis
    using assms(2) unfolding platform_ok_def same_log_def keys_recorded_def by simp
qed

text \<open>One call of \<^verbatim>\<open>process_delivery\<close> on a committed row, as the fast path makes it.\<close>

lemma attempt_step:
  assumes "process_delivery fdec st env x io name s = (s', Inr u)" "find_delivery (dl_id x) (s_db s) = Some x" "platform_ok (s_db s)"
  shows "platform_ok (s_db s')"
proof -
  obtain x' a where r: "attempt_recorded x (s_db s) x' a (s_db s')"
    using process_delivery_ok [OF assms(1)] by blast
  have ids: "distinct (map dl_id (deliveries (s_db s)))" "distinct (map dl_id (deliveries (s_db s')))"
    using assms(3) recorded_ids [OF r] by (simp_all add: platform_ok_def)
  have row: "dl_status y \<noteq> In_flight \<and> 0 \<le> dl_attempt_count y \<and> map at_number (attempts_of (dl_id y) (s_db s')) = [1..dl_attempt_count y]"
    if "y \<in> set (deliveries (s_db s'))" for y
  proof -
    have f: "find_delivery (dl_id y) (s_db s') = Some y"
      using find_delivery_row [OF ids(2) that] .
    show ?thesis
    proof (cases "dl_id y = dl_id x")
      case True
      then have "y = x'"
        using f recorded_find [OF r] by simp
      then show ?thesis
        using r recorded_attempts [OF r, of "dl_id x"] audited_find [OF _ assms(2)] assms(3) True
        by (auto simp: attempt_recorded_def platform_ok_def upto_rec2)
    next
      case False
      then have "find_delivery (dl_id y) (s_db s) = Some y"
        using f recorded_find [OF r] by simp
      then have "y \<in> set (deliveries (s_db s))"
        using find_delivery_mem by blast
      then have "dl_status y \<noteq> In_flight" "0 \<le> dl_attempt_count y \<and> map at_number (attempts_of (dl_id y) (s_db s)) = [1..dl_attempt_count y]"
        using assms(3) by (auto simp: platform_ok_def none_in_flight_def audited_def)
      then show ?thesis
        using recorded_attempts [OF r, of "dl_id y"] False by simp
    qed
  qed
  then have "none_in_flight (s_db s')" "audited (s_db s')"
    by (simp_all add: none_in_flight_def audited_def)
  then show ?thesis
    using assms(3) ids(2) recorded_log [OF r assms(2)] unfolding platform_ok_def same_log_def keys_recorded_def by simp
qed

lemma fast_forward_loop_step:
  assumes "fast_forward_loop fdec st env i ios s = (s', Inr u)" "platform_ok (s_db s)"
  shows "platform_ok (s_db s')"
  using assms
proof (induction ios arbitrary: s)
  case (Cons io ios)
  obtain x where x: "find_delivery i (s_db s) = Some x"
    using Cons.prems(1) by (auto split: option.splits)
  show ?case
  proof (cases "dl_status x = Dead_lettered")
    case True
    then show ?thesis
      using Cons.prems x by simp
  next
    case False
    then obtain s1 where s1: "process_delivery fdec st env x io None s = (s1, Inr ())" "fast_forward_loop fdec st env i ios s1 = (s', Inr u)"
      using Cons.prems(1) x by (auto split: prod.splits sum.splits)
    then show ?thesis
      using Cons.IH [OF s1(2)] attempt_step [OF s1(1)] Cons.prems(2) x find_delivery_mem [OF x] by simp
  qed
qed simp

lemma force_step:
  assumes "fast_forward_to_dead_letter fdec st env e ev ios (Some d) s = (s', r)" "platform_ok d"
  shows "platform_ok (s_db s')"
  using assms fast_forward_loop_step [of fdec st env _ _ "s\<lparr>s_db := d\<rparr>"]
  by (fastforce simp: fast_forward_to_dead_letter_def split: sum.splits option.splits prod.splits)

text \<open>Overwriting a row without touching its count, as the redrives do.\<close>

lemma put_step:
  assumes "find_delivery (dl_id x') d = Some x" "dl_attempt_count x' = dl_attempt_count x" "dl_status x' \<noteq> In_flight" "platform_ok d"
  shows "platform_ok (put_delivery x' d)"
proof -
  have "dl_status y \<noteq> In_flight \<and> 0 \<le> dl_attempt_count y \<and> map at_number (attempts_of (dl_id y) d) = [1..dl_attempt_count y]"
    if "y \<in> set (put_pk dl_id x' (deliveries d))" for y
  proof (cases "y = x'")
    case True
    then show ?thesis
      using assms audited_find [OF _ assms(1)] by (simp add: platform_ok_def)
  next
    case False
    then have "y \<in> set (deliveries d)"
      using set_put_pk [OF that] by blast
    then show ?thesis
      using assms(4) by (auto simp: platform_ok_def none_in_flight_def audited_def)
  qed
  moreover have "dl_id ` set (put_pk dl_id x' (deliveries d)) = dl_id ` set (deliveries d)"
    using map_pk_put_pk [of dl_id x' "deliveries d"] by (metis set_map)
  ultimately show ?thesis
    using assms(4) by (simp add: platform_ok_def none_in_flight_def audited_def attempts_owned_def keys_recorded_def map_pk_put_pk)
qed

lemma redrive_write_fields: "dl_id (redrive_write seen now x) = dl_id x" "dl_attempt_count (redrive_write seen now x) = dl_attempt_count x"
  "dl_status (redrive_write seen now x) = Pending"
  by (simp_all add: redrive_write_def)

lemma redrive_steps:
  "redrive_delivery i p now d1 d = (r, d') \<Longrightarrow> platform_ok d \<Longrightarrow> platform_ok d'"
  "redrive h sel now d1 d = (dr, d') \<Longrightarrow> platform_ok d \<Longrightarrow> platform_ok d'"
proof -
  have put: "platform_ok (put_delivery (redrive_write seen now x) d)" if "find_delivery j d = Some x" "platform_ok d" for j x seen
    using that find_delivery_mem [OF that(1)] by (intro put_step [of _ _ x]) (simp_all add: redrive_write_fields)
  show "redrive_delivery i p now d1 d = (r, d') \<Longrightarrow> platform_ok d \<Longrightarrow> platform_ok d'"
    unfolding redrive_delivery_def Let_def by (auto intro: put split: sum.splits option.splits if_splits)
  show "redrive h sel now d1 d = (dr, d') \<Longrightarrow> platform_ok d \<Longrightarrow> platform_ok d'"
    unfolding redrive_def Let_def by (auto intro: put split: option.splits if_splits)
qed

lemma cascade_attempts:
  assumes "distinct (map dl_id (deliveries d))" "y \<in> set (deliveries (cascade_endpoint i d))"
  shows "attempts_of (dl_id y) (cascade_endpoint i d) = attempts_of (dl_id y) d"
proof -
  let ?gone = "dl_id ` set (filter (\<lambda>x. dl_endpoint x = i) (deliveries d))"
  have "dl_id y \<notin> ?gone"
    using assms by (auto simp: cascade_endpoint_def Let_def distinct_map inj_on_def)
  then have "(at_delivery a \<notin> ?gone \<and> at_delivery a = dl_id y) = (at_delivery a = dl_id y)" for a
    by metis
  then show ?thesis
    by (auto simp: attempts_of_def cascade_endpoint_def Let_def intro: filter_cong)
qed

lemma remove_step:
  assumes "delete_endpoint i p d = (u, d')" "platform_ok d"
  shows "platform_ok d'"
proof (cases "d' = d")
  case False
  then have d': "d' = cascade_endpoint i d"
    using assms(1) by (auto simp: delete_endpoint_def split: sum.splits)
  let ?gone = "dl_id ` set (filter (\<lambda>x. dl_endpoint x = i) (deliveries d))"
  have tables: "deliveries d' = filter (\<lambda>x. dl_endpoint x \<noteq> i) (deliveries d)" "attempts d' = filter (\<lambda>a. at_delivery a \<notin> ?gone) (attempts d)"
    "events d' = events d" "idem_records d' = idem_records d"
    by (simp_all add: d' cascade_endpoint_def Let_def)
  have ids: "distinct (map dl_id (deliveries d))"
    using assms(2) by (simp add: platform_ok_def)
  have "attempts_of (dl_id y) d' = attempts_of (dl_id y) d" if "y \<in> set (deliveries d')" for y
    using cascade_attempts [OF ids that [unfolded d']] by (simp add: d')
  then have "none_in_flight d'" "audited d'"
    using assms(2) by (auto simp: platform_ok_def none_in_flight_def audited_def tables(1))
  moreover have "at_delivery a \<in> dl_id ` set (deliveries d')" if "a \<in> set (attempts d')" for a
  proof -
    have a: "a \<in> set (attempts d)" "at_delivery a \<notin> ?gone"
      using that unfolding tables(2) by simp_all
    have "at_delivery a \<in> dl_id ` set (deliveries d)"
      using a(1) assms(2) by (auto simp: platform_ok_def attempts_owned_def)
    then obtain x where x: "x \<in> set (deliveries d)" "dl_id x = at_delivery a"
      by (metis imageE)
    then have "dl_endpoint x \<noteq> i"
      using a(2) by force
    then show ?thesis
      using x unfolding tables(1) by (auto intro!: image_eqI [of _ _ x])
  qed
  then have "attempts_owned d'"
    by (auto simp: attempts_owned_def)
  moreover have "distinct (map dl_id (deliveries d'))"
    unfolding tables(1) using ids by (rule distinct_map_filter)
  ultimately show ?thesis
    using assms(2) by (simp add: platform_ok_def keys_recorded_def tables(3,4))
qed (use assms in simp)

lemma publish_step:
  assumes "ingest_event jsonb io p ty pl key d1 d = (r, d', b)" "platform_ok d"
  shows "platform_ok d'"
proof (cases "d' = d")
  case False
  let ?ev = "new_event jsonb io p ty pl key" and ?dls = "map (new_delivery io) (fan_out_targets p ty d1)"
  obtain rc where ok: "insert_ok ?ev ?dls rc d"
    and rc: "rc = map_option (\<lambda>k. new_record io p k (int (length (fan_out_targets p ty d1))) (body_hash ty pl)) key"
    and d': "d' = insert_event ?ev ?dls rc d"
    using ingest_db [OF assms(1)] False by blast
  have new: "dl_status x = Pending \<and> dl_attempt_count x = 0 \<and> attempts_of (dl_id x) d' = []" if "x \<in> set ?dls" for x
  proof -
    have "dl_id x \<notin> at_delivery ` set (attempts d)"
      using ok that assms(2) by (fastforce simp: insert_ok_def platform_ok_def attempts_owned_def)
    moreover have "attempts d' = attempts d"
      by (simp add: d' insert_event_def)
    ultimately have "attempts_of (dl_id x) d' = []"
      unfolding attempts_of_def filter_empty_conv by (metis imageI)
    then show ?thesis
      using that by (auto simp: new_delivery_def)
  qed
  have old: "attempts_of i d' = attempts_of i d" for i
    by (simp add: d' insert_event_def attempts_of_def)
  have tables: "deliveries d' = deliveries d @ ?dls" "attempts d' = attempts d" "events d' = events d @ [?ev]"
    by (simp_all add: d' insert_event_def)
  have all: "x \<in> set (deliveries d) \<or> x \<in> set ?dls" if "x \<in> set (deliveries d')" for x
    using that unfolding tables(1) by simp
  have "dl_status x \<noteq> In_flight \<and> 0 \<le> dl_attempt_count x \<and> map at_number (attempts_of (dl_id x) d') = [1..dl_attempt_count x]"
    if "x \<in> set (deliveries d')" for x
  proof (cases "x \<in> set ?dls")
    case True
    then show ?thesis
      using new by simp
  next
    case False
    then have "x \<in> set (deliveries d)"
      using all [OF that] by blast
    then show ?thesis
      using assms(2) by (simp add: old platform_ok_def none_in_flight_def audited_def)
  qed
  then have "none_in_flight d'" "audited d'"
    by (simp_all add: none_in_flight_def audited_def)
  moreover have "distinct (map dl_id (deliveries d'))"
    using ok assms(2) unfolding tables(1) insert_ok_def platform_ok_def map_append distinct_append set_map by blast
  moreover have "attempts_owned d'"
    using assms(2) unfolding platform_ok_def attempts_owned_def tables(1,2) set_append image_Un by blast
  moreover have "distinct (map ev_id (events d'))"
    using ok assms(2) by (simp add: tables(3) insert_ok_def platform_ok_def)
  moreover have "distinct (map (\<lambda>r. (ir_project r, ir_key r)) (idem_records d'))"
    using ok assms(2) by (cases rc) (auto simp: insert_ok_def platform_ok_def d' insert_event_def find_idem_def find_pk_None image_iff)
  moreover have "keys_recorded d'"
    using assms(2) rc by (cases key) (auto simp: platform_ok_def keys_recorded_def d' insert_event_def new_event_def new_record_def)
  ultimately show ?thesis
    by (simp add: platform_ok_def)
qed (use assms in simp)

section \<open>The system\<close>

definition fresh_platform :: "db \<Rightarrow> bool" where
  "fresh_platform d \<longleftrightarrow> d = empty_db"

lemma platform_step_ok:
  assumes "platform_step fenc fdec st env jsonb d d'" "platform_ok d"
  shows "platform_ok d'"
  using assms
  by (induction rule: platform_step.induct)
     (blast intro: tick_step publish_step redrive_steps remove_step force_step
        same_pipeline_ok [OF account_steps(1)] same_pipeline_ok [OF account_steps(2)] same_pipeline_ok [OF account_steps(3)]
        same_pipeline_ok [OF account_steps(4)] same_pipeline_ok [OF endpoint_steps(1)] same_pipeline_ok [OF endpoint_steps(2)]
        same_pipeline_ok [OF endpoint_steps(3)] same_pipeline_ok [OF showcase_steps(1)] same_pipeline_ok [OF showcase_steps(2)]
        same_pipeline_ok [OF showcase_steps(3)] same_pipeline_ok [OF showcase_steps(4)] same_pipeline_ok [OF receiver_steps(1)]
        same_pipeline_ok [OF receiver_steps(2)] same_pipeline_ok [OF receiver_steps(3)])+

interpretation platform:
  invariant_system fresh_platform "platform_step fenc fdec st env jsonb" platform_ok
  for fenc fdec st env jsonb
proof unfold_locales
  show "platform_ok d" if "fresh_platform d" for d
    using that by (simp add: fresh_platform_def platform_ok_def empty_db_def none_in_flight_def audited_def attempts_owned_def keys_recorded_def)
  show "platform_ok d'" if "platform_step fenc fdec st env jsonb d d'" "platform_ok d" for d d'
    using that by (rule platform_step_ok)
qed

text \<open>C1: In every database the platform can reach from an empty one, through any interleaving of requests,
  worker ticks and demo traffic: an idempotency key names at most one event of its project, every delivery's
  attempts are numbered 1 to its attempt count with no gap, no delivery is in flight, and no attempt is
  without its delivery.\<close>

theorem platform_invariants:
  assumes "(platform_step fenc fdec st env jsonb)\<^sup>*\<^sup>* empty_db d"
  shows "(\<forall>e \<in> set (events d). \<forall>f \<in> set (events d).
       ev_project e = ev_project f \<and> ev_idempotency_key e = ev_idempotency_key f \<and> ev_idempotency_key e \<noteq> None \<longrightarrow> e = f)
    \<and> (\<forall>x \<in> set (deliveries d). map at_number (attempts_of (dl_id x) d) = [1..dl_attempt_count x] \<and> dl_status x \<noteq> In_flight)
    \<and> at_delivery ` set (attempts d) \<subseteq> dl_id ` set (deliveries d)"
proof -
  have ok: "platform_ok d"
    using platform.inv_reachable [OF _ assms] by (simp add: fresh_platform_def)
  have "e = f" if ef: "e \<in> set (events d)" "f \<in> set (events d)" "ev_project e = ev_project f"
      "ev_idempotency_key e = Some k" "ev_idempotency_key f = Some k" for e f k
  proof -
    have recorded: "keys_recorded d"
      using ok by (simp add: platform_ok_def)
    obtain r where r: "r \<in> set (idem_records d)" "ir_project r = ev_project e" "ir_key r = k" "ir_event r = ev_id e"
      using recorded ef(1,4) unfolding keys_recorded_def by blast
    obtain q where q: "q \<in> set (idem_records d)" "ir_project q = ev_project f" "ir_key q = k" "ir_event q = ev_id f"
      using recorded ef(2,5) unfolding keys_recorded_def by blast
    note rq = r q
    have "inj_on (\<lambda>r. (ir_project r, ir_key r)) (set (idem_records d))"
      using ok by (simp add: platform_ok_def distinct_map)
    then have "r = q"
      by (rule inj_onD) (use rq ef(3) in simp_all)
    then have "ev_id e = ev_id f"
      using rq by simp
    then show ?thesis
      using ok ef(1,2) by (auto simp: platform_ok_def distinct_map dest: inj_onD)
  qed
  then have "\<forall>e \<in> set (events d). \<forall>f \<in> set (events d).
       ev_project e = ev_project f \<and> ev_idempotency_key e = ev_idempotency_key f \<and> ev_idempotency_key e \<noteq> None \<longrightarrow> e = f"
    by (metis option.exhaust)
  moreover have "\<forall>x \<in> set (deliveries d). map at_number (attempts_of (dl_id x) d) = [1..dl_attempt_count x] \<and> dl_status x \<noteq> In_flight"
    using ok by (simp add: platform_ok_def none_in_flight_def audited_def)
  moreover have "at_delivery ` set (attempts d) \<subseteq> dl_id ` set (deliveries d)"
    using ok by (simp add: platform_ok_def attempts_owned_def)
  ultimately show ?thesis
    by blast
qed

text \<open>A first run: a project is created and an event is published to it under a key.\<close>

definition first_db :: db where
  "first_db = empty_db\<lparr>projects := [\<lparr> pj_id = 1, pj_name = ucode ''acme'', pj_created_at = 0, pj_updated_at = 0 \<rparr>]\<rparr>"

lemma first_project: "create_project 1 (ucode ''acme'') 0 empty_db = (Inr \<lparr> pjr_id = 1, pjr_name = ucode ''acme'', pjr_created_at = 0 \<rparr>, first_db)"
  by (simp add: create_project_def name_ok_def project_view_def first_db_def empty_db_def Let_def)

lemma first_publish:
  "\<exists>d. ingest_event id sample_in 1 sample_type [] (Some ''k'') first_db first_db = (Inr (50, 0), d, False)
     \<and> events d = [new_event id sample_in 1 sample_type [] (Some ''k'')]"
proof -
  have none: "fan_out_targets 1 sample_type first_db = []" "find_idem 1 ''k'' first_db = None"
    by (simp_all add: fan_out_targets_def find_idem_def first_db_def empty_db_def)
  have "insert_ok (new_event id sample_in 1 sample_type [] (Some ''k'')) [] (Some (new_record sample_in 1 ''k'' 0 h)) first_db" for h
    using none(2) by (simp add: insert_ok_def new_event_def new_record_def) (simp add: first_db_def empty_db_def)
  then show ?thesis
    using none sample_storable by (simp add: ingest_event_def Let_def sample_in_def insert_event_def) (simp add: first_db_def empty_db_def)
qed

theorem platform_invariants_witness:
  "\<exists>d. (platform_step sample_enc sample_dec default_settings sample_env id)\<^sup>*\<^sup>* empty_db d \<and> length (events d) = 1
     \<and> (\<forall>e \<in> set (events d). \<forall>f \<in> set (events d). ev_project e = ev_project f
          \<and> ev_idempotency_key e = ev_idempotency_key f \<and> ev_idempotency_key e \<noteq> None \<longrightarrow> e = f)"
proof -
  obtain d where d: "ingest_event id sample_in 1 sample_type [] (Some ''k'') first_db first_db = (Inr (50, 0), d, False)"
      "events d = [new_event id sample_in 1 sample_type [] (Some ''k'')]"
    using first_publish by blast
  have "platform_step sample_enc sample_dec default_settings sample_env id empty_db first_db"
    using first_project by (rule platform_step.new_project)
  moreover have "platform_step sample_enc sample_dec default_settings sample_env id first_db d"
    using d(1) by (rule platform_step.publish)
  ultimately have "(platform_step sample_enc sample_dec default_settings sample_env id)\<^sup>*\<^sup>* empty_db d"
    by auto
  moreover have "length (events d) = 1"
    by (simp add: d(2))
  ultimately show ?thesis
    using platform_invariants by blast
qed

end
