(* ===== verification/Lifecycle.thy ===== *)
theory Lifecycle
  imports Platform
begin

text \<open>
  What the platform promises about one delivery, as a state machine of four transitions, and the proof that
  every run of the platform, with all its tables, requests and worker ticks, is a run of that machine for each
  delivery. The machine counts the attempts on record, where the code keeps a counter in the delivery's row.
\<close>

section \<open>Refinement of runs\<close>

text \<open>Each step of a system with an invariant is matched by a run of an abstract one.\<close>

locale refined_system = invariant_system init step inv
  for init :: "'s \<Rightarrow> bool" and step :: "'s \<Rightarrow> 's \<Rightarrow> bool" and inv :: "'s \<Rightarrow> bool" +
  fixes abs :: "'s \<Rightarrow> 'a"
    and astep :: "'a \<Rightarrow> 'a \<Rightarrow> bool"
  assumes matched: "step s t \<Longrightarrow> inv s \<Longrightarrow> astep\<^sup>*\<^sup>* (abs s) (abs t)"
begin

lemma run_matched: "step\<^sup>*\<^sup>* s t \<Longrightarrow> inv s \<Longrightarrow> astep\<^sup>*\<^sup>* (abs s) (abs t)"
proof (induction rule: rtranclp_induct)
  case (step t u)
  then have "inv t"
    using inv_rtranclp by blast
  then show ?case
    using step matched by (meson rtranclp_trans)
qed simp

end

section \<open>The life of a delivery\<close>

datatype phase = Queued | Delivered | Dead

type_synonym ticket = "(phase \<times> nat) option"

text \<open>
  A delivery is born queued with no attempt. An attempt is only made on one that is not dead; it ends the
  delivery or, below the limit, queues it again. A redrive queues it whatever its phase, because the code
  writes the status without locking the row it checked. Deleting the endpoint removes it.
\<close>

inductive life_step :: "int \<Rightarrow> ticket \<Rightarrow> ticket \<Rightarrow> bool" for limit where
  published: "life_step limit None (Some (Queued, 0))"
| attempted: "p \<noteq> Dead \<Longrightarrow> (q = Queued \<longrightarrow> int n + 1 < limit) \<Longrightarrow> life_step limit (Some (p, n)) (Some (q, Suc n))"
| redriven: "life_step limit (Some (p, n)) (Some (Queued, n))"
| removed: "life_step limit (Some (p, n)) None"

inductive_simps life_step_simps: "life_step limit (Some (p, n)) t" "life_step limit None t"

text \<open>No transition writes the status \<^verbatim>\<open>failed\<close>, and no committed row is in flight.\<close>

fun phase_of :: "delivery_status \<Rightarrow> phase" where
  "phase_of Succeeded = Delivered"
| "phase_of Dead_lettered = Dead"
| "phase_of Pending = Queued"
| "phase_of In_flight = Queued"
| "phase_of Failed = Queued"

definition ticket :: "uuid \<Rightarrow> db \<Rightarrow> ticket" where
  "ticket i d = map_option (\<lambda>x. (phase_of (dl_status x), length (attempts_of i d))) (find_delivery i d)"

definition ended_with_attempt :: "ticket \<Rightarrow> bool" where
  "ended_with_attempt t \<longleftrightarrow> (case t of None \<Rightarrow> True | Some (p, n) \<Rightarrow> p = Queued \<or> 0 < n)"

interpretation life: invariant_system "\<lambda>t. t = None" "life_step limit" ended_with_attempt
  for limit
  by unfold_locales (auto simp: ended_with_attempt_def elim!: life_step.cases)

section \<open>The steps of the platform\<close>

lemma same_pipeline_ticket: "same_pipeline d d' \<Longrightarrow> ticket i d' = ticket i d"
  by (simp add: same_pipeline_def ticket_def find_delivery_def attempts_of_def)

lemma audited_length:
  assumes "platform_ok d" "find_delivery i d = Some x"
  shows "dl_attempt_count x = int (length (attempts_of i d))"
proof -
  have "0 \<le> dl_attempt_count x" "map at_number (attempts_of i d) = [1..dl_attempt_count x]"
    using audited_find [OF _ assms(2)] assms(1) by (auto simp: platform_ok_def)
  then have "length (attempts_of i d) = nat (dl_attempt_count x)"
    by (metis length_map length_upto diff_add_cancel)
  then show ?thesis
    using \<open>0 \<le> dl_attempt_count x\<close> by simp
qed

lemma recovered_row: "dl_status y \<noteq> In_flight \<Longrightarrow> recovered now y = y"
  by (simp add: recovered_def lease_expired_def)

lemma attempted_ticket:
  assumes "settled_from st io x x'" "find_delivery i d = Some x" "dl_attempt_count x = int (length (attempts_of i d))"
    and "phase_of (dl_status x) \<noteq> Dead" "find_delivery i d' = Some x'" "attempts_of i d' = attempts_of i d @ [a]"
  shows "life_step (max_delivery_attempts st) (ticket i d) (ticket i d')"
proof -
  have "phase_of (dl_status x') = Queued \<longrightarrow> int (length (attempts_of i d)) + 1 < max_delivery_attempts st"
    using assms(1,3) by (auto simp: settled_from_def)
  then show ?thesis
    using assms(2,4-6) by (auto simp: ticket_def intro: life_step.attempted)
qed

lemma tick_ticket:
  assumes "worker_tick fdec st env name io s = (s', n)" "platform_ok (s_db s)"
  shows "(life_step (max_delivery_attempts st))\<^sup>*\<^sup>* (ticket i (s_db s)) (ticket i (s_db s'))"
  using assms(1)
proof (cases rule: worker_tick_cases)
  case committed
  have ids: "distinct (map dl_id (deliveries (s_db s)))"
    using assms(2) by (simp add: platform_ok_def)
  note ro = run_once_Inr [OF committed ids]
  have same: "recovered now y = y" if "find_delivery j (s_db s) = Some y" for j y now
    using find_delivery_mem [OF that] assms(2) by (auto simp: platform_ok_def none_in_flight_def intro: recovered_row)
  show ?thesis
  proof (cases "i \<in> dl_id ` set (tick_batch st io (s_db s))")
    case True
    then obtain x where x: "x \<in> set (tick_batch st io (s_db s))" "i = dl_id x"
      by auto
    obtain y where y: "find_delivery (dl_id x) (s_db s) = Some y" "x = recovered (tk_recover_now io) y"
      using claim_rows_due [OF x(1)] ids by (auto simp: recover_deliveries dest: find_delivery_row)
    then have "x = y"
      using same by simp
    moreover have "dl_status x = Pending"
      using claim_rows_due [OF x(1)] by (simp add: due_def)
    ultimately show ?thesis
      using ro(4) [OF x(1)] y(1) audited_length [OF assms(2) y(1)] x(2) attempted_ticket [of st _ x _ i "s_db s" "s_db s'"]
      by (metis phase.distinct(3) phase_of.simps(3) r_into_rtranclp)
  next
    case False
    have "map_option (recovered (tk_recover_now io)) (find_delivery i (s_db s)) = find_delivery i (s_db s)"
      using same by (cases "find_delivery i (s_db s)") auto
    then have "ticket i (s_db s') = ticket i (s_db s)"
      using ro(3) [OF False] by (simp add: ticket_def find_recovered)
    then show ?thesis
      by simp
  qed
next
  case rolled_back
  then show ?thesis
    by simp
qed

lemma loop_ticket:
  assumes "fast_forward_loop fdec st env j ios s = (s', Inr u)" "platform_ok (s_db s)"
  shows "(life_step (max_delivery_attempts st))\<^sup>*\<^sup>* (ticket i (s_db s)) (ticket i (s_db s'))"
  using assms
proof (induction ios arbitrary: s)
  case (Cons io ios)
  obtain x where x: "find_delivery j (s_db s) = Some x"
    using Cons.prems(1) by (auto split: option.splits)
  show ?case
  proof (cases "dl_status x = Dead_lettered")
    case True
    then show ?thesis
      using Cons.prems x by simp
  next
    case False
    then obtain s1 where s1: "process_delivery fdec st env x io None s = (s1, Inr ())" "fast_forward_loop fdec st env j ios s1 = (s', Inr u)"
      using Cons.prems(1) x by (auto split: prod.splits sum.splits)
    have j: "dl_id x = j"
      using find_delivery_mem [OF x] by blast
    obtain x' a where r: "attempt_recorded x (s_db s) x' a (s_db s1)" "settled_from st io x x'"
      using process_delivery_ok [OF s1(1)] by blast
    have "phase_of (dl_status x) \<noteq> Dead"
      using False by (cases "dl_status x") auto
    then have "(life_step (max_delivery_attempts st))\<^sup>*\<^sup>* (ticket i (s_db s)) (ticket i (s_db s1))"
      using attempted_ticket [OF r(2) x audited_length [OF Cons.prems(2) x]] recorded_find [OF r(1), of i] recorded_attempts [OF r(1), of i] j
      by (cases "i = j") (auto simp: ticket_def)
    moreover have "platform_ok (s_db s1)"
      using attempt_step [OF s1(1) _ Cons.prems(2)] x j by simp
    ultimately show ?thesis
      using Cons.IH [OF s1(2)] by (meson rtranclp_trans)
  qed
qed simp

lemma force_ticket:
  assumes "fast_forward_to_dead_letter fdec st env e ev ios (Some d) s = (s', r)" "platform_ok d"
  shows "(life_step (max_delivery_attempts st))\<^sup>*\<^sup>* (ticket i d) (ticket i (s_db s'))"
  using assms loop_ticket [of fdec st env _ _ "s\<lparr>s_db := d\<rparr>"]
  by (fastforce simp: fast_forward_to_dead_letter_def split: sum.splits option.splits prod.splits)

lemma redrive_ticket:
  "redrive_delivery j p now d1 d = (r, d') \<Longrightarrow> (life_step limit)\<^sup>*\<^sup>* (ticket i d) (ticket i d')"
  "redrive h sel now d1 d = (dr, d') \<Longrightarrow> (life_step limit)\<^sup>*\<^sup>* (ticket i d) (ticket i d')"
proof -
  have put: "(life_step limit)\<^sup>*\<^sup>* (ticket i d) (ticket i (put_delivery (redrive_write seen now x) d))" if "find_delivery k d = Some x" for k x seen
    using find_delivery_mem [OF that] that
    by (cases "i = k") (auto simp: ticket_def find_delivery_put redrive_write_fields attempts_of_def intro!: r_into_rtranclp life_step.redriven)
  show "redrive_delivery j p now d1 d = (r, d') \<Longrightarrow> (life_step limit)\<^sup>*\<^sup>* (ticket i d) (ticket i d')"
    unfolding redrive_delivery_def Let_def by (auto intro: put split: sum.splits option.splits if_splits)
  show "redrive h sel now d1 d = (dr, d') \<Longrightarrow> (life_step limit)\<^sup>*\<^sup>* (ticket i d) (ticket i d')"
    unfolding redrive_def Let_def by (auto intro: put split: option.splits if_splits)
qed

lemma remove_ticket:
  assumes "delete_endpoint e p d = (u, d')" "platform_ok d"
  shows "(life_step limit)\<^sup>*\<^sup>* (ticket i d) (ticket i d')"
proof (cases "d' = d")
  case False
  then have d': "d' = cascade_endpoint e d"
    using assms(1) by (auto simp: delete_endpoint_def split: sum.splits)
  then have rows: "set (deliveries d') \<subseteq> set (deliveries d)"
    by (auto simp: cascade_endpoint_def Let_def)
  have ids: "distinct (map dl_id (deliveries d))"
    using assms(2) by (simp add: platform_ok_def)
  show ?thesis
  proof (cases "find_delivery i d'")
    case None
    then show ?thesis
      by (cases "find_delivery i d") (auto simp: ticket_def intro: life_step.removed)
  next
    case (Some x)
    then have "x \<in> set (deliveries d')" "dl_id x = i"
      using find_delivery_mem by blast+
    then have "ticket i d' = ticket i d"
      using Some find_delivery_row [OF ids, of x] cascade_attempts [OF ids, of x e] rows d' by (auto simp: ticket_def)
    then show ?thesis
      by simp
  qed
qed simp

lemma publish_ticket:
  assumes "ingest_event jsonb io p ty pl key d1 d = (r, d', b)" "platform_ok d"
  shows "(life_step limit)\<^sup>*\<^sup>* (ticket i d) (ticket i d')"
proof (cases "d' = d")
  case False
  let ?ev = "new_event jsonb io p ty pl key" and ?dls = "map (new_delivery io) (fan_out_targets p ty d1)"
  obtain rc where d': "d' = insert_event ?ev ?dls rc d"
    using ingest_db [OF assms(1)] False by blast
  then have log: "attempts_of i d' = attempts_of i d"
    by (simp add: insert_event_def attempts_of_def)
  have ids: "distinct (map dl_id (deliveries d'))"
    using publish_step [OF assms] by (simp add: platform_ok_def)
  show ?thesis
  proof (cases "find_delivery i d")
    case (Some x)
    then have "find_delivery i d' = Some x"
      using find_delivery_mem [OF Some] find_delivery_row [OF ids, of x] d' by (auto simp: insert_event_def)
    then show ?thesis
      using Some log by (simp add: ticket_def)
  next
    case None
    then have none: "i \<notin> dl_id ` set (deliveries d)"
      by (auto simp: find_delivery_def find_pk_None)
    then have "attempts_of i d = []"
      using assms(2) unfolding platform_ok_def attempts_owned_def attempts_of_def filter_empty_conv by blast
    moreover have "dl_status x = Pending" if "find_delivery i d' = Some x" for x
    proof -
      have "x \<in> set ?dls"
        using find_delivery_mem [OF that] none d' by (auto simp: insert_event_def)
      then show ?thesis
        by (auto simp: new_delivery_def)
    qed
    ultimately show ?thesis
      using None log by (cases "find_delivery i d'") (auto simp: ticket_def intro: life_step.published)
  qed
qed simp

lemmas quiet_steps = account_steps endpoint_steps showcase_steps receiver_steps

lemma quiet_ticket: "same_pipeline d d' \<Longrightarrow> (life_step limit)\<^sup>*\<^sup>* (ticket i d) (ticket i d')"
  by (simp add: same_pipeline_ticket)

lemma platform_ticket:
  assumes "platform_step fenc fdec st env jsonb d d'" "platform_ok d"
  shows "(life_step (max_delivery_attempts st))\<^sup>*\<^sup>* (ticket i d) (ticket i d')"
  using assms
proof (induction rule: platform_step.induct)
  case tick
  then show ?case
    using tick_ticket by blast
next
  case publish
  then show ?case
    using publish_ticket by blast
next
  case remove
  then show ?case
    using remove_ticket by blast
next
  case force
  then show ?case
    using force_ticket by blast
qed (auto intro: redrive_ticket quiet_ticket quiet_steps)

interpretation lives:
  refined_system fresh_platform "platform_step fenc fdec st env jsonb" platform_ok "ticket i" "life_step (max_delivery_attempts st)"
  for fenc fdec st env jsonb i
  by unfold_locales (rule platform_ticket)

section \<open>Properties\<close>


text \<open>A run that registers an endpoint and publishes to it.\<close>

definition first_body :: endpoint_create where
  "first_body = \<lparr> ec_url = ep_url sample_endpoint, ec_event_types = [sample_type], ec_status = Active,
     ec_payload_format = Raw, ec_rate_limit_rps = None \<rparr>"

lemma endpoint_accepted:
  assumes "endpoint_create_ok body" "guard_url (ec_url body) = Inr ()" "length (ec_url body) \<le> 2048" "CHR 0x00 \<notin> set (ec_url body)"
    "list_all (\<lambda>t. 0 \<notin> set t) (ec_event_types body)" "i \<notin> ep_id ` set (endpoints d)" "p \<in> pj_id ` set (projects d)"
  shows "\<exists>r e. create_endpoint fenc st p body i rnd frnd now d = (Inr r, d\<lparr>endpoints := endpoints d @ [e]\<rparr>)
     \<and> ep_id e = i \<and> ep_project e = p \<and> ep_status e = ec_status body \<and> ep_event_types e = ec_event_types body
     \<and> ep_url e = ec_url body"
  using assms by (auto simp: create_endpoint_def endpoint_storable_def Let_def)

lemma first_endpoint:
  "\<exists>r e. create_endpoint sample_enc default_settings 1 first_body 2 [1] [] 5 first_db = (Inr r, first_db\<lparr>endpoints := [e]\<rparr>)
     \<and> ep_id e = 2 \<and> ep_project e = 1 \<and> ep_status e = Active \<and> ep_event_types e = [sample_type]"
proof -
  have "endpoint_create_ok first_body"
    by (simp add: endpoint_create_ok_def first_body_def event_types_ok_def event_type_ok_def rate_ok_def sample_type_def reserved_prefix_def
        is_space_point_def ucode_def)
  moreover have "guard_url (ec_url first_body) = Inr ()"
    using sample_public by (simp add: guard_url_def first_body_def)
  moreover have "length (dotted 93 184 216 34) \<le> 15" "CHR 0x00 \<notin> set (dotted 93 184 216 34)"
    by code_simp+
  then have "length (ec_url first_body) \<le> 2048" "CHR 0x00 \<notin> set (ec_url first_body)" "list_all (\<lambda>t. 0 \<notin> set t) (ec_event_types first_body)"
    by (simp_all add: first_body_def sample_endpoint_def sample_type_def ucode_def)
  moreover have rows: "endpoints first_db = []" "1 \<in> pj_id ` set (projects first_db)"
    by (simp_all add: first_db_def empty_db_def)
  moreover have "ec_status first_body = Active" "ec_event_types first_body = [sample_type]"
    by (simp_all add: first_body_def)
  ultimately show ?thesis
    using endpoint_accepted [of first_body 2 first_db 1 sample_enc default_settings "[1]" "[]" 5] by auto
qed


end
