(* ===== verification/Demo_Client.thy ===== *)
theory Demo_Client
  imports Lifecycle
begin

text \<open>
  The API client of the demo scripts (\<^verbatim>\<open>demo/_shared.py\<close>). A script is a function of the committed database: each of
  its requests is authenticated, handled and committed by the routes of the model, and what the script raises
  is an outcome. Printing and starting processes are left out. The second half says what a request does to
  the tables when the script's key is good and its new ids are new.
\<close>

section \<open>Scripts\<close>

datatype script_exc = Http_status_error int | Timeout_error | Assertion_error string | System_exit int | Raised py_exc

type_synonym 'a script = "db \<Rightarrow> (script_exc + 'a) \<times> db"

definition and_then :: "'a script \<Rightarrow> ('a \<Rightarrow> 'b script) \<Rightarrow> 'b script" where
  "and_then m f = (\<lambda>d. case m d of (Inl e, d') \<Rightarrow> (Inl e, d') | (Inr x, d') \<Rightarrow> f x d')"

definition done_with :: "'a \<Rightarrow> 'a script" where
  "done_with x = (\<lambda>d. (Inr x, d))"

definition ensure :: "bool \<Rightarrow> string \<Rightarrow> unit script" where
  "ensure b msg = (\<lambda>d. (if b then Inr () else Inl (Assertion_error msg), d))"

lemma script_simps [simp]:
  "and_then (done_with x) f = f x" "and_then (ensure True msg) f = f ()" "done_with x d = (Inr x, d)" "ensure True msg d = (Inr (), d)"
  by (simp_all add: and_then_def done_with_def ensure_def)

lemma and_then_Inr: "m d = (Inr x, d') \<Longrightarrow> and_then m f d = f x d'"
  by (simp add: and_then_def)

text \<open>The status a route's result is answered with, \<open>ok\<close> being that of its success.\<close>

definition status_code :: "int \<Rightarrow> py_exc + 'a \<Rightarrow> int" where
  "status_code ok r = (case r of Inr _ \<Rightarrow> ok | Inl (HTTPException c _) \<Rightarrow> c | Inl _ \<Rightarrow> 500)"

definition raise_for_status :: "py_exc + 'a \<Rightarrow> script_exc + 'a" where
  "raise_for_status r = (case r of Inr x \<Rightarrow> Inr x | Inl e \<Rightarrow> Inl (Http_status_error (status_code 200 r)))"

definition requested :: "(db \<Rightarrow> (py_exc + 'a) \<times> db) \<Rightarrow> 'a script" where
  "requested route = (\<lambda>d. case route d of (r, d') \<Rightarrow> (raise_for_status r, d'))"

text \<open>A route behind the bearer key: the key's use is committed first.\<close>

definition authorized ::
  "string \<Rightarrow> time \<Rightarrow> (uuid \<Rightarrow> db \<Rightarrow> (py_exc + 'a) \<times> db) \<Rightarrow> db \<Rightarrow> (py_exc + 'a) \<times> db" where
  "authorized key now route d =
     (case get_current_project (Some key) now d of
        (Inl e, d') \<Rightarrow> (Inl e, d') | (Inr pj, d') \<Rightarrow> route (pj_id pj) d')"

section \<open>The API client\<close>

record setup_io =
  su_time :: int
  su_project :: uuid
  su_key :: uuid
  su_random :: "nat list"
  su_now :: time
  su_key_now :: time

definition setup_name :: "setup_io \<Rightarrow> string \<Rightarrow> utext" where
  "setup_name io name_prefix = ucode (name_prefix @ ''-'' @ show_int (su_time io))"

definition signed_up :: "setup_io \<Rightarrow> utext \<Rightarrow> string \<Rightarrow> (uuid \<times> string) script" where
  "signed_up io name key_name =
     and_then (requested (create_project (su_project io) name (su_now io))) (\<lambda>p.
     and_then (requested (create_api_key (pjr_id p) (su_key io) (ucode key_name) (su_random io) (su_key_now io))) (\<lambda>k.
     done_with (pjr_id p, akc_key k)))"

definition setup_project :: "setup_io \<Rightarrow> string \<Rightarrow> (uuid \<times> string) script" where
  "setup_project io name_prefix = signed_up io (setup_name io name_prefix) ''demo''"

record endpoint_io =
  eo_id :: uuid
  eo_secret :: bytes
  eo_fernet :: "nat list"
  eo_auth_now :: time
  eo_now :: time

text \<open>The body names the URL and the types; the other fields take their defaults.\<close>

definition demo_create_endpoint ::
  "fernet_enc \<Rightarrow> settings \<Rightarrow> endpoint_io \<Rightarrow> string \<Rightarrow> string \<Rightarrow> utext list \<Rightarrow> (endpoint_response \<times> string) script" where
  "demo_create_endpoint fenc st io key url event_types =
     requested (authorized key (eo_auth_now io) (\<lambda>p.
       create_endpoint fenc st p
         \<lparr> ec_url = url, ec_event_types = event_types, ec_status = Active, ec_payload_format = Raw, ec_rate_limit_rps = None \<rparr>
         (eo_id io) (eo_secret io) (eo_fernet io) (eo_now io)))"

definition post_route ::
  "settings \<Rightarrow> (payload \<Rightarrow> payload) \<Rightarrow> ingest_io \<Rightarrow> time \<Rightarrow> string \<Rightarrow> utext \<Rightarrow> payload \<Rightarrow> string option
   \<Rightarrow> db \<Rightarrow> (py_exc + uuid \<times> int) \<times> db" where
  "post_route st jsonb io now key ty pl idem =
     authorized key now (\<lambda>p d. case publish_event st jsonb io p ty pl idem d d of (r, d', _) \<Rightarrow> (r, d'))"

definition post_event ::
  "settings \<Rightarrow> (payload \<Rightarrow> payload) \<Rightarrow> ingest_io \<Rightarrow> time \<Rightarrow> string \<Rightarrow> utext \<Rightarrow> payload \<Rightarrow> string option \<Rightarrow> (uuid \<times> int) script" where
  "post_event st jsonb io now key ty pl idem = requested (post_route st jsonb io now key ty pl idem)"

definition fetch_event :: "time \<Rightarrow> string \<Rightarrow> uuid \<Rightarrow> event_detail script" where
  "fetch_event now key i = requested (authorized key now (\<lambda>p d. (get_event i p d, d)))"

definition fetch_delivery :: "time \<Rightarrow> string \<Rightarrow> uuid \<Rightarrow> delivery_response script" where
  "fetch_delivery now key i = requested (authorized key now (\<lambda>p d. (get_delivery i p d, d)))"

definition list_attempts :: "time \<Rightarrow> string \<Rightarrow> uuid \<Rightarrow> attempt_response list script" where
  "list_attempts now key i = requested (authorized key now (\<lambda>p d. (list_delivery_attempts i p d, d)))"

definition do_redrive :: "time \<Rightarrow> time \<Rightarrow> string \<Rightarrow> uuid \<Rightarrow> delivery_response script" where
  "do_redrive auth_now now key i = requested (authorized key auth_now (\<lambda>p d. redrive_delivery i p now d d))"

text \<open>
  A poll before the deadline: when it reads, and what the rest of the platform commits before it.
\<close>

fun wait_for_any_status ::
  "(time \<times> (db \<Rightarrow> db)) list \<Rightarrow> string \<Rightarrow> uuid \<Rightarrow> delivery_status set \<Rightarrow> delivery_response script" where
  "wait_for_any_status [] key i targets d = (Inl Timeout_error, d)"
| "wait_for_any_status ((now, others) # polls) key i targets d =
     and_then (fetch_delivery now key i) (\<lambda>x.
       if dr_status x \<in> targets then done_with x else wait_for_any_status polls key i targets) (others d)"

definition wait_for_status :: "(time \<times> (db \<Rightarrow> db)) list \<Rightarrow> string \<Rightarrow> uuid \<Rightarrow> delivery_status \<Rightarrow> delivery_response script" where
  "wait_for_status polls key i target = wait_for_any_status polls key i {target}"

section \<open>What a request does\<close>

text \<open>The key is the only one of its hash, of a project that exists.\<close>

definition signed_in :: "string \<Rightarrow> uuid \<Rightarrow> db \<Rightarrow> bool" where
  "signed_in key p d \<longleftrightarrow> distinct (map ak_id (api_keys d)) \<and> (\<exists>pj. valid_key key pj d \<and> pj_id pj = p)"

text \<open>The tables a script's requests work on, but for the use of the key.\<close>

definition same_but_keys :: "db \<Rightarrow> db \<Rightarrow> bool" where
  "same_but_keys d d' \<longleftrightarrow> projects d' = projects d \<and> endpoints d' = endpoints d \<and> events d' = events d
     \<and> deliveries d' = deliveries d \<and> attempts d' = attempts d \<and> idem_records d' = idem_records d"

lemma signed_in_keeps: "signed_in key p d \<Longrightarrow> api_keys d' = api_keys d \<Longrightarrow> projects d' = projects d \<Longrightarrow> signed_in key p d'"
  by (simp add: signed_in_def valid_key_def keys_with_hash_def find_project_def)

definition after_use :: "string \<Rightarrow> time \<Rightarrow> db \<Rightarrow> db" where
  "after_use key now d = snd (get_current_project (Some key) now d)"

lemma authorized_signed_in:
  assumes "signed_in key p d"
  shows "authorized key now route d = route p (after_use key now d)"
    and "signed_in key p (after_use key now d)" and "same_but_keys d (after_use key now d)"
proof -
  obtain pj k where k: "keys_with_hash (hash_api_key key) d = [k]" "ak_revoked_at k = None" "find_project (ak_project k) d = Some pj" "pj_id pj = p"
    and ids: "distinct (map ak_id (api_keys d))"
    using assms by (auto simp: signed_in_def valid_key_def)
  let ?k = "k\<lparr>ak_last_used_at := Some now, ak_updated_at := now\<rparr>"
  have mem: "k \<in> set (api_keys d)" "ak_key_hash k = hash_api_key key"
    using k(1) by (auto simp: keys_with_hash_def dest: filter_eq_ConsD)
  have got: "get_current_project (Some key) now d = (Inr pj, put_api_key ?k d)"
    using k by (simp add: get_current_project_def Let_def)
  then show "authorized key now route d = route p (after_use key now d)"
    using k(4) by (simp add: authorized_def after_use_def)
  have "find_api_key (ak_id ?k) d = Some k"
    using find_pk_unique [OF ids mem(1)] by (simp add: find_api_key_def)
  then have "keys_with_hash (hash_api_key key) (put_api_key ?k d) = [?k]"
    using keys_with_hash_put [of ?k d k] ids k(1) by simp
  then have "signed_in key p (put_api_key ?k d)"
    using k ids by (auto simp: signed_in_def valid_key_def) (simp add: put_api_key_def map_pk_put_pk)
  then show "signed_in key p (after_use key now d)"
    by (simp add: after_use_def got)
  show "same_but_keys d (after_use key now d)"
    by (simp add: after_use_def got same_but_keys_def) (simp add: put_api_key_def)
qed

lemma ucode_no_nul: "CHR 0x00 \<notin> set s \<Longrightarrow> 0 \<notin> set (ucode s)"
proof -
  have "c = CHR 0x00" if "of_char c = (0 :: nat)" for c
    using that injD [OF inj_of_char, where 'a1 = nat, of c "CHR 0x00"] by simp
  then show "CHR 0x00 \<notin> set s \<Longrightarrow> 0 \<notin> set (ucode s)"
    by (force simp: ucode_def)
qed

lemma setup_signs_in:
  assumes "name_ok nm" "0 \<notin> set nm" "su_project io \<notin> pj_id ` set (projects d)"
    and "nm \<notin> pj_name ` set (projects d)" "su_key io \<notin> ak_id ` set (api_keys d)"
    and "snd (snd (generate_api_key (su_random io))) \<notin> ak_key_hash ` set (api_keys d)" "distinct (map ak_id (api_keys d))"
    and "key_name \<noteq> []" "length key_name \<le> 255" "CHR 0x00 \<notin> set key_name"
  obtains key d1 where "signed_up io nm key_name d = (Inr (su_project io, key), d1)" "signed_in key (su_project io) d1"
    and "su_project io \<in> pj_id ` set (projects d1)"
    and "endpoints d1 = endpoints d" "events d1 = events d" "deliveries d1 = deliveries d" "attempts d1 = attempts d" "idem_records d1 = idem_records d"
proof -
  obtain plaintext prefix h where g: "generate_api_key (su_random io) = (plaintext, prefix, h)"
    by (cases "generate_api_key (su_random io)")
  then have h: "h = hash_api_key plaintext"
    by (rule generate_api_key_shape)
  let ?p = "\<lparr> pj_id = su_project io, pj_name = nm, pj_created_at = su_now io, pj_updated_at = su_now io \<rparr>"
  let ?k = "\<lparr> ak_id = su_key io, ak_project = su_project io, ak_name = Some (ucode key_name), ak_key_prefix = prefix,
      ak_key_hash = h, ak_last_used_at = None, ak_revoked_at = None, ak_created_at = su_key_now io, ak_updated_at = su_key_now io \<rparr>"
  let ?d1 = "d\<lparr>projects := projects d @ [?p]\<rparr>"
  let ?d2 = "?d1\<lparr>api_keys := api_keys d @ [?k]\<rparr>"
  have p: "create_project (su_project io) nm (su_now io) d = (Inr (project_view ?p), ?d1)"
    using assms(1-4) by (simp add: create_project_def Let_def)
  have found: "find_project (su_project io) ?d1 = Some ?p"
    using assms(3) by (simp add: find_project_def find_pk_append find_pk_None [THEN iffD2])
  have "name_ok (ucode key_name)" "0 \<notin> set (ucode key_name)"
    using assms(8-10) ucode_no_nul by (simp_all add: name_ok_def) (simp_all add: ucode_def Suc_le_eq)
  then have k: "\<exists>r. create_api_key (su_project io) (su_key io) (ucode key_name) (su_random io) (su_key_now io) ?d1 = (Inr r, ?d2) \<and> akc_key r = plaintext"
    using found assms(5,6) g by (simp add: create_api_key_def get_project_or_404_def Let_def)
  have "keys_with_hash (hash_api_key plaintext) ?d2 = [?k]"
    using assms(6) g h by (auto simp: keys_with_hash_def filter_empty_conv intro: rev_image_eqI)
  moreover have "find_project (su_project io) ?d2 = Some ?p"
    using found by (simp add: find_project_def)
  ultimately have "signed_in plaintext (su_project io) ?d2"
    using assms(5,7) by (auto simp: signed_in_def valid_key_def)
  moreover have "signed_up io nm key_name d = (Inr (su_project io, plaintext), ?d2)"
    using p k by (auto simp: signed_up_def and_then_def requested_def raise_for_status_def project_view_def done_with_def)
  ultimately show thesis
    by (intro that [of plaintext ?d2]) simp_all
qed

lemma endpoint_registered:
  assumes "signed_in key p d" "eo_id io \<notin> ep_id ` set (endpoints d)" "p \<in> pj_id ` set (projects d)"
    and "guard_url url = Inr ()" "length url \<le> 2048" "CHR 0x00 \<notin> set url" "event_type_ok ty" "0 \<notin> set ty"
  obtains r e d' where "demo_create_endpoint fenc st io key url [ty] d = (Inr r, d')"
    and "signed_in key p d'" "same_but_keys (d\<lparr>endpoints := endpoints d @ [e]\<rparr>) d'"
    and "ep_id e = eo_id io" "ep_project e = p" "ep_status e = Active" "ep_event_types e = [ty]" "ep_url e = url"
proof -
  note use = authorized_signed_in [OF assms(1), of "eo_auth_now io"]
  let ?d1 = "after_use key (eo_auth_now io) d"
  let ?b = "\<lparr> ec_url = url, ec_event_types = [ty], ec_status = Active, ec_payload_format = Raw, ec_rate_limit_rps = None \<rparr>"
  have "endpoint_create_ok ?b"
    using assms(7) by (simp add: endpoint_create_ok_def rate_ok_def event_types_ok_def)
  then obtain r e where e: "create_endpoint fenc st p ?b (eo_id io) (eo_secret io) (eo_fernet io) (eo_now io) ?d1
      = (Inr r, ?d1\<lparr>endpoints := endpoints ?d1 @ [e]\<rparr>)"
      "ep_id e = eo_id io" "ep_project e = p" "ep_status e = Active" "ep_event_types e = [ty]" "ep_url e = url"
    using endpoint_accepted [of ?b "eo_id io" ?d1 p fenc st "eo_secret io" "eo_fernet io" "eo_now io"] assms(2-8) use(3)
    by (auto simp: same_but_keys_def)
  show thesis
  proof (rule that)
    show "demo_create_endpoint fenc st io key url [ty] d = (Inr r, ?d1\<lparr>endpoints := endpoints ?d1 @ [e]\<rparr>)"
      using e(1) by (simp add: use(1) demo_create_endpoint_def requested_def raise_for_status_def)
    show "signed_in key p (?d1\<lparr>endpoints := endpoints ?d1 @ [e]\<rparr>)"
      using signed_in_keeps [OF use(2)] by simp
    show "same_but_keys (d\<lparr>endpoints := endpoints d @ [e]\<rparr>) (?d1\<lparr>endpoints := endpoints ?d1 @ [e]\<rparr>)"
      using use(3) by (simp add: same_but_keys_def)
  qed (use e in simp_all)
qed

text \<open>A publish that is not a replay, on a platform where one endpoint takes the type.\<close>

definition stored ::
  "(payload \<Rightarrow> payload) \<Rightarrow> ingest_io \<Rightarrow> uuid \<Rightarrow> utext \<Rightarrow> payload \<Rightarrow> string option \<Rightarrow> endpoint \<Rightarrow> db \<Rightarrow> db" where
  "stored jsonb io p ty pl idem e d =
     insert_event (new_event jsonb io p ty pl idem) [new_delivery io e]
       (map_option (\<lambda>k. new_record io p k 1 (body_hash ty pl)) idem) d"

lemma stored_tables:
  "endpoints (stored jsonb io p ty pl idem e d) = endpoints d" "projects (stored jsonb io p ty pl idem e d) = projects d"
  "api_keys (stored jsonb io p ty pl idem e d) = api_keys d"
  "events (stored jsonb io p ty pl idem e d) = events d @ [new_event jsonb io p ty pl idem]"
  "deliveries (stored jsonb io p ty pl idem e d) = deliveries d @ [new_delivery io e]"
  by (simp_all add: stored_def insert_event_def)

lemma event_posted:
  assumes "signed_in key p d" "fan_out_targets p ty d = [e]" "p \<in> pj_id ` set (projects d)"
    and "in_event_id io \<notin> ev_id ` set (events d)" "in_delivery_id io (ep_id e) \<notin> dl_id ` set (deliveries d)"
    and "\<And>k. idem = Some k \<Longrightarrow> find_idem p k d = None \<and> in_record_id io \<notin> ir_id ` set (idem_records d)"
    and "event_create_ok st ty pl" "event_storable ty pl idem"
  obtains d' where "post_event st jsonb io now key ty pl idem d = (Inr (in_event_id io, 1), d')"
    and "signed_in key p d'" "same_but_keys (stored jsonb io p ty pl idem e d) d'"
proof -
  note use = authorized_signed_in [OF assms(1), of now]
  let ?d1 = "after_use key now d"
  let ?ev = "new_event jsonb io p ty pl idem"
  let ?rc = "map_option (\<lambda>k. new_record io p k 1 (body_hash ty pl)) idem"
  have look: "fan_out_targets p ty ?d1 = [e]" "find_idem p k ?d1 = find_idem p k d" for k
    using assms(2) use(3) by (simp_all add: fan_out_targets_def find_idem_def same_but_keys_def)
  have "e \<in> set (endpoints ?d1)"
    using look(1) by (auto simp: fan_out_targets_def dest: filter_eq_ConsD)
  then have "insert_ok ?ev [new_delivery io e] ?rc ?d1"
    using assms(3-6) look(2) use(3)
    by (cases idem) (simp_all add: insert_ok_def same_but_keys_def, simp_all add: new_event_def new_delivery_def new_record_def)
  then have "publish_event st jsonb io p ty pl idem ?d1 ?d1 = (Inr (in_event_id io, 1), stored jsonb io p ty pl idem e ?d1, True)"
    using look assms(6-8) by (cases idem) (simp_all add: publish_event_def ingest_event_def stored_def Let_def)
  moreover have "signed_in key p (stored jsonb io p ty pl idem e ?d1)"
    by (rule signed_in_keeps [OF use(2)]) (simp_all add: stored_tables)
  moreover have "same_but_keys (stored jsonb io p ty pl idem e d) (stored jsonb io p ty pl idem e ?d1)"
    using use(3) by (simp add: same_but_keys_def stored_def insert_event_def)
  ultimately show thesis
    using that by (simp add: use(1) post_event_def post_route_def requested_def raise_for_status_def)
qed

text \<open>The detail of a stored event shows its one delivery.\<close>

lemma stored_detail:
  assumes "in_event_id io \<notin> ev_id ` set (events d)" "dl_event ` set (deliveries d) \<subseteq> ev_id ` set (events d)"
    and "same_but_keys (stored jsonb io p ty pl idem e d) d'"
  obtains detail where "get_event (in_event_id io) p d' = Inr detail" "ed_deliveries detail = [delivery_view (new_delivery io e)]"
proof -
  let ?ev = "new_event jsonb io p ty pl idem"
  have rows: "events d' = events d @ [?ev]" "deliveries d' = deliveries d @ [new_delivery io e]"
    using assms(3) by (simp_all add: same_but_keys_def stored_tables)
  have "find_event (in_event_id io) d' = Some ?ev"
    using assms(1) by (simp add: find_event_def rows find_pk_append find_pk_None [THEN iffD2]) (simp add: new_event_def)
  moreover have "filter (\<lambda>x. dl_event x = in_event_id io) (deliveries d) = []"
    using assms(1,2) unfolding filter_empty_conv by (metis imageI subsetD)
  moreover have "ev_id ?ev = in_event_id io" "ev_project ?ev = p" "dl_event (new_delivery io e) = in_event_id io"
    by (simp_all add: new_event_def new_delivery_def)
  ultimately show thesis
    by (intro that [of "event_detail_view d' ?ev"]) (simp_all add: get_event_def event_detail_view_def event_deliveries_def rows)
qed

lemma detail_fetched:
  assumes "in_event_id io \<notin> ev_id ` set (events d)" "dl_event ` set (deliveries d) \<subseteq> ev_id ` set (events d)"
    and "same_but_keys (stored jsonb io p ty pl idem e d) d'" "signed_in key p d'"
  obtains detail where "fetch_event now key (in_event_id io) d' = (Inr detail, after_use key now d')"
    and "ed_deliveries detail = [delivery_view (new_delivery io e)]"
proof -
  note use = authorized_signed_in [OF assms(4), of now]
  have "same_but_keys (stored jsonb io p ty pl idem e d) (after_use key now d')"
    using assms(3) use(3) by (simp add: same_but_keys_def)
  then obtain detail where "get_event (in_event_id io) p (after_use key now d') = Inr detail"
      "ed_deliveries detail = [delivery_view (new_delivery io e)]"
    by (rule stored_detail [OF assms(1,2)])
  then show thesis
    by (intro that [of detail]) (simp_all add: fetch_event_def requested_def use(1) raise_for_status_def)
qed

text \<open>The requests of a script are steps of the platform.\<close>

lemma post_keeps_ok:
  assumes "post_event st jsonb io now key ty pl idem d = (r, d')" "platform_ok d"
  shows "platform_ok d'"
proof (cases "get_current_project (Some key) now d")
  case (Pair a d1)
  have ok: "platform_ok d1"
    using same_pipeline_ok [OF account_steps(4) [OF Pair] assms(2)] .
  show ?thesis
    using assms(1) Pair ok publish_step [OF _ ok]
    by (fastforce simp: post_event_def post_route_def requested_def authorized_def publish_event_def split: sum.splits prod.splits if_splits)
qed

text \<open>A request under a key that is on record.\<close>

lemma post_recorded:
  assumes "signed_in key p d" "find_idem p idem d = Some r" "event_create_ok st ty pl"
  obtains d' where "post_route st jsonb io now key ty pl (Some idem) d = (replay r (body_hash ty pl), d')"
    and "signed_in key p d'" "same_but_keys d d'"
proof -
  note use = authorized_signed_in [OF assms(1), of now]
  let ?d1 = "after_use key now d"
  have "find_idem p idem ?d1 = Some r"
    using assms(2) use(3) by (simp add: find_idem_def same_but_keys_def)
  then show thesis
    using that [OF _ use(2,3)] assms(3) ingest_existing by (simp add: use(1) post_route_def publish_event_def)
qed

lemma setup_name_ok:
  assumes "0 \<le> su_time io" "su_time io < 10 ^ 20" "length pre \<le> 200" "CHR 0x00 \<notin> set pre"
  shows "name_ok (setup_name io pre)" "0 \<notin> set (setup_name io pre)"
proof -
  have "nat (su_time io) < 10 ^ Suc 19"
    using assms by simp
  then have "length (show_nat (nat (su_time io))) \<le> Suc 19"
    by (rule length_show_nat)
  then show "name_ok (setup_name io pre)"
    using assms(1,3) by (simp add: name_ok_def setup_name_def ucode_def show_int_def)
  have "c \<noteq> CHR 0x00" if "c \<in> set (show_int i)" for c i
    using show_int_chars [OF that] by (auto simp: is_digit_def code_def)
  then have "CHR 0x00 \<notin> set (pre @ ''-'' @ show_int (su_time io))"
    using assms(4) by auto
  then show "0 \<notin> set (setup_name io pre)"
    unfolding setup_name_def by (rule ucode_no_nul)
qed

section \<open>A client with a project, a key and one endpoint\<close>

definition room_for_client :: "setup_io \<Rightarrow> utext \<Rightarrow> endpoint_io \<Rightarrow> db \<Rightarrow> bool" where
  "room_for_client su nm eo d \<longleftrightarrow>
     nm \<notin> pj_name ` set (projects d) \<and> su_project su \<notin> pj_id ` set (projects d) \<and> su_key su \<notin> ak_id ` set (api_keys d)
     \<and> snd (snd (generate_api_key (su_random su))) \<notin> ak_key_hash ` set (api_keys d) \<and> eo_id eo \<notin> ep_id ` set (endpoints d)"

text \<open>Its project is new, so its endpoint is the only one that takes its events.\<close>

lemma client_ready:
  assumes "keys_ok d" "fks_ok d" "room_for_client su nm eo d" "name_ok nm" "0 \<notin> set nm"
    and "key_name \<noteq> []" "length key_name \<le> 255" "CHR 0x00 \<notin> set key_name"
    and "guard_url url = Inr ()" "length url \<le> 2048" "CHR 0x00 \<notin> set url" "event_type_ok ty" "0 \<notin> set ty"
  obtains key d1 r d2 e where "signed_up su nm key_name d = (Inr (su_project su, key), d1)"
    and "demo_create_endpoint fenc st eo key url [ty] d1 = (Inr r, d2)" "signed_in key (su_project su) d2"
    and "fan_out_targets (su_project su) ty d2 = [e]" "ep_id e = eo_id eo" "su_project su \<in> pj_id ` set (projects d2)"
    and "su_project su \<notin> ir_project ` set (idem_records d2)"
    and "events d2 = events d" "deliveries d2 = deliveries d" "attempts d2 = attempts d" "idem_records d2 = idem_records d"
    and "find_endpoint (eo_id eo) d2 = Some e" "ep_project e = su_project su" "ep_url e = url"
proof -
  let ?p = "su_project su"
  note room = assms(3) [unfolded room_for_client_def]
  have "distinct (map ak_id (api_keys d))"
    using assms(1) by (simp add: keys_ok_def api_key_table.keys_ok_def)
  then obtain key d1 where one: "signed_up su nm key_name d = (Inr (?p, key), d1)" "signed_in key ?p d1" "?p \<in> pj_id ` set (projects d1)"
    and same: "endpoints d1 = endpoints d" "events d1 = events d" "deliveries d1 = deliveries d" "attempts d1 = attempts d" "idem_records d1 = idem_records d"
    using setup_signs_in [OF assms(4,5)] room assms(6-8) by metis
  have "eo_id eo \<notin> ep_id ` set (endpoints d1)"
    using room same(1) by simp
  then obtain r e d2 where two: "demo_create_endpoint fenc st eo key url [ty] d1 = (Inr r, d2)" "signed_in key ?p d2"
      "same_but_keys (d1\<lparr>endpoints := endpoints d1 @ [e]\<rparr>) d2"
    and e: "ep_id e = eo_id eo" "ep_project e = ?p" "ep_status e = Active" "ep_event_types e = [ty]" "ep_url e = url"
    by (rule endpoint_registered [OF one(2) _ one(3) assms(9-13)])
  have unused: "?p \<notin> ep_project ` set (endpoints d)" "?p \<notin> ir_project ` set (idem_records d)"
  proof -
    have "?p \<notin> pj_id ` set (projects d)"
      using room by simp
    moreover have "ep_project ` set (endpoints d) \<subseteq> pj_id ` set (projects d)" "ir_project ` set (idem_records d) \<subseteq> pj_id ` set (projects d)"
      using assms(2) by (simp_all add: fks_ok_def)
    ultimately show "?p \<notin> ep_project ` set (endpoints d)" "?p \<notin> ir_project ` set (idem_records d)"
      by (meson subsetD)+
  qed
  then have "fan_out_targets ?p ty d = []"
    unfolding fan_out_targets_def filter_empty_conv by (metis imageI)
  then have "fan_out_targets ?p ty d2 = [e]"
    using two(3) same(1) e by (simp add: fan_out_targets_def same_but_keys_def)
  moreover have "find_endpoint (eo_id eo) d2 = Some e"
    using two(3) same(1) room e(1) by (simp add: same_but_keys_def find_endpoint_def find_pk_append find_pk_None [THEN iffD2])
  ultimately show thesis
    using that [OF one(1) two(1,2)] e(1,2,5) two(3) one(3) same unused(2) by (simp add: same_but_keys_def)
qed

end
