(* ===== verification/Receivers.thy ===== *)
theory Receivers
  imports Showcase_Routes Fast_Forward
begin

text \<open>
  The stand-alone receivers of \<^verbatim>\<open>tools\<close>: the demo receiver integrators copy and the configurable
  one of the demo scenarios. A request is its signature header, its body and what \<^verbatim>\<open>json.loads\<close> makes
  of it, and the clock; an answer is a status and a JSON document. Latency is left out. The
  properties run the delivery worker against them.
\<close>

section \<open>Requests and log lines\<close>

record tool_request =
  tq_signature :: "string option"
  tq_body :: bytes
  tq_doc :: loads_result
  tq_clock :: rat

text \<open>
  The event type both receivers log, each under its own key. Text that is not JSON and documents
  without \<^verbatim>\<open>get\<close> are tolerated, bytes that are not UTF-8 are not.
\<close>

definition logged_type :: "(json \<Rightarrow> utext) \<Rightarrow> string \<Rightarrow> loads_result \<Rightarrow> py_exc + utext" where
  "logged_type rp key doc =
     (case doc of
        Undecodable \<Rightarrow> Inl UnicodeDecodeError
      | Doc (JObj kvs) \<Rightarrow> Inr (py_str rp (case get_item kvs key of None \<Rightarrow> JStr (ucode ''unknown'') | Some v \<Rightarrow> v))
      | _ \<Rightarrow> Inr (ucode ''unknown''))"

lemma logged_type_ok: "doc \<noteq> Undecodable \<Longrightarrow> \<exists>ty. logged_type rp key doc = Inr ty"
  by (cases doc) (auto simp: logged_type_def split: json.split)

section \<open>The demo receiver\<close>

fun timestamp_age :: "string list \<Rightarrow> rat \<Rightarrow> py_exc + string" where
  "timestamp_age [] now = Inr []"
| "timestamp_age (part # parts) now =
     (if starts_with ''t='' part then
        (case parse_int (drop 2 part) of
           None \<Rightarrow> Inr []
         | Some ts \<Rightarrow>
             if float_overflows ts then Inl OverflowError
             else Inr ('' age='' @ show_int (round_half_even (now - of_int ts)) @ ''s''))
      else timestamp_age parts now)"

definition parse_timestamp_age :: "string \<Rightarrow> rat \<Rightarrow> py_exc + string" where
  "parse_timestamp_age signature_header now = timestamp_age (split_on CHR '','' signature_header) now"

definition demo_receive_webhook :: "(json \<Rightarrow> utext) \<Rightarrow> string \<Rightarrow> tool_request \<Rightarrow> py_exc + int \<times> payload" where
  "demo_receive_webhook rp secret rq =
     bind_exc (demo_verify_signature secret (tq_signature rq) (tq_body rq) (tq_clock rq)) (\<lambda>(valid, reason).
     bind_exc (logged_type rp ''event_type'' (tq_doc rq)) (\<lambda>event_type.
     bind_exc (if truthy (tq_signature rq) then parse_timestamp_age (the (tq_signature rq)) (tq_clock rq) else Inr []) (\<lambda>age_info.
       Inr (if \<not> valid then (401, [(ucode ''error'', JStr (ucode reason))])
            else (200, [(ucode ''status'', JStr (ucode ''accepted''))])))))"

section \<open>The configurable receiver\<close>

definition tool_age_message :: "rat \<Rightarrow> string" where
  "tool_age_message age = ''timestamp too old: age='' @ show_int (round_half_even age) @ ''s''"

definition tool_verify_signature ::
  "string \<Rightarrow> string option \<Rightarrow> bytes \<Rightarrow> rat \<Rightarrow> py_exc + bool \<times> string" where
  "tool_verify_signature secret signature_header body now =
     (if \<not> truthy signature_header then Inr (False, ''missing signature header'')
      else let parts = header_parts (the signature_header);
               timestamp_str = parts ''t''; received_sig = parts ''v1''
        in if \<not> truthy timestamp_str \<or> \<not> truthy received_sig
           then Inr (False, ''malformed signature header'')
           else case parse_int (the timestamp_str) of
               None \<Rightarrow> Inr (False, ''invalid timestamp in header'')
             | Some timestamp \<Rightarrow>
                 if float_overflows timestamp then Inl OverflowError
                 else if of_int max_age_seconds < \<bar>now - of_int timestamp\<bar>
                 then Inr (False, tool_age_message (now - of_int timestamp))
                 else let canonical = encode (show_int timestamp @ ''.'') @ body;
                          expected = hmac_hexdigest (encode secret) canonical
                   in bind_exc (compare_digest expected (the received_sig))
                        (\<lambda>eq. if \<not> eq then Inr (False, ''signature mismatch'') else Inr (True, ''ok'')))"

record receiver_config =
  rv_status :: int
  rv_fail_count :: int
  rv_verify :: bool
  rv_secret :: string

text \<open>The count of the requests that were let in is the app's only state; a refused one is not counted.\<close>

definition receive_webhook ::
  "(json \<Rightarrow> utext) \<Rightarrow> receiver_config \<Rightarrow> tool_request \<Rightarrow> nat \<Rightarrow> (py_exc + int \<times> payload) \<times> nat" where
  "receive_webhook rp cf rq n =
     (case (if rv_verify cf \<and> rv_secret cf \<noteq> []
            then tool_verify_signature (rv_secret cf) (tq_signature rq) (tq_body rq) (tq_clock rq) else Inr (True, ''ok'')) of
        Inl e \<Rightarrow> (Inl e, n)
      | Inr (ok, reason) \<Rightarrow>
          if \<not> ok then (Inr (401, [(ucode ''error'', JStr (ucode reason))]), n)
          else let n' = n + 1;
                   response_status = (if 0 < rv_fail_count cf \<and> int n' \<le> rv_fail_count cf then 500 else rv_status cf)
            in (bind_exc (logged_type rp ''type'' (tq_doc rq)) (\<lambda>event_type.
                  Inr (response_status,
                    [(ucode ''status'', JStr (ucode (if response_status < 400 then ''accepted'' else ''error'')))])), n'))"

text \<open>The server answers 500 for a handler that raises.\<close>

definition answer_status :: "py_exc + int \<times> payload \<Rightarrow> int" where
  "answer_status r = (case r of Inl e \<Rightarrow> 500 | Inr (c, doc) \<Rightarrow> c)"

section \<open>The third copy of the verifier\<close>

lemma tool_accepts_eq: "tool_verify_signature k h b now = Inr (True, why) \<longleftrightarrow> verify_signature k h b now = Inr (True, why)"
  by (auto simp: tool_verify_signature_def verify_signature_def sign_payload_def Let_def bind_exc_def age_message_def
      split: option.split sum.split)

interpretation tool: signature_scheme sign_payload build_signature_header tool_verify_signature header_parts
  using verify_built verify_sound by unfold_locales (simp_all only: tool_accepts_eq)

section \<open>The worker against the configurable receiver\<close>

definition arrives_at :: "(bytes \<Rightarrow> loads_result) \<Rightarrow> http_request \<Rightarrow> rat \<Rightarrow> tool_request" where
  "arrives_at loads rq clk =
   \<lparr> tq_signature = map_of (rq_headers rq) ''X-Webhook-Signature'', tq_body = rq_content rq,
     tq_doc = loads (rq_content rq), tq_clock = clk \<rparr>"

text \<open>An attempt whose outcome is what the receiver answers to the request the attempt sends.\<close>

definition answered_by :: "py_exc + int \<times> payload \<Rightarrow> utext \<Rightarrow> attempt_io \<Rightarrow> attempt_io" where
  "answered_by r txt io = io\<lparr>io_outcome := Http_response (answer_status r) txt\<rparr>"

record meeting =
  mt_io :: attempt_io
  mt_clock :: rat
  mt_text :: utext

text \<open>The delivery is attempted while it is pending, one request after the other.\<close>

fun meet_receiver ::
  "fernet_dec \<Rightarrow> settings \<Rightarrow> worker_env \<Rightarrow> (json \<Rightarrow> utext) \<Rightarrow> (bytes \<Rightarrow> loads_result) \<Rightarrow> receiver_config
    \<Rightarrow> endpoint \<Rightarrow> event \<Rightarrow> string \<Rightarrow> uuid \<Rightarrow> meeting list \<Rightarrow> sess \<times> nat \<Rightarrow> sess \<times> nat" where
  "meet_receiver fdec st env rp loads cf ep ev secret i [] (s, n) = (s, n)"
| "meet_receiver fdec st env rp loads cf ep ev secret i (m # ms) (s, n) =
     (case find_delivery i (s_db s) of
        None \<Rightarrow> (s, n)
      | Some x \<Rightarrow>
          if dl_status x \<noteq> Pending then (s, n)
          else (case receive_webhook rp cf (arrives_at loads (attempt_request st ep ev secret x (mt_io m)) (mt_clock m)) n of
              (r, n') \<Rightarrow>
                meet_receiver fdec st env rp loads cf ep ev secret i ms
                  (fst (process_delivery fdec st env x (answered_by r (mt_text m) (mt_io m)) None s), n')))"

definition meetings_ok :: "(bytes \<Rightarrow> loads_result) \<Rightarrow> endpoint \<Rightarrow> event \<Rightarrow> meeting list \<Rightarrow> bool" where
  "meetings_ok loads ep ev ms \<longleftrightarrow>
     list_all (\<lambda>m. \<bar>io_ts (mt_io m)\<bar> < 2 ^ 64 \<and> \<bar>mt_clock m - of_int (io_ts (mt_io m))\<bar> \<le> 300 \<and> 0 \<notin> set (mt_text m)
       \<and> loads (build_delivery_body (ep_payload_format ep) (ev_id ev) (ev_type ev) (ev_payload ev) (io_embed_now (mt_io m))) \<noteq> Undecodable) ms"

definition receiver_ok :: "receiver_config \<Rightarrow> string \<Rightarrow> bool" where
  "receiver_ok cf secret \<longleftrightarrow> 200 \<le> rv_status cf \<and> rv_status cf < 300 \<and> (rv_verify cf \<longrightarrow> rv_secret cf = secret)"

lemma receiver_answers:
  assumes "receiver_ok cf secret" "meetings_ok loads ep ev [m]"
  shows "\<exists>doc. receive_webhook rp cf (arrives_at loads (attempt_request st ep ev secret x (mt_io m)) (mt_clock m)) n
    = (Inr (if int (n + 1) \<le> rv_fail_count cf then 500 else rv_status cf, doc), n + 1)"
proof -
  let ?rq = "arrives_at loads (attempt_request st ep ev secret x (mt_io m)) (mt_clock m)"
  have "tool_verify_signature secret (tq_signature ?rq) (tq_body ?rq) (tq_clock ?rq) = Inr (True, ''ok'')"
    using assms(2) tool.accepts by (simp add: arrives_at_def request_signature meetings_ok_def)
  moreover have "tq_doc ?rq \<noteq> Undecodable"
    using assms(2) by (simp add: arrives_at_def meetings_ok_def attempt_request_def Let_def)
  then obtain ty where "logged_type rp ''type'' (tq_doc ?rq) = Inr ty"
    using logged_type_ok by blast
  ultimately show ?thesis
    using assms(1) by (auto simp: receive_webhook_def receiver_ok_def Let_def)
qed

text \<open>How many more requests it takes: the failures still to come and one more, but no more than the budget.\<close>

definition failures_left :: "receiver_config \<Rightarrow> nat \<Rightarrow> nat" where
  "failures_left cf n = nat (rv_fail_count cf) - n"

definition budget :: "settings \<Rightarrow> delivery \<Rightarrow> nat" where
  "budget st x = max 1 (nat (max_delivery_attempts st - dl_attempt_count x))"

lemma meet_step:
  assumes "sendable_to fdec st ep ev secret x (s_db s)" "dl_status x = Pending" "dl_attempt_count x < 1024"
    and "fresh_answers (map mt_io (m # ms)) (s_db s)" "meetings_ok loads ep ev (m # ms)" "receiver_ok cf secret"
  obtains s' x' where "meet_receiver fdec st env rp loads cf ep ev secret (dl_id x) (m # ms) (s, n)
        = meet_receiver fdec st env rp loads cf ep ev secret (dl_id x) ms (s', n + 1)"
    and "sendable_to fdec st ep ev secret x' (s_db s')" "fresh_answers (map mt_io ms) (s_db s')"
    and "dl_id x' = dl_id x" "dl_attempt_count x' = dl_attempt_count x + 1" "length (s_sent s') = length (s_sent s) + 1"
    and "dl_status x' = (if failures_left cf n = 0 then Succeeded else if budget st x = 1 then Dead_lettered else Pending)"
proof -
  let ?rq = "arrives_at loads (attempt_request st ep ev secret x (mt_io m)) (mt_clock m)"
  let ?c = "if int (n + 1) \<le> rv_fail_count cf then 500 else rv_status cf"
  have one: "meetings_ok loads ep ev [m]"
    using assms(5) by (simp add: meetings_ok_def)
  obtain doc where answer: "receive_webhook rp cf ?rq n = (Inr (?c, doc), n + 1)"
    using receiver_answers [OF assms(6) one] by blast
  let ?io = "answered_by (Inr (?c, doc)) (mt_text m) (mt_io m)"
  have "fresh_answers (?io # map mt_io ms) (s_db s)"
    using assms(4,5) by (simp add: fresh_answers_def answered_by_def answer_storable_def meetings_ok_def)
  then obtain s' x' where step: "process_delivery fdec st env x ?io None s = (s', Inr ())" "sendable_to fdec st ep ev secret x' (s_db s')"
      "fresh_answers (map mt_io ms) (s_db s')" "dl_id x' = dl_id x" "dl_attempt_count x' = dl_attempt_count x + 1"
      "length (s_sent s') = length (s_sent s) + 1"
    and status: "dl_status x' = (if http_succeeded (io_outcome ?io) then Succeeded
          else if max_delivery_attempts st \<le> dl_attempt_count x + 1 then Dead_lettered else Pending)"
    using process_sendable_to [OF assms(1) _ assms(3)] by (metis length_append_singleton Suc_eq_plus1)
  have "http_succeeded (io_outcome ?io) \<longleftrightarrow> failures_left cf n = 0"
    using assms(6) by (auto simp: http_succeeded_def answered_by_def answer_status_def failures_left_def receiver_ok_def)
  moreover have "max_delivery_attempts st \<le> dl_attempt_count x + 1 \<longleftrightarrow> budget st x = 1"
    by (auto simp: budget_def max_def)
  moreover have "find_delivery (dl_id x) (s_db s) = Some x"
    using assms(1) by (simp add: sendable_to_def)
  ultimately show thesis
    using that [of s' x'] step status answer assms(2) by simp
qed

text \<open>C25: A delivery is settled by a flaky receiver exactly as its counters say. A receiver that fails its first
  requests and then answers 2xx, verifying signatures under the endpoint's secret or not, sees as many
  requests as it takes: one more than the failures still to come, if the delivery's budget of attempts
  (one at least, also after a redrive) allows it, and then the delivery has succeeded; otherwise it
  sees the whole budget and the delivery is dead-lettered. The attempt count grows by the requests sent,
  and the receiver counts the same number.\<close>

theorem flaky_receiver_outcome:
  assumes "sendable_to fdec st ep ev secret x (s_db s)" "dl_status x = Pending" "receiver_ok cf secret"
    and "meetings_ok loads ep ev ms" "fresh_answers (map mt_io ms) (s_db s)" "budget st x \<le> length ms"
    and "max_delivery_attempts st \<le> 1024" "dl_attempt_count x < 1024"
  shows "\<exists>s' x'. let k = min (failures_left cf n + 1) (budget st x) in
    meet_receiver fdec st env rp loads cf ep ev secret (dl_id x) ms (s, n) = (s', n + k)
    \<and> length (s_sent s') = length (s_sent s) + k
    \<and> find_delivery (dl_id x) (s_db s') = Some x' \<and> dl_attempt_count x' = dl_attempt_count x + int k
    \<and> dl_status x' = (if failures_left cf n < budget st x then Succeeded else Dead_lettered)"
  using assms
proof (induction ms arbitrary: x s n)
  case Nil
  then show ?case
    by (simp add: budget_def)
next
  case (Cons m ms)
  obtain s' x' where step: "meet_receiver fdec st env rp loads cf ep ev secret (dl_id x) (m # ms) (s, n)
        = meet_receiver fdec st env rp loads cf ep ev secret (dl_id x) ms (s', n + 1)"
      "sendable_to fdec st ep ev secret x' (s_db s')" "fresh_answers (map mt_io ms) (s_db s')"
      "dl_id x' = dl_id x" "dl_attempt_count x' = dl_attempt_count x + 1" "length (s_sent s') = length (s_sent s) + 1"
    and status: "dl_status x' = (if failures_left cf n = 0 then Succeeded else if budget st x = 1 then Dead_lettered else Pending)"
    by (rule meet_step [OF Cons.prems(1,2,8,5,4,3)])
  have row: "find_delivery (dl_id x) (s_db s') = Some x'"
    using step(2,4) by (simp add: sendable_to_def)
  show ?case
  proof (cases "dl_status x' = Pending")
    case False
    have "meet_receiver fdec st env rp loads cf ep ev secret (dl_id x) ms (s', n + 1) = (s', n + 1)"
      using row False by (cases ms) simp_all
    moreover have "min (failures_left cf n + 1) (budget st x) = 1" "(failures_left cf n < budget st x) = (failures_left cf n = 0)"
      using status False by (auto simp: budget_def min_def split: if_splits)
    ultimately show ?thesis
      using step row status False by (auto simp: Let_def split: if_splits)
  next
    case True
    then have left: "failures_left cf n = Suc (failures_left cf (n + 1))" "budget st x = Suc (budget st x')"
      using status step(5) by (auto simp: failures_left_def budget_def max_def split: if_splits)
    have "dl_attempt_count x' < 1024"
      using left(2) step(5) Cons.prems(7) by (auto simp: budget_def max_def split: if_splits)
    moreover have "meetings_ok loads ep ev ms"
      using Cons.prems(4) by (simp add: meetings_ok_def)
    ultimately show ?thesis
      using Cons.IH [OF step(2) True Cons.prems(3) _ step(3) _ Cons.prems(7), of "n + 1"] left Cons.prems(6) step(1,4,5,6)
      by (auto simp: Let_def)
  qed
qed

definition flaky_config :: "int \<Rightarrow> receiver_config" where
  "flaky_config f = \<lparr> rv_status = 200, rv_fail_count = f, rv_verify = True, rv_secret = ''s3cret'' \<rparr>"

definition sample_meetings :: "nat \<Rightarrow> meeting list" where
  "sample_meetings n =
     map (\<lambda>k. \<lparr> mt_io = sample_io\<lparr>io_attempt_id := of_nat k\<rparr>, mt_clock = 1700000000, mt_text = [] \<rparr>) [0..<n]"

theorem flaky_receiver_outcome_witness:
  "\<exists>s' x'. meet_receiver sample_dec default_settings sample_env (\<lambda>_. []) (\<lambda>_. Not_json) (flaky_config 3) sample_endpoint
        sample_event ''s3cret'' 6 (sample_meetings 6) (sample_sess [sample_delivery], 0) = (s', 4)
     \<and> length (s_sent s') = 4 \<and> find_delivery 6 (s_db s') = Some x' \<and> dl_attempt_count x' = 4 \<and> dl_status x' = Succeeded"
proof -
  let ?d = "sample_db [sample_delivery]"
  have "sendable_to sample_dec default_settings sample_endpoint sample_event ''s3cret'' sample_delivery ?d"
    using sample_deliverable sample_public by (auto simp: sendable_to_def deliverable_def)
  moreover have "receiver_ok (flaky_config 3) ''s3cret''"
    by (simp add: receiver_ok_def flaky_config_def)
  moreover have "meetings_ok (\<lambda>_. Not_json) sample_endpoint sample_event (sample_meetings 6)"
    by (simp add: meetings_ok_def sample_meetings_def sample_io_def list_all_iff)
  moreover have "fresh_answers (map mt_io (sample_meetings 6)) ?d"
    by (simp add: fresh_answers_def sample_meetings_def upt_rec answer_storable_def sample_io_def)
  moreover have "budget default_settings sample_delivery = 6" "failures_left (flaky_config 3) 0 = 3" "length (sample_meetings 6) = 6"
    "max_delivery_attempts default_settings \<le> 1024" "dl_status sample_delivery = Pending" "dl_attempt_count sample_delivery = 0"
    "dl_id sample_delivery = 6"
    by (simp_all add: budget_def default_settings_def sample_delivery_def failures_left_def flaky_config_def sample_meetings_def)
  ultimately show ?thesis
    using flaky_receiver_outcome [of sample_dec default_settings sample_endpoint sample_event "''s3cret''" sample_delivery
        "sample_sess [sample_delivery]" "flaky_config 3" "\<lambda>_. Not_json" "sample_meetings 6" 0 sample_env "\<lambda>_. []"]
    by (simp add: Let_def)
qed

end
