(* ===== verification/Demo_Worker.thy ===== *)
theory Demo_Worker
  imports Demo_Client Receivers
begin

text \<open>
  The worker and the receiver a demo script starts (\<^verbatim>\<open>demo/_shared.py\<close>), and what a script can rely on about its
  delivery while any number of such workers run: the row and the attempts on record follow the answers the receiver
  is configured to give.
\<close>

section \<open>What a tick keeps\<close>

lemma process_all_keeps:
  assumes "process_all fdec st env name ios seen xs s = (s', Inr u)" "batch_ok xs (s_db s)" "\<forall>x \<in> set xs. dl_status x = In_flight" "P (s_db s)"
    and attempt: "\<And>s x s2. P (s_db s) \<Longrightarrow> find_delivery (dl_id x) (s_db s) = Some x \<Longrightarrow> dl_status x = In_flight
      \<Longrightarrow> process_delivery fdec st env x (ios (dl_id x)) name s = (s2, Inr ()) \<Longrightarrow> P (s_db s2)"
  shows "P (s_db s')"
  using assms(1-4)
proof (induction xs arbitrary: seen s)
  case (Cons x xs)
  from Cons.prems(1) obtain s1 s2 seen' where s1: "s_db s1 = s_db s"
    and p: "process_delivery fdec st env x (ios (dl_id x)) name s1 = (s2, Inr ())"
    and rest: "process_all fdec st env name ios seen' xs s2 = (s', Inr u)"
    by (rule process_all_Cons)
  obtain x' a where r: "attempt_recorded x (s_db s) x' a (s_db s2)"
    using process_delivery_ok [OF p] s1 by metis
  have "P (s_db s2)"
    using attempt [OF _ _ _ p] Cons.prems(2-4) s1 by (simp add: batch_ok_def)
  then show ?case
    using Cons.IH [OF rest batch_ok_recorded [OF Cons.prems(2) r]] Cons.prems(3) by simp
qed simp

lemma claims_keep:
  assumes "P d" "distinct (map dl_id xs)" "\<forall>x \<in> set xs. find_delivery (dl_id x) d = Some x \<and> dl_status x = Pending"
    and claim: "\<And>d x. P d \<Longrightarrow> find_delivery (dl_id x) d = Some x \<Longrightarrow> dl_status x = Pending \<Longrightarrow> P (put_delivery (stamp_claim l w t x) d)"
  shows "P (put_all (map (stamp_claim l w t) xs) d)"
  using assms(1-3)
proof (induction xs arbitrary: d)
  case (Cons x xs)
  have "dl_id y \<noteq> dl_id x" if "y \<in> set xs" for y
    using Cons.prems(2) that by (auto simp: image_iff)
  then show ?case
    using Cons.prems by (auto simp: find_delivery_put intro!: Cons.IH claim)
qed simp

text \<open>What the recovery and the claims keep, and the attempts keep from there on, a tick keeps.\<close>

lemma tick_inv:
  assumes "worker_tick fdec st env name io s = (s', n)" "distinct (map dl_id (deliveries (s_db s)))" "P (s_db s)"
    and start: "\<And>d. P d \<Longrightarrow> Q d"
    and recover: "\<And>d now. P d \<Longrightarrow> P (recover_expired_leases now d)"
    and claim: "\<And>d x l w t. P d \<Longrightarrow> find_delivery (dl_id x) d = Some x \<Longrightarrow> dl_status x = Pending \<Longrightarrow> P (put_delivery (stamp_claim l w t x) d)"
    and attempt: "\<And>s x s2. Q (s_db s) \<Longrightarrow> find_delivery (dl_id x) (s_db s) = Some x \<Longrightarrow> dl_status x = In_flight
      \<Longrightarrow> process_delivery fdec st env x (tk_attempts io (dl_id x)) name s = (s2, Inr ()) \<Longrightarrow> Q (s_db s2)"
  shows "Q (s_db s')"
  using assms(1)
proof (cases rule: worker_tick_cases)
  case committed
  let ?d0 = "recover_expired_leases (tk_recover_now io) (s_db s)" and ?c = "tick_batch st io (s_db s)"
  obtain rows d1 where cl: "claim_due_deliveries st env None name (tk_locked io) (tk_now io) (tk_flush_now io) ?d0 = Inr (rows, d1)"
    using committed unfolding run_once_def Let_def by (auto split: sum.splits)
  have rows: "rows = map (claim_stamp st env name (tk_now io) (tk_flush_now io)) ?c" and d1: "d1 = put_all rows ?d0"
    using claim_Inr [OF cl] by auto
  define s1 where "s1 = s\<lparr>s_db := d1, s_counters := (s_counters s)\<lparr>cn_claimed := cn_claimed (s_counters s) + int (length rows)\<rparr>\<rparr>"
  obtain u where pa: "process_all fdec st env name (tk_attempts io) [] rows s1 = (s', Inr u)"
    using committed cl unfolding run_once_def s1_def Let_def by (auto split: prod.splits sum.splits)
  have ids: "distinct (map dl_id (deliveries ?d0))"
    using assms(2) by simp
  have "\<forall>x \<in> set ?c. find_delivery (dl_id x) ?d0 = Some x \<and> dl_status x = Pending"
    using claim_rows_due find_delivery_row [OF ids] by (fastforce simp: due_def)
  then have "P (s_db s1)"
    using claims_keep [where P = P, OF recover [OF assms(3)] claim_rows_distinct [OF ids]] claim by (simp add: s1_def d1 rows)
  moreover have "batch_ok rows (s_db s1)" "\<forall>x \<in> set rows. dl_status x = In_flight"
    using claim_batch_ok [OF ids rows] by (simp_all add: s1_def d1) (auto simp: rows)
  ultimately show ?thesis
    using process_all_keeps [where P = Q, OF pa] start attempt by blast
next
  case rolled_back
  then show ?thesis
    using start [OF assms(3)] by simp
qed

section \<open>The processes of a demo\<close>

text \<open>The worker's environment on top of the platform's, and the receiver's command line.\<close>

definition worker_demo_env :: "settings \<Rightarrow> settings" where
  "worker_demo_env st =
     st\<lparr>max_delivery_attempts := 3, retry_base_seconds := 3, retry_cap_seconds := 60, delivery_timeout_seconds := 10\<rparr>"

definition start_receiver :: "int \<Rightarrow> int \<Rightarrow> receiver_config" where
  "start_receiver status fail_count = \<lparr> rv_status = status, rv_fail_count = fail_count, rv_verify = False, rv_secret = [] \<rparr>"

text \<open>What the receiver answers to the n-th request, from 1.\<close>

definition nth_answer :: "receiver_config \<Rightarrow> nat \<Rightarrow> int" where
  "nth_answer cf n = (if int n \<le> rv_fail_count cf then 500 else rv_status cf)"

lemma receiver_nth:
  assumes "\<not> rv_verify cf" "tq_doc rq \<noteq> Undecodable"
  shows "answer_status (fst (receive_webhook rp cf rq n)) = nth_answer cf (n + 1)"
proof -
  obtain ty where "logged_type rp ''type'' (tq_doc rq) = Inr ty"
    using logged_type_ok assms(2) by blast
  then show ?thesis
    using assms(1) by (simp add: receive_webhook_def answer_status_def nth_answer_def Let_def)
qed

text \<open>
  A tick of any worker whose request for delivery \<open>i\<close> the receiver answers, having counted one request for each attempt
  on record. A tick that fails or whose worker is killed rolls back.
\<close>

definition served :: "(json \<Rightarrow> utext) \<Rightarrow> receiver_config \<Rightarrow> uuid \<Rightarrow> db \<Rightarrow> tick_io \<Rightarrow> bool" where
  "served rp cf i d io \<longleftrightarrow> (\<exists>rq body. tq_doc rq \<noteq> Undecodable
     \<and> io_outcome (tk_attempts io i) = Http_response (answer_status (fst (receive_webhook rp cf rq (length (attempts_of i d))))) body)"

inductive served_tick ::
  "fernet_dec \<Rightarrow> settings \<Rightarrow> worker_env \<Rightarrow> (json \<Rightarrow> utext) \<Rightarrow> receiver_config \<Rightarrow> uuid \<Rightarrow> db \<Rightarrow> db \<Rightarrow> bool"
  for fdec st env rp cf i where
  tick: "worker_tick fdec st env name io s = (s', n) \<Longrightarrow> served rp cf i (s_db s) io \<Longrightarrow> served_tick fdec st env rp cf i (s_db s) (s_db s')"
| killed: "served_tick fdec st env rp cf i d d"

section \<open>The story of a delivery\<close>

text \<open>
  How the delivery stands after attempt \<open>n\<close>, when it was last queued after attempt \<open>r\<close>.
\<close>

definition standing :: "receiver_config \<Rightarrow> settings \<Rightarrow> nat \<Rightarrow> nat \<Rightarrow> delivery_status" where
  "standing cf st r n =
     (if n = r then Pending
      else if 200 \<le> nth_answer cf n \<and> nth_answer cf n < 300 then Succeeded
      else if max_delivery_attempts st \<le> int n then Dead_lettered else Pending)"

definition row_told :: "receiver_config \<Rightarrow> settings \<Rightarrow> nat \<Rightarrow> uuid \<Rightarrow> db \<Rightarrow> bool" where
  "row_told cf st r i d \<longleftrightarrow>
     (\<exists>x ep n. find_delivery i d = Some x \<and> find_endpoint (dl_endpoint x) d = Some ep \<and> validate_url_not_ssrf (ep_url ep) = Inr ()
        \<and> dl_attempt_count x = int n \<and> r \<le> n \<and> (r < n \<longrightarrow> standing cf st r (n - 1) = Pending)
        \<and> (dl_status x = standing cf st r n \<or> dl_status x = In_flight \<and> standing cf st r n = Pending)
        \<and> map at_response_status (attempts_of i d) = map (\<lambda>k. Some (nth_answer cf (k + 1))) [0..<n])"

lemma attempt_told:
  assumes "process_delivery fdec st env x io name s = (s', Inr u)" "find_endpoint (dl_endpoint x) (s_db s) = Some ep"
    and "validate_url_not_ssrf (ep_url ep) = Inr ()"
  obtains x' a where "attempt_recorded x (s_db s) x' a (s_db s')"
    and "dl_status x' = (if http_succeeded (io_outcome io) then Succeeded
      else if max_delivery_attempts st \<le> dl_attempt_count x + 1 then Dead_lettered else Pending)"
    and "at_response_status a = (case io_outcome io of Http_response c _ \<Rightarrow> Some c | _ \<Rightarrow> None)"
proof -
  obtain secret where secret: "decrypt_secret fdec st (ep_secret_enc ep) = Inr secret"
    using assms by (auto simp: process_delivery_def split: sum.splits)
  obtain ev where ev: "find_event (dl_event x) (s_db s) = Some ev"
    using assms secret by (auto simp: process_delivery_def split: option.splits)
  note run = process_delivery_public [OF assms(2) secret ev assms(3)]
  obtain c r where r: "settle st io (dl_attempt_count x + 1) x (s_counters s) = (c, r)"
    by fastforce
  then obtain x' where x': "r = Inr x'"
    using assms(1) unfolding run by (cases r) auto
  note sp = settle_spec [OF r [unfolded x']]
  let ?a = "attempt_row x (dl_attempt_count x + 1) (resolve_worker_name st env name) io"
  obtain d where "flush_attempt ?a x' (s_db s) = Inr d" "s_db s' = d"
    using assms(1) unfolding run by (auto simp: r x' flush_session_Inr)
  then have "attempt_recorded x (s_db s) x' ?a (s_db s')"
    using sp by (auto simp: attempt_recorded_def attempt_row_def dest!: flush_attempt_Inr)
  then show thesis
    using that [of x' ?a] sp(7) by (simp add: attempt_row_def)
qed

lemma standing_next:
  assumes "standing cf st r n = Pending" "r \<le> n"
  shows "standing cf st r (Suc n) = (if 200 \<le> nth_answer cf (Suc n) \<and> nth_answer cf (Suc n) < 300 then Succeeded
    else if max_delivery_attempts st \<le> int n + 1 then Dead_lettered else Pending)"
  using assms by (simp add: standing_def)

lemma standing_settled: "standing cf st r n \<noteq> In_flight"
  by (simp add: standing_def)

lemma told_recovered:
  assumes "row_told cf st r i d"
  shows "row_told cf st r i (recover_expired_leases now d)"
proof -
  obtain x ep n where x: "find_delivery i d = Some x" "find_endpoint (dl_endpoint x) d = Some ep" "validate_url_not_ssrf (ep_url ep) = Inr ()"
      "dl_attempt_count x = int n" "r \<le> n" "r < n \<longrightarrow> standing cf st r (n - 1) = Pending"
      "dl_status x = standing cf st r n \<or> dl_status x = In_flight \<and> standing cf st r n = Pending"
      "map at_response_status (attempts_of i d) = map (\<lambda>k. Some (nth_answer cf (k + 1))) [0..<n]"
    using assms by (auto simp: row_told_def)
  have "dl_status (recovered now x) = standing cf st r n \<or> dl_status (recovered now x) = In_flight \<and> standing cf st r n = Pending"
    using x(7) standing_settled [of cf st r n] by (auto simp: recovered_def lease_expired_def)
  then show ?thesis
    using x by (auto simp: row_told_def find_recovered)
qed

lemma told_claimed:
  assumes "row_told cf st r i d" "find_delivery (dl_id x) d = Some x" "dl_status x = Pending"
  shows "row_told cf st r i (put_delivery (stamp_claim l w t x) d)"
  using assms by (cases "i = dl_id x") (auto simp: row_told_def find_delivery_put)

lemma told_attempted:
  assumes "row_told cf st r i (s_db s)" "find_delivery (dl_id x) (s_db s) = Some x" "dl_status x = In_flight"
    and "process_delivery fdec st env x io name s = (s2, Inr ())"
    and "dl_id x = i \<Longrightarrow> \<exists>body. io_outcome io = Http_response (nth_answer cf (length (attempts_of i (s_db s)) + 1)) body"
  shows "row_told cf st r i (s_db s2) \<and> (dl_id x = i \<longrightarrow> (\<exists>x'. find_delivery i (s_db s2) = Some x' \<and> dl_status x' \<noteq> In_flight))
    \<and> (dl_id x \<noteq> i \<longrightarrow> find_delivery i (s_db s2) = find_delivery i (s_db s) \<and> attempts_of i (s_db s2) = attempts_of i (s_db s))"
proof (cases "dl_id x = i")
  case False
  obtain x' a where r: "attempt_recorded x (s_db s) x' a (s_db s2)"
    using process_delivery_ok [OF assms(4)] by blast
  then show ?thesis
    using assms(1) False recorded_keeps [OF r] by (auto simp: row_told_def recorded_find [OF r] recorded_attempts [OF r])
next
  case True
  then obtain ep n where x: "find_endpoint (dl_endpoint x) (s_db s) = Some ep" "validate_url_not_ssrf (ep_url ep) = Inr ()"
      "dl_attempt_count x = int n" "r \<le> n" "standing cf st r n = Pending"
      "map at_response_status (attempts_of i (s_db s)) = map (\<lambda>k. Some (nth_answer cf (k + 1))) [0..<n]"
    using assms(1-3) by (auto simp: row_told_def standing_def split: if_splits)
  have "length (attempts_of i (s_db s)) = n"
    using arg_cong [OF x(6), of length] by simp
  then obtain body where io: "io_outcome io = Http_response (nth_answer cf (Suc n)) body"
    using assms(5) [OF True] by auto
  obtain x' a where r: "attempt_recorded x (s_db s) x' a (s_db s2)"
    and status: "dl_status x' = (if http_succeeded (io_outcome io) then Succeeded
      else if max_delivery_attempts st \<le> dl_attempt_count x + 1 then Dead_lettered else Pending)"
    and a: "at_response_status a = (case io_outcome io of Http_response c _ \<Rightarrow> Some c | _ \<Rightarrow> None)"
    by (rule attempt_told [OF assms(4) x(1,2)])
  have "dl_status x' = standing cf st r (Suc n)"
    using status io x(3) standing_next [OF x(5,4)] by (simp add: http_succeeded_def)
  moreover have "dl_attempt_count x' = int (Suc n)" "dl_endpoint x' = dl_endpoint x"
    using r x(3) by (simp_all add: attempt_recorded_def)
  moreover have "map at_response_status (attempts_of i (s_db s2)) = map (\<lambda>k. Some (nth_answer cf (k + 1))) [0..<Suc n]"
    using x(6) a io True by (simp add: recorded_attempts [OF r])
  moreover have "dl_status x' \<noteq> In_flight"
    using r by (auto simp: attempt_recorded_def)
  moreover have "find_endpoint (dl_endpoint x) (s_db s2) = Some ep"
    using recorded_keeps [OF r] x(1) by simp
  ultimately show ?thesis
    using True x(2,4,5) unfolding row_told_def by (auto simp: recorded_find [OF r] intro!: exI [of _ "Suc n"])
qed

lemma served_told:
  assumes "worker_tick fdec st env name io s = (s', n)" "served rp cf i (s_db s) io" "\<not> rv_verify cf"
    and "distinct (map dl_id (deliveries (s_db s)))" "row_told cf st r i (s_db s)"
  shows "row_told cf st r i (s_db s')"
proof -
  let ?m = "length (attempts_of i (s_db s))"
  let ?P = "\<lambda>d. row_told cf st r i d \<and> length (attempts_of i d) = ?m"
  let ?Q = "\<lambda>d. row_told cf st r i d \<and> (\<forall>x. find_delivery i d = Some x \<and> dl_status x = In_flight \<longrightarrow> length (attempts_of i d) = ?m)"
  obtain body where io: "io_outcome (tk_attempts io i) = Http_response (nth_answer cf (?m + 1)) body"
    using assms(2) receiver_nth [OF assms(3)] by (auto simp: served_def)
  have "?Q (s_db s2)" if "?Q (s_db s1)" "find_delivery (dl_id x) (s_db s1) = Some x" "dl_status x = In_flight"
      "process_delivery fdec st env x (tk_attempts io (dl_id x)) name s1 = (s2, Inr ())" for s1 s2 x
    using told_attempted [OF conjunct1 [OF that(1)] that(2-4)] that(1-3) io by (cases "dl_id x = i") auto
  note attempts_kept = this
  have "?Q (s_db s')"
  proof (rule tick_inv [where P = ?P and Q = ?Q, OF assms(1,4)])
    show "?P (s_db s)"
      using assms(5) by simp
    show "?P (recover_expired_leases now d)" if "?P d" for d now
      using that told_recovered by simp
    show "?P (put_delivery (stamp_claim l w t x) d)" if "?P d" "find_delivery (dl_id x) d = Some x" "dl_status x = Pending" for d x l w t
      using that told_claimed by simp
  qed (use attempts_kept in blast)+
  then show ?thesis
    by blast
qed

text \<open>The tables a tick leaves alone.\<close>

lemma tick_frame:
  assumes "worker_tick fdec st env name io s = (s', n)" "distinct (map dl_id (deliveries (s_db s)))"
  shows "api_keys (s_db s') = api_keys (s_db s) \<and> projects (s_db s') = projects (s_db s) \<and> endpoints (s_db s') = endpoints (s_db s)"
proof -
  let ?P = "\<lambda>d. api_keys d = api_keys (s_db s) \<and> projects d = projects (s_db s) \<and> endpoints d = endpoints (s_db s)"
  have "?P (s_db s2)" if "?P (s_db s1)" and step: "process_delivery fdec st env x (tk_attempts io (dl_id x)) name s1 = (s2, Inr ())" for s1 s2 x
  proof -
    obtain x' a where "attempt_recorded x (s_db s1) x' a (s_db s2)"
      using process_delivery_ok [OF step] by blast
    then show ?thesis
      using that(1) by (auto simp: attempt_recorded_def)
  qed
  note attempts_kept = this
  show ?thesis
  proof (rule tick_inv [where P = ?P and Q = ?P, OF assms])
    show "?P (recover_expired_leases now d)" if "?P d" for d now
      using that by (simp add: recover_expired_leases_def)
    show "?P (s_db s2)" if "?P (s_db s1)" "process_delivery fdec st env x (tk_attempts io (dl_id x)) name s1 = (s2, Inr ())" for s1 s2 x
      using that by (rule attempts_kept)
  qed simp_all
qed

text \<open>What a script relies on between its requests: its key is good, and its delivery stands as told.\<close>

definition story :: "receiver_config \<Rightarrow> settings \<Rightarrow> string \<Rightarrow> uuid \<Rightarrow> nat \<Rightarrow> uuid \<Rightarrow> db \<Rightarrow> bool" where
  "story cf st key p r i d \<longleftrightarrow> platform_ok d \<and> signed_in key p d \<and> row_told cf st r i d
     \<and> (\<exists>x. find_delivery i d = Some x \<and> delivery_project d x = Some p)"

definition stands :: "receiver_config \<Rightarrow> settings \<Rightarrow> uuid \<Rightarrow> nat \<Rightarrow> uuid \<Rightarrow> nat \<Rightarrow> delivery \<Rightarrow> db \<Rightarrow> bool" where
  "stands cf st p r i n x d \<longleftrightarrow>
     find_delivery i d = Some x \<and> delivery_project d x = Some p \<and> dl_attempt_count x = int n \<and> dl_status x = standing cf st r n
     \<and> r \<le> n \<and> (r < n \<longrightarrow> standing cf st r (n - 1) = Pending) \<and> map at_number (attempts_of i d) = [1..int n]
     \<and> map at_response_status (attempts_of i d) = map (\<lambda>k. Some (nth_answer cf (k + 1))) [0..<n]"

lemma story_stands:
  assumes "story cf st key p r i d"
  obtains n x where "stands cf st p r i n x d"
proof -
  obtain x n where x: "find_delivery i d = Some x" "delivery_project d x = Some p" "dl_attempt_count x = int n" "r \<le> n"
      "r < n \<longrightarrow> standing cf st r (n - 1) = Pending" "dl_status x = standing cf st r n \<or> dl_status x = In_flight"
      "map at_response_status (attempts_of i d) = map (\<lambda>k. Some (nth_answer cf (k + 1))) [0..<n]"
    using assms by (auto simp: story_def row_told_def)
  have "dl_status x \<noteq> In_flight" "map at_number (attempts_of i d) = [1..int n]"
    using assms find_delivery_mem [OF x(1)] audited_find [OF _ x(1)] x(3) by (auto simp: story_def platform_ok_def none_in_flight_def)
  then show thesis
    using x by (intro that [of n x]) (simp add: stands_def)
qed

lemma story_keeps:
  assumes "story cf st key p r i d" "same_but_keys d d'" "signed_in key p d'"
  shows "story cf st key p r i d'" "stands cf st p r' i n x d' \<longleftrightarrow> stands cf st p r' i n x d"
proof -
  have same: "same_pipeline d d'" "find_delivery i d' = find_delivery i d" "find_endpoint e d' = find_endpoint e d"
      "attempts_of i d' = attempts_of i d" for e
    using assms(2) by (simp_all add: same_but_keys_def same_pipeline_def find_delivery_def find_endpoint_def attempts_of_def)
  then show "story cf st key p r i d'" "stands cf st p r' i n x d' \<longleftrightarrow> stands cf st p r' i n x d"
    using assms(1,3) same_pipeline_ok [OF same(1)] by (simp_all add: story_def stands_def row_told_def delivery_project_def)
qed

lemma story_tick:
  assumes "served_tick fdec st env rp cf i d d'" "story cf st key p r i d" "\<not> rv_verify cf"
  shows "story cf st key p r i d'"
  using assms(1)
proof (cases rule: served_tick.cases)
  case (tick name io s s' n)
  have ids: "distinct (map dl_id (deliveries d))" "platform_ok d"
    using assms(2) by (simp_all add: story_def platform_ok_def)
  have frame: "api_keys d' = api_keys d" "projects d' = projects d" "endpoints d' = endpoints d"
    using tick_frame [OF tick(3)] ids(1) tick(1,2) by auto
  have told: "row_told cf st r i d'"
    using served_told [OF tick(3,4) assms(3)] assms(2) ids(1) tick(1,2) by (auto simp: story_def)
  obtain x where x: "find_delivery i d = Some x" "delivery_project d x = Some p"
    using assms(2) by (auto simp: story_def)
  obtain x' where x': "find_delivery i d' = Some x'"
    using told by (auto simp: row_told_def)
  have "dl_endpoint x' = dl_endpoint x"
  proof -
    let ?P = "\<lambda>d. \<exists>x'. find_delivery i d = Some x' \<and> dl_endpoint x' = dl_endpoint x"
    have "?P (s_db s')"
    proof (rule tick_inv [where P = ?P and Q = ?P, OF tick(3)])
      show "?P (s_db s2)" if "?P (s_db s1)" and step: "process_delivery fdec st env y (tk_attempts io (dl_id y)) name s1 = (s2, Inr ())"
          and "find_delivery (dl_id y) (s_db s1) = Some y" for s1 s2 y
      proof -
        obtain y' a where "attempt_recorded y (s_db s1) y' a (s_db s2)"
          using process_delivery_ok [OF step] by blast
        then show ?thesis
          using that(1,3) by (auto simp: recorded_find) (auto simp: attempt_recorded_def)
      qed
    qed (use ids(1) tick(1) x(1) in \<open>auto simp: find_recovered find_delivery_put\<close>)
    then show ?thesis
      using x' tick(2) by simp
  qed
  then have "delivery_project d' x' = Some p"
    using x(2) frame(3) by (simp add: delivery_project_def find_endpoint_def)
  moreover have "platform_ok d'"
    using tick_step [OF tick(3)] ids(2) tick(1,2) by simp
  moreover have "signed_in key p d'"
    using assms(2) signed_in_keeps frame(1,2) by (auto simp: story_def)
  ultimately show ?thesis
    using told x' by (simp add: story_def)
next
  case killed
  then show ?thesis
    using assms(2) by simp
qed

text \<open>A settled delivery stays as it is.\<close>

lemma settled_stays:
  assumes "served_tick fdec st env rp cf i d d'" "distinct (map dl_id (deliveries d))" "find_delivery i d = Some x"
    and "dl_status x \<noteq> Pending" "dl_status x \<noteq> In_flight"
  shows "find_delivery i d' = Some x \<and> attempts_of i d' = attempts_of i d"
  using assms(1)
proof (cases rule: served_tick.cases)
  case (tick name io s s' n)
  let ?P = "\<lambda>e. find_delivery i e = Some x \<and> attempts_of i e = attempts_of i d"
  have "?P (s_db s')"
  proof (rule tick_inv [where P = ?P and Q = ?P, OF tick(3)])
    show "?P (recover_expired_leases now e)" if "?P e" for e now
      using that assms(5) by (simp add: find_recovered recovered_def lease_expired_def)
    show "?P (put_delivery (stamp_claim l w t y) e)" if "?P e" "find_delivery (dl_id y) e = Some y" "dl_status y = Pending" for e y l w t
      using that assms(4) by (auto simp: find_delivery_put)
    show "?P (s_db s2)" if "?P (s_db s1)" "find_delivery (dl_id y) (s_db s1) = Some y" "dl_status y = In_flight"
        and step: "process_delivery fdec st env y (tk_attempts io (dl_id y)) name s1 = (s2, Inr ())" for s1 s2 y
    proof -
      obtain y' a where r: "attempt_recorded y (s_db s1) y' a (s_db s2)"
        using process_delivery_ok [OF step] by blast
      have "i \<noteq> dl_id y"
        using that(1-3) assms(5) by auto
      then show ?thesis
        using that(1) by (simp add: recorded_find [OF r] recorded_attempts [OF r])
    qed
  qed (use assms(2,3) tick(1) in simp_all)
  then show ?thesis
    using tick(2) by simp
next
  case killed
  then show ?thesis
    using assms(3) by simp
qed

text \<open>What happens meanwhile: any number of ticks.\<close>

definition busy ::
  "fernet_dec \<Rightarrow> settings \<Rightarrow> worker_env \<Rightarrow> (json \<Rightarrow> utext) \<Rightarrow> receiver_config \<Rightarrow> uuid \<Rightarrow> (db \<Rightarrow> db) \<Rightarrow> bool" where
  "busy fdec st env rp cf i f \<longleftrightarrow> (\<forall>d. (served_tick fdec st env rp cf i)\<^sup>*\<^sup>* d (f d))"

lemma busy_story:
  assumes "busy fdec st env rp cf i f" "story cf st key p r i d" "\<not> rv_verify cf"
  shows "story cf st key p r i (f d)"
    and "stands cf st p r i n x d \<Longrightarrow> dl_status x \<noteq> Pending \<Longrightarrow> stands cf st p r i n x (f d)"
proof -
  have run: "(served_tick fdec st env rp cf i)\<^sup>*\<^sup>* d (f d)"
    using assms(1) by (simp add: busy_def)
  then show "story cf st key p r i (f d)"
    by (induction rule: rtranclp_induct) (use assms(2,3) story_tick in blast)+
  assume x: "stands cf st p r i n x d" "dl_status x \<noteq> Pending"
  have "story cf st key p r i (f d) \<and> find_delivery i (f d) = Some x \<and> attempts_of i (f d) = attempts_of i d"
    using run
  proof (induction rule: rtranclp_induct)
    case base
    show ?case
      using assms(2) x(1) by (simp add: stands_def)
  next
    case (step e f)
    then have "story cf st key p r i f" "distinct (map dl_id (deliveries e))"
      using story_tick [OF step(2) _ assms(3)] by (auto simp: story_def platform_ok_def)
    then show ?case
      using settled_stays [OF step(2), of x] step(3) x standing_settled by (auto simp: stands_def)
  qed
  then show "stands cf st p r i n x (f d)"
    using x(1) by (auto simp: stands_def story_def)
qed

section \<open>The requests of a script about its delivery\<close>

lemma fetch_stands:
  assumes "story cf st key p r i d" "stands cf st p r i n x d"
  obtains d' where "fetch_delivery now key i d = (Inr (delivery_view x), d')" "story cf st key p r i d'" "stands cf st p r i n x d'"
proof -
  have key: "signed_in key p d"
    using assms(1) by (simp add: story_def)
  note use = authorized_signed_in [OF key, of now]
  note kept = story_keeps [OF assms(1) use(3,2)]
  then have x: "stands cf st p r i n x (after_use key now d)"
    using assms(2) by simp
  then have "get_delivery i p (after_use key now d) = Inr (delivery_view x)"
    by (simp add: get_delivery_def get_delivery_or_404_def stands_def)
  then show thesis
    using that [of "after_use key now d"] kept(1) x by (simp add: fetch_delivery_def requested_def use(1) raise_for_status_def)
qed

lemma list_stands:
  assumes "story cf st key p r i d" "stands cf st p r i n x d"
  obtains as d' where "list_attempts now key i d = (Inr as, d')" "story cf st key p r i d'" "stands cf st p r i n x d'"
    and "map ar_response_status as = map (\<lambda>k. Some (nth_answer cf (k + 1))) [0..<n]" "d' = after_use key now d"
proof -
  have key: "signed_in key p d"
    using assms(1) by (simp add: story_def)
  note use = authorized_signed_in [OF key, of now]
  note kept = story_keeps [OF assms(1) use(3,2)]
  then have x: "stands cf st p r i n x (after_use key now d)"
    using assms(2) by simp
  let ?as = "attempts_of i (after_use key now d)"
  have "sorted (map at_number ?as)"
    using x by (simp add: stands_def)
  then have "list_delivery_attempts i p (after_use key now d) = Inr (map attempt_view ?as)"
    using x by (simp add: list_delivery_attempts_def get_delivery_or_404_def stands_def sorted_sort_id sort_key_id_if_sorted)
  moreover have "map ar_response_status (map attempt_view ?as) = map at_response_status ?as"
    by (simp add: attempt_view_def)
  then have "map ar_response_status (map attempt_view ?as) = map (\<lambda>k. Some (nth_answer cf (k + 1))) [0..<n]"
    using x by (simp only: stands_def)
  ultimately show thesis
    by (intro that [OF _ kept(1) x, of "map attempt_view ?as"]) (simp_all only: list_attempts_def requested_def use(1) raise_for_status_def sum.case prod.case)
qed

lemma redrive_stands:
  assumes "story cf st key p r i d" "stands cf st p r i n x d" "dl_status x = Dead_lettered"
  obtains v x' d' where "do_redrive auth_now now key i d = (Inr v, d')" "dr_status v = Pending" "story cf st key p n i d'" "stands cf st p n i n x' d'"
proof -
  have key: "signed_in key p d"
    using assms(1) by (simp add: story_def)
  note use = authorized_signed_in [OF key, of auth_now]
  let ?d1 = "after_use key auth_now d"
  let ?x = "redrive_write x now x"
  note kept = story_keeps [OF assms(1) use(3,2)]
  have x: "stands cf st p r i n x ?d1"
    using assms(2) kept(2) by simp
  have id: "dl_id x = i"
    using x find_delivery_mem by (auto simp: stands_def)
  have run: "redrive_delivery i p now ?d1 ?d1 = (Inr (delivery_view ?x), put_delivery ?x ?d1)"
    using x assms(3) by (simp add: redrive_delivery_def get_delivery_or_404_def stands_def Let_def)
  have row: "find_delivery i (put_delivery ?x ?d1) = Some ?x"
    using x id by (simp add: find_delivery_put stands_def redrive_write_fields)
  have fields: "dl_endpoint ?x = dl_endpoint x" "dl_attempt_count ?x = dl_attempt_count x" "dl_status ?x = Pending"
    by (simp_all add: redrive_write_def)
  have now: "standing cf st n n = Pending"
    by (simp add: standing_def)
  have "stands cf st p n i n ?x (put_delivery ?x ?d1)"
    using x row fields now by (auto simp: stands_def delivery_project_def)
  moreover have "row_told cf st n i (put_delivery ?x ?d1)"
  proof -
    obtain ep where "find_endpoint (dl_endpoint x) ?d1 = Some ep" "validate_url_not_ssrf (ep_url ep) = Inr ()"
      using kept(1) x by (auto simp: story_def row_told_def stands_def)
    then show ?thesis
      using x row fields now unfolding row_told_def
      by (intro exI [of _ ?x] exI [of _ ep] exI [of _ n]) (simp add: stands_def)
  qed
  moreover have "platform_ok (put_delivery ?x ?d1)"
    using redrive_steps(1) [OF run] kept(1) by (simp add: story_def)
  moreover have "signed_in key p (put_delivery ?x ?d1)"
    using kept(1) signed_in_keeps [of key p ?d1 "put_delivery ?x ?d1"] by (simp add: story_def)
  ultimately show thesis
    using that [of "delivery_view ?x" "put_delivery ?x ?d1" ?x] run
    by (simp add: do_redrive_def requested_def use(1) raise_for_status_def delivery_view_def fields(3) story_def)
       (auto simp: stands_def)
qed

text \<open>Waiting ends with the status asked for or with the last poll having read another.\<close>

lemma wait_stands:
  assumes "story cf st key p r i d" "\<not> rv_verify cf" "\<forall>(now, others) \<in> set polls. busy fdec st env rp cf i others"
  shows "\<exists>res d' n x. wait_for_status polls key i target d = (res, d') \<and> story cf st key p r i d' \<and> stands cf st p r i n x d'
    \<and> (case res of Inr v \<Rightarrow> v = delivery_view x \<and> dl_status x = target
        | Inl e \<Rightarrow> e = Timeout_error \<and> (polls = [] \<or> dl_status x \<noteq> target))"
  using assms(1,3)
proof (induction polls arbitrary: d)
  case Nil
  then show ?case
    using story_stands by (fastforce simp: wait_for_status_def)
next
  case (Cons poll polls)
  obtain now others where poll: "poll = (now, others)"
    by fastforce
  have "story cf st key p r i (others d)"
    using Cons.prems poll busy_story(1) [OF _ Cons.prems(1) assms(2)] by auto
  then obtain n x where x: "story cf st key p r i (others d)" "stands cf st p r i n x (others d)"
    using story_stands by metis
  obtain d1 where one: "fetch_delivery now key i (others d) = (Inr (delivery_view x), d1)" "story cf st key p r i d1" "stands cf st p r i n x d1"
    by (rule fetch_stands [OF x])
  have step: "wait_for_status (poll # polls) key i target d
      = (if dl_status x = target then (Inr (delivery_view x), d1) else wait_for_status polls key i target d1)"
    by (simp add: poll wait_for_status_def and_then_Inr [where m = "fetch_delivery now key i", OF one(1)]) (simp add: delivery_view_def done_with_def)
  show ?case
  proof (cases "dl_status x = target")
    case True
    then show ?thesis
      using one(2,3) unfolding step by auto
  next
    case False
    show ?thesis
    proof (cases "polls = []")
      case True
      then show ?thesis
        using False one(2,3) unfolding step by (auto simp: wait_for_status_def)
    next
      case polls: False
      then obtain res d' n' x' where rest: "wait_for_status polls key i target d1 = (res, d')" "story cf st key p r i d'" "stands cf st p r i n' x' d'"
          "case res of Inr v \<Rightarrow> v = delivery_view x' \<and> dl_status x' = target
            | Inl e \<Rightarrow> e = Timeout_error \<and> (polls = [] \<or> dl_status x' \<noteq> target)"
        using Cons.IH [OF one(2)] Cons.prems(2) by auto
      then show ?thesis
        using False polls unfolding step by (intro exI [of _ res] exI [of _ d'] exI [of _ n'] exI [of _ x']) (auto split: sum.splits)
    qed
  qed
qed

end
