(* ===== verification/Demo_Scenarios.thy ===== *)
theory Demo_Scenarios
  imports Demo_Client
begin

text \<open>
  The idempotency demo (\<^verbatim>\<open>demo/scenario_3_idempotency.py\<close>) and the proof that it passes.
\<close>

section \<open>Scenario 3: idempotent publishing\<close>

record scenario_io =
  si_setup :: setup_io
  si_endpoint :: endpoint_io
  si_first :: ingest_io
  si_replay :: ingest_io
  si_other :: ingest_io
  si_conflict :: ingest_io
  si_now :: "nat \<Rightarrow> time"

definition order_created :: utext where
  "order_created = ucode ''order.created''"

definition order_payload :: "string \<Rightarrow> int \<Rightarrow> payload" where
  "order_payload order amount = [(ucode ''order_id'', JStr (ucode order)), (ucode ''amount'', JInt amount)]"

definition scenario_url :: string where
  "scenario_url = ''http://localhost:8893/''"

definition scenario_key :: string where
  "scenario_key = ''demo-idem-key-ord-003''"

definition scenario_3_publishes :: "settings \<Rightarrow> (payload \<Rightarrow> payload) \<Rightarrow> scenario_io \<Rightarrow> string \<Rightarrow> unit script" where
  "scenario_3_publishes st jsonb io key =
     (let payload = order_payload ''ord-003'' 75 in
     and_then (post_event st jsonb (si_first io) (si_now io 0) key order_created payload (Some scenario_key)) (\<lambda>(event_id_1, queued_1).
     and_then (post_event st jsonb (si_replay io) (si_now io 1) key order_created payload (Some scenario_key)) (\<lambda>(event_id_2, queued_2).
     and_then (ensure (event_id_2 = event_id_1) ''replay returned a different event_id'') (\<lambda>_.
     and_then (ensure (queued_2 = queued_1) ''replay returned different queued_deliveries'') (\<lambda>_.
     and_then (fetch_event (si_now io 2) key event_id_1) (\<lambda>event.
     and_then (ensure (length (ed_deliveries event) = 1) ''expected 1 delivery'') (\<lambda>_.
     and_then (post_event st jsonb (si_other io) (si_now io 3) key order_created payload (Some (scenario_key @ ''-v2''))) (\<lambda>(event_id_3, _).
     and_then (ensure (event_id_3 \<noteq> event_id_1) ''expected a fresh event_id for a new key'') (\<lambda>_.
     (\<lambda>d. case post_route st jsonb (si_conflict io) (si_now io 4) key order_created (order_payload ''DIFFERENT'' 0) (Some scenario_key) d of
            (r, d') \<Rightarrow> ensure (status_code 201 r = 409) ''expected 409 Conflict'' d'))))))))))"

definition scenario_3 :: "fernet_enc \<Rightarrow> settings \<Rightarrow> (payload \<Rightarrow> payload) \<Rightarrow> scenario_io \<Rightarrow> unit script" where
  "scenario_3 fenc st jsonb io =
     and_then (setup_project (si_setup io) ''demo-s3'') (\<lambda>(_, key).
     and_then (demo_create_endpoint fenc st (si_endpoint io) key scenario_url [order_created]) (\<lambda>_.
     scenario_3_publishes st jsonb io key))"

section \<open>The constants of the script\<close>

lemma scenario_url_passes: "guard_url scenario_url = Inr ()"
proof -
  have "url_hostname scenario_url = Some ''localhost''" "ip_address ''localhost'' = None"
    by code_simp+
  then show ?thesis
    using validate_hostname by (simp add: guard_url_def)
qed

lemma scenario_texts:
  "event_types_ok [order_created]" "length scenario_url \<le> 2048" "CHR 0x00 \<notin> set scenario_url" "event_type_ok order_created"
  "0 \<notin> set order_created" "event_storable order_created (order_payload ''ord-003'' 75) (Some scenario_key)"
  "event_storable order_created (order_payload ''ord-003'' 75) (Some (scenario_key @ ''-v2''))"
  by (simp_all add: event_types_ok_def event_type_ok_def order_created_def is_space_point_def reserved_prefix_def ucode_def scenario_url_def
      event_storable_def order_payload_def scenario_key_def)

lemma scenario_size: "length (encode (dumps_compact (JObj (order_payload ''ord-003'' 75)))) = 34" "length (encode (dumps_compact (JObj (order_payload ''DIFFERENT'' 0)))) = 35"
  by code_simp+

section \<open>The scenario passes\<close>

text \<open>The new ids are new, in the platform and among themselves; \<open>e\<close> is the scenario's endpoint.\<close>

definition fresh_publishes :: "scenario_io \<Rightarrow> uuid \<Rightarrow> db \<Rightarrow> bool" where
  "fresh_publishes io e d \<longleftrightarrow>
     in_event_id (si_first io) \<noteq> in_event_id (si_other io)
     \<and> in_delivery_id (si_first io) e \<noteq> in_delivery_id (si_other io) e \<and> in_record_id (si_first io) \<noteq> in_record_id (si_other io)
     \<and> (\<forall>i \<in> {si_first io, si_other io}. in_event_id i \<notin> ev_id ` set (events d) \<and> in_delivery_id i e \<notin> dl_id ` set (deliveries d)
          \<and> in_record_id i \<notin> ir_id ` set (idem_records d))"

lemma find_idem_stored:
  assumes "find_idem p k d = None"
  shows "find_idem p k (stored jsonb io p order_created (order_payload ''ord-003'' 75) (Some k) e d) = Some (new_record io p k 1 (body_hash order_created (order_payload ''ord-003'' 75)))"
  using assms by (simp add: find_idem_def stored_def insert_event_def find_pk_append) (simp add: new_record_def)

lemma find_idem_other: "k' \<noteq> k \<Longrightarrow> find_idem p k' (stored jsonb io p order_created (order_payload ''ord-003'' 75) (Some k) e d) = find_idem p k' d"
  by (simp add: find_idem_def stored_def insert_event_def find_pk_append split: option.split) (simp add: new_record_def)

lemma publishes_outcome:
  assumes "signed_in key p d" "fan_out_targets p order_created d = [e]" "p \<notin> ir_project ` set (idem_records d)"
    and "p \<in> pj_id ` set (projects d)" "fresh_publishes io (ep_id e) d" "dl_event ` set (deliveries d) \<subseteq> ev_id ` set (events d)"
    and "35 \<le> max_event_payload_bytes st"
  shows "fst (scenario_3_publishes st jsonb io key d)
    = (if body_hash order_created (order_payload ''DIFFERENT'' 0) = body_hash order_created (order_payload ''ord-003'' 75)
       then Inl (Assertion_error ''expected 409 Conflict'') else Inr ())"
proof -
  let ?pl = "order_payload ''ord-003'' 75" and ?k2 = "scenario_key @ ''-v2''"
  let ?rc = "new_record (si_first io) p scenario_key 1 (body_hash order_created ?pl)"
  have none: "find_idem p k d = None" for k
    using assms(3) by (auto simp: find_idem_def find_pk_None)
  have ids: "in_event_id (si_first io) \<notin> ev_id ` set (events d)" "in_delivery_id (si_first io) (ep_id e) \<notin> dl_id ` set (deliveries d)"
      "in_record_id (si_first io) \<notin> ir_id ` set (idem_records d)"
    using assms(5) by (simp_all add: fresh_publishes_def)
  have ok: "event_create_ok st order_created ?pl" "event_create_ok st order_created (order_payload ''DIFFERENT'' 0)"
    using scenario_texts(1) scenario_size assms(7)
    by (simp_all add: event_create_ok_def event_types_ok_def) (simp_all add: order_created_def ucode_def)
  let ?d1 = "stored jsonb (si_first io) p order_created ?pl (Some scenario_key) e d"
  obtain d1 where one: "post_event st jsonb (si_first io) (si_now io 0) key order_created ?pl (Some scenario_key) d = (Inr (in_event_id (si_first io), 1), d1)"
      "signed_in key p d1" "same_but_keys ?d1 d1"
    by (rule event_posted [OF assms(1,2,4) ids(1,2) _ ok(1) scenario_texts(6)]) (use none ids(3) in auto)
  have rc: "find_idem p scenario_key d1 = Some ?rc"
    using find_idem_stored [OF none] one(3) by (simp add: find_idem_def same_but_keys_def)
  then obtain d2 where two: "post_route st jsonb (si_replay io) (si_now io 1) key order_created ?pl (Some scenario_key) d1
        = (replay ?rc (body_hash order_created ?pl), d2)" "signed_in key p d2" "same_but_keys d1 d2"
    by (rule post_recorded [OF one(2) _ ok(1)])
  have replayed: "replay ?rc (body_hash order_created ?pl) = Inr (in_event_id (si_first io), 1)"
    by (simp add: replay_def new_record_def)
  let ?d3 = "after_use key (si_now io 2) d2"
  note use = authorized_signed_in [OF two(2), of "si_now io 2"]
  have same3: "same_but_keys ?d1 ?d3"
    using one(3) two(3) use(3) by (simp add: same_but_keys_def)
  obtain detail where three: "fetch_event (si_now io 2) key (in_event_id (si_first io)) d2 = (Inr detail, ?d3)" "ed_deliveries detail = [delivery_view (new_delivery (si_first io) e)]"
    by (rule detail_fetched [OF ids(1) assms(6) _ two(2)]) (use one(3) two(3) in \<open>auto simp: same_but_keys_def\<close>)
  have look3: "fan_out_targets p order_created ?d3 = [e]" "find_idem p ?k2 ?d3 = None" "p \<in> pj_id ` set (projects ?d3)"
    using same3 assms(2,4) none find_idem_other [of ?k2 scenario_key p jsonb "si_first io" e d]
    by (simp_all add: same_but_keys_def fan_out_targets_def find_idem_def stored_def insert_event_def)
  have other: "in_event_id (si_other io) \<notin> ev_id ` set (events ?d3)" "in_delivery_id (si_other io) (ep_id e) \<notin> dl_id ` set (deliveries ?d3)"
      "in_record_id (si_other io) \<notin> ir_id ` set (idem_records ?d3)"
    using same3 assms(5) by (auto simp: same_but_keys_def fresh_publishes_def stored_def insert_event_def new_event_def new_delivery_def new_record_def)
  obtain d4 where four: "post_event st jsonb (si_other io) (si_now io 3) key order_created ?pl (Some ?k2) ?d3 = (Inr (in_event_id (si_other io), 1), d4)"
      "signed_in key p d4" "same_but_keys (stored jsonb (si_other io) p order_created ?pl (Some ?k2) e ?d3) d4"
    by (rule event_posted [OF use(2) look3(1,3) other(1,2) _ ok(1) scenario_texts(7)]) (use look3(2) other(3) in auto)
  have "find_idem p scenario_key d4 = Some ?rc"
    using rc one(3) same3 four(3) find_idem_other [of scenario_key ?k2 p jsonb "si_other io" e ?d3] by (simp add: find_idem_def same_but_keys_def)
  then obtain d5 where five: "post_route st jsonb (si_conflict io) (si_now io 4) key order_created (order_payload ''DIFFERENT'' 0) (Some scenario_key) d4
        = (replay ?rc (body_hash order_created (order_payload ''DIFFERENT'' 0)), d5)"
    by (rule post_recorded [OF four(2) _ ok(2)])
  have "post_event st jsonb (si_replay io) (si_now io 1) key order_created ?pl (Some scenario_key) d1 = (Inr (in_event_id (si_first io), 1), d2)"
    using two(1) replayed by (simp add: post_event_def requested_def raise_for_status_def)
  moreover have "in_event_id (si_other io) \<noteq> in_event_id (si_first io)"
    using assms(5) unfolding fresh_publishes_def by metis
  moreover have "ir_request_hash ?rc = body_hash order_created ?pl"
    by (simp add: new_record_def)
  ultimately show ?thesis
    using three(2) by (simp add: scenario_3_publishes_def Let_def and_then_Inr one(1) three(1) four(1) five
        replay_def status_code_def conflict_409_def ensure_def)
qed

section \<open>Properties\<close>

text \<open>The name and the ids of the scenario's own rows are new; its clock reads a Unix time.\<close>

definition room_for :: "scenario_io \<Rightarrow> db \<Rightarrow> bool" where
  "room_for io d \<longleftrightarrow> 0 \<le> su_time (si_setup io) \<and> su_time (si_setup io) < 10 ^ 20
     \<and> room_for_client (si_setup io) (setup_name (si_setup io) ''demo-s3'') (si_endpoint io) d
     \<and> fresh_publishes io (eo_id (si_endpoint io)) d"

text \<open>C31: The idempotency demo passes on every platform: from any consistent database with room for its rows,
  whatever else is stored, the script creates its project, key and endpoint, publishes, gets the same event and count
  for the replay, sees one delivery, gets another event under another key and is refused the changed body. The
  one way it can fail is that the two bodies hash alike; then its last check fails.\<close>

theorem idempotency_scenario_passes:
  assumes "keys_ok d" "fks_ok d" "room_for io d" "35 \<le> max_event_payload_bytes st"
  shows "fst (scenario_3 fenc st jsonb io d)
    = (if body_hash order_created (order_payload ''DIFFERENT'' 0) = body_hash order_created (order_payload ''ord-003'' 75)
       then Inl (Assertion_error ''expected 409 Conflict'') else Inr ())"
proof -
  let ?su = "si_setup io"
  have room: "0 \<le> su_time ?su" "su_time ?su < 10 ^ 20" "room_for_client ?su (setup_name ?su ''demo-s3'') (si_endpoint io) d"
      "fresh_publishes io (eo_id (si_endpoint io)) d"
    using assms(3) by (simp_all add: room_for_def)
  have texts: "''demo'' \<noteq> []" "length ''demo'' \<le> 255" "CHR 0x00 \<notin> set ''demo''" "length ''demo-s3'' \<le> 200" "CHR 0x00 \<notin> set ''demo-s3''"
    by simp_all
  obtain key d1 r d2 e where one: "signed_up ?su (setup_name ?su ''demo-s3'') ''demo'' d = (Inr (su_project ?su, key), d1)"
      "demo_create_endpoint fenc st (si_endpoint io) key scenario_url [order_created] d1 = (Inr r, d2)" "signed_in key (su_project ?su) d2"
      "fan_out_targets (su_project ?su) order_created d2 = [e]" "ep_id e = eo_id (si_endpoint io)" "su_project ?su \<in> pj_id ` set (projects d2)"
      "su_project ?su \<notin> ir_project ` set (idem_records d2)"
    and same: "events d2 = events d" "deliveries d2 = deliveries d" "attempts d2 = attempts d" "idem_records d2 = idem_records d"
    and registered: "find_endpoint (eo_id (si_endpoint io)) d2 = Some e" "ep_project e = su_project ?su" "ep_url e = scenario_url"
    by (rule client_ready [OF assms(1,2) room(3) setup_name_ok [OF room(1,2) texts(4,5)] texts(1-3) scenario_url_passes scenario_texts(2-5)])
  have "dl_event ` set (deliveries d2) \<subseteq> ev_id ` set (events d2)" "fresh_publishes io (ep_id e) d2"
    using assms(2) room(4) same one(5) by (simp_all add: fks_ok_def fresh_publishes_def)
  then show ?thesis
    using publishes_outcome [OF one(3,4,7,6) _ _ assms(4)] by (simp add: scenario_3_def setup_project_def and_then_Inr one(1,2))
qed

definition sample_scenario :: scenario_io where
  "sample_scenario =
   \<lparr> si_setup = \<lparr> su_time = 1700000000, su_project = 1, su_key = 2, su_random = [7], su_now = 0, su_key_now = 1 \<rparr>,
     si_endpoint = \<lparr> eo_id = 3, eo_secret = [1, 2], eo_fernet = [], eo_auth_now = 2, eo_now = 2 \<rparr>,
     si_first = sample_in, si_replay = sample_in,
     si_other = sample_in\<lparr>in_event_id := 51, in_delivery_id := (\<lambda>i. i + 200), in_record_id := 71\<rparr>,
     si_conflict = sample_in, si_now = (\<lambda>n. 3) \<rparr>"

theorem idempotency_scenario_passes_witness:
  "fst (scenario_3 sample_enc default_settings id sample_scenario empty_db)
    = (if body_hash order_created (order_payload ''DIFFERENT'' 0) = body_hash order_created (order_payload ''ord-003'' 75)
       then Inl (Assertion_error ''expected 409 Conflict'') else Inr ())"
proof -
  have "room_for sample_scenario empty_db"
    by (simp add: room_for_def room_for_client_def) (simp add: fresh_publishes_def sample_scenario_def sample_in_def empty_db_def)
  moreover have "keys_ok empty_db" "fks_ok empty_db"
    by (simp_all add: keys_ok_def fks_ok_def project_table.keys_ok_def api_key_table.keys_ok_def
        endpoint_table.keys_ok_def event_table.keys_ok_def delivery_table.keys_ok_def idem_table.keys_ok_def empty_db_def)
  moreover have "35 \<le> max_event_payload_bytes default_settings"
    by (simp add: default_settings_def)
  ultimately show ?thesis
    by (intro idempotency_scenario_passes)
qed

end
