(* ===== verification/Demo_Runs.thy ===== *)
theory Demo_Runs
  imports Demo_Worker Demo_Scenarios
begin

text \<open>
  The demos that watch a worker: failure, backoff and dead letter (\<^verbatim>\<open>demo/scenario_1_failure_backoff_deadletter.py\<close>),
  redrive (\<^verbatim>\<open>demo/scenario_2_redrive.py\<close>) and a crashed worker (\<^verbatim>\<open>demo/scenario_4_crash_recovery.py\<close>). Each
  interleaves its requests with whatever ticks any number of workers make meanwhile; a worker killed in the middle of one
  leaves the database as it was.
\<close>

section \<open>What the scripts share\<close>

text \<open>\<^verbatim>\<open>failed\<close> ends the process.\<close>

definition exit_failed :: "'a script" where
  "exit_failed = (\<lambda>d. (Inl (System_exit 1), d))"

definition meanwhile :: "(db \<Rightarrow> db) \<Rightarrow> unit script" where
  "meanwhile f = (\<lambda>d. (Inr (), f d))"

text \<open>One turn of the watching loop: what others commit before the read of the delivery and before that of its attempts.\<close>

record glance =
  gl_others :: "db \<Rightarrow> db"
  gl_now :: time
  gl_list_others :: "db \<Rightarrow> db"
  gl_list_now :: time

record demo_io =
  di_setup :: setup_io
  di_endpoint :: endpoint_io
  di_event :: ingest_io
  di_post_now :: time
  di_get_now :: time
  di_watch :: "glance list"
  di_redrive_auth_now :: time
  di_redrive_now :: time
  di_wait :: "(time \<times> (db \<Rightarrow> db)) list"
  di_others :: "nat \<Rightarrow> db \<Rightarrow> db"
  di_now :: "nat \<Rightarrow> time"

definition receiver_url :: "string \<Rightarrow> string" where
  "receiver_url port = ''http://localhost:'' @ port @ ''/''"

text \<open>The event is published and its first delivery looked up.\<close>

definition queued_delivery :: "settings \<Rightarrow> (payload \<Rightarrow> payload) \<Rightarrow> demo_io \<Rightarrow> string \<Rightarrow> payload \<Rightarrow> uuid script" where
  "queued_delivery st jsonb io key payload =
     and_then (post_event st jsonb (di_event io) (di_post_now io) key order_created payload None) (\<lambda>(event_id, _).
     and_then (fetch_event (di_get_now io) key event_id) (\<lambda>event_detail.
     case ed_deliveries event_detail of [] \<Rightarrow> exit_failed | x # _ \<Rightarrow> done_with (dr_id x)))"

definition demo_opening ::
  "fernet_enc \<Rightarrow> settings \<Rightarrow> (payload \<Rightarrow> payload) \<Rightarrow> demo_io \<Rightarrow> string \<Rightarrow> string \<Rightarrow> payload \<Rightarrow> (string \<times> uuid) script" where
  "demo_opening fenc st jsonb io name_prefix port payload =
     and_then (setup_project (di_setup io) name_prefix) (\<lambda>(_, key).
     and_then (demo_create_endpoint fenc st (di_endpoint io) key (receiver_url port) [order_created]) (\<lambda>_.
     and_then (queued_delivery st jsonb io key payload) (\<lambda>i. done_with (key, i))))"

fun watch_dead_lettered :: "glance list \<Rightarrow> string \<Rightarrow> uuid \<Rightarrow> int \<Rightarrow> unit script" where
  "watch_dead_lettered [] key i seen_count = exit_failed"
| "watch_dead_lettered (g # gs) key i seen_count =
     and_then (meanwhile (gl_others g)) (\<lambda>_.
     and_then (fetch_delivery (gl_now g) key i) (\<lambda>x.
     and_then (if seen_count < dr_attempt_count x
               then and_then (meanwhile (gl_list_others g)) (\<lambda>_. and_then (list_attempts (gl_list_now g) key i) (\<lambda>_. done_with ()))
               else done_with ()) (\<lambda>_.
     if dr_status x = Dead_lettered then done_with ()
     else watch_dead_lettered gs key i (max seen_count (dr_attempt_count x)))))"

text \<open>The last look at the delivery and its attempts.\<close>

definition final_state :: "demo_io \<Rightarrow> string \<Rightarrow> uuid \<Rightarrow> (delivery_response \<times> attempt_response list) script" where
  "final_state io key i =
     and_then (meanwhile (di_others io 0)) (\<lambda>_.
     and_then (fetch_delivery (di_now io 0) key i) (\<lambda>x.
     and_then (meanwhile (di_others io 1)) (\<lambda>_.
     and_then (list_attempts (di_now io 1) key i) (\<lambda>attempts. done_with (x, attempts)))))"

section \<open>The scripts\<close>

definition scenario_1_checks :: "settings \<Rightarrow> delivery_response \<times> attempt_response list \<Rightarrow> unit script" where
  "scenario_1_checks st = (\<lambda>(x, attempts).
     let max_attempts = max_delivery_attempts (worker_demo_env st) in
     and_then (ensure (dr_status x = Dead_lettered) ''expected dead_lettered'') (\<lambda>_.
     and_then (ensure (dr_attempt_count x = max_attempts) ''expected attempts'') (\<lambda>_.
     and_then (ensure (int (length attempts) = max_attempts) ''expected attempt rows'') (\<lambda>_.
     ensure (list_all (\<lambda>a. ar_response_status a = Some 500) attempts) ''not all attempts returned 500''))))"

definition scenario_1 :: "fernet_enc \<Rightarrow> settings \<Rightarrow> (payload \<Rightarrow> payload) \<Rightarrow> demo_io \<Rightarrow> unit script" where
  "scenario_1 fenc st jsonb io =
     and_then (demo_opening fenc st jsonb io ''demo-s1'' ''8891'' (order_payload ''ord-001'' 99)) (\<lambda>(key, i).
     and_then (watch_dead_lettered (di_watch io) key i 0) (\<lambda>_.
     and_then (final_state io key i) (scenario_1_checks st)))"

definition scenario_2_checks :: "settings \<Rightarrow> delivery_response \<times> attempt_response list \<Rightarrow> unit script" where
  "scenario_2_checks st = (\<lambda>(x, attempts).
     let max_attempts = max_delivery_attempts (worker_demo_env st) in
     and_then (ensure (dr_status x = Succeeded) ''expected succeeded'') (\<lambda>_.
     and_then (ensure (dr_attempt_count x = max_attempts + 1) ''expected total attempts'') (\<lambda>_.
     and_then (ensure (int (length attempts) = max_attempts + 1) ''attempt rows'') (\<lambda>_.
     and_then (ensure (int (length (filter (\<lambda>a. ar_response_status a \<noteq> Some 200) attempts)) = max_attempts) ''failed attempts'') (\<lambda>_.
     ensure (length (filter (\<lambda>a. ar_response_status a = Some 200) attempts) = 1) ''success attempts'')))))"

definition scenario_2 :: "fernet_enc \<Rightarrow> settings \<Rightarrow> (payload \<Rightarrow> payload) \<Rightarrow> demo_io \<Rightarrow> unit script" where
  "scenario_2 fenc st jsonb io =
     and_then (demo_opening fenc st jsonb io ''demo-s2'' ''8892'' (order_payload ''ord-002'' 50)) (\<lambda>(key, i).
     and_then (watch_dead_lettered (di_watch io) key i 0) (\<lambda>_.
     and_then (meanwhile (di_others io 2)) (\<lambda>_.
     and_then (do_redrive (di_redrive_auth_now io) (di_redrive_now io) key i) (\<lambda>redriven.
     and_then (ensure (dr_status redriven = Pending) ''expected pending after redrive'') (\<lambda>_.
     and_then (wait_for_status (di_wait io) key i Succeeded) (\<lambda>_.
     and_then (final_state io key i) (scenario_2_checks st)))))))"

text \<open>
  The worker runs for a while, is killed, and the delivery is looked up; \<open>exited\<close> is whether it had exited by itself.
\<close>

definition scenario_4 :: "fernet_enc \<Rightarrow> settings \<Rightarrow> (payload \<Rightarrow> payload) \<Rightarrow> demo_io \<Rightarrow> bool \<Rightarrow> unit script" where
  "scenario_4 fenc st jsonb io exited =
     and_then (demo_opening fenc st jsonb io ''demo-s4'' ''8894'' (order_payload ''ord-004'' 120)) (\<lambda>(key, i).
     if exited then exit_failed else
     and_then (meanwhile (di_others io 2)) (\<lambda>_.
     and_then (fetch_delivery (di_now io 2) key i) (\<lambda>d.
     if dr_status d = Succeeded then and_then (list_attempts (di_now io 3) key i) (\<lambda>_. done_with ()) else
     and_then (ensure (dr_status d \<in> {Pending, In_flight}) ''unexpected status after crash'') (\<lambda>_.
     and_then (wait_for_status (di_wait io) key i Succeeded) (\<lambda>_.
     and_then (final_state io key i) (\<lambda>(x, attempts).
     and_then (ensure (dr_status x = Succeeded) ''succeeded'') (\<lambda>_.
     ensure (1 \<le> dr_attempt_count x) ''attempt count'')))))))"

section \<open>Opening\<close>

lemma receiver_urls:
  assumes "port \<in> {''8891'', ''8892'', ''8894''}"
  shows "validate_url_not_ssrf (receiver_url port) = Inr ()" "guard_url (receiver_url port) = Inr ()"
    "length (receiver_url port) \<le> 2048" "CHR 0x00 \<notin> set (receiver_url port)"
proof -
  have "url_hostname (receiver_url ''8891'') = Some ''localhost''" "url_hostname (receiver_url ''8892'') = Some ''localhost''"
      "url_hostname (receiver_url ''8894'') = Some ''localhost''" "ip_address ''localhost'' = None"
    by code_simp+
  then show pass: "validate_url_not_ssrf (receiver_url port) = Inr ()"
    using assms validate_hostname by auto
  then show "guard_url (receiver_url port) = Inr ()"
    by (simp add: guard_url_def)
  show "length (receiver_url port) \<le> 2048" "CHR 0x00 \<notin> set (receiver_url port)"
    using assms by (auto simp: receiver_url_def)
qed

lemma order_sizes:
  "length (encode (dumps_compact (JObj (order_payload ''ord-001'' 99)))) \<le> 35"
  "length (encode (dumps_compact (JObj (order_payload ''ord-002'' 50)))) \<le> 35"
  "length (encode (dumps_compact (JObj (order_payload ''ord-004'' 120)))) \<le> 35"
  by code_simp+

text \<open>The script's rows are new; its delivery is the one for its endpoint.\<close>

definition demo_delivery :: "demo_io \<Rightarrow> uuid" where
  "demo_delivery io = in_delivery_id (di_event io) (eo_id (di_endpoint io))"

definition room_for_demo :: "demo_io \<Rightarrow> string \<Rightarrow> db \<Rightarrow> bool" where
  "room_for_demo io pre d \<longleftrightarrow> 0 \<le> su_time (di_setup io) \<and> su_time (di_setup io) < 10 ^ 20
     \<and> room_for_client (di_setup io) (setup_name (di_setup io) pre) (di_endpoint io) d
     \<and> in_event_id (di_event io) \<notin> ev_id ` set (events d) \<and> demo_delivery io \<notin> dl_id ` set (deliveries d)"

lemma demo_opened:
  assumes "platform_ok d" "keys_ok d" "fks_ok d" "room_for_demo io pre d" "length pre \<le> 200" "CHR 0x00 \<notin> set pre"
    and "port \<in> {''8891'', ''8892'', ''8894''}" "length (encode (dumps_compact (JObj pl))) \<le> 35" "\<not> json_has_nul (JObj pl)"
    and "35 \<le> max_event_payload_bytes st"
  obtains key d' where "demo_opening fenc st jsonb io pre port pl d = (Inr (key, demo_delivery io), d')"
    and "story cf wst key (su_project (di_setup io)) 0 (demo_delivery io) d'"
proof -
  let ?su = "di_setup io" and ?p = "su_project (di_setup io)" and ?i = "demo_delivery io"
  have room: "0 \<le> su_time ?su" "su_time ?su < 10 ^ 20" "room_for_client ?su (setup_name ?su pre) (di_endpoint io) d"
      "in_event_id (di_event io) \<notin> ev_id ` set (events d)" "?i \<notin> dl_id ` set (deliveries d)"
    using assms(4) by (simp_all add: room_for_demo_def)
  have texts: "''demo'' \<noteq> []" "length ''demo'' \<le> 255" "CHR 0x00 \<notin> set ''demo''"
    by simp_all
  note url = receiver_urls [OF assms(7)]
  obtain key d1 r d2 e where one: "signed_up ?su (setup_name ?su pre) ''demo'' d = (Inr (?p, key), d1)"
      "demo_create_endpoint fenc st (di_endpoint io) key (receiver_url port) [order_created] d1 = (Inr r, d2)" "signed_in key ?p d2"
      "fan_out_targets ?p order_created d2 = [e]" "ep_id e = eo_id (di_endpoint io)" "?p \<in> pj_id ` set (projects d2)"
      "?p \<notin> ir_project ` set (idem_records d2)"
    and same: "events d2 = events d" "deliveries d2 = deliveries d" "attempts d2 = attempts d" "idem_records d2 = idem_records d"
    and registered: "find_endpoint (eo_id (di_endpoint io)) d2 = Some e" "ep_project e = ?p" "ep_url e = receiver_url port"
    by (rule client_ready [OF assms(2,3) room(3) setup_name_ok [OF room(1,2) assms(5,6)] texts url(2-4) scenario_texts(4,5)])
  have ok2: "platform_ok d2"
    using assms(1) same same_pipeline_ok by (simp add: same_pipeline_def)
  have fresh: "in_event_id (di_event io) \<notin> ev_id ` set (events d2)" "in_delivery_id (di_event io) (ep_id e) \<notin> dl_id ` set (deliveries d2)"
      "dl_event ` set (deliveries d2) \<subseteq> ev_id ` set (events d2)"
    using room(4,5) assms(3) same one(5) by (simp_all add: demo_delivery_def fks_ok_def)
  have payload: "event_create_ok st order_created pl" "event_storable order_created pl None"
    using scenario_texts(4,5) assms(8-10) by (simp_all add: event_create_ok_def event_storable_def) (simp_all add: order_created_def ucode_def)
  obtain d3 where two: "post_event st jsonb (di_event io) (di_post_now io) key order_created pl None d2 = (Inr (in_event_id (di_event io), 1), d3)"
      "signed_in key ?p d3" "same_but_keys (stored jsonb (di_event io) ?p order_created pl None e d2) d3"
    by (rule event_posted [OF one(3,4,6) fresh(1,2) _ payload]) simp
  obtain detail where three: "fetch_event (di_get_now io) key (in_event_id (di_event io)) d3 = (Inr detail, after_use key (di_get_now io) d3)"
      "ed_deliveries detail = [delivery_view (new_delivery (di_event io) e)]"
    by (rule detail_fetched [OF fresh(1,3) two(3,2)])
  let ?d4 = "after_use key (di_get_now io) d3" and ?x = "new_delivery (di_event io) e"
  note use = authorized_signed_in [OF two(2), of "di_get_now io"]
  have "platform_ok d3"
    using post_keeps_ok [OF two(1) ok2] .
  then have ok: "platform_ok ?d4"
    using use(3) same_pipeline_ok by (simp add: same_but_keys_def same_pipeline_def)
  have tables: "deliveries ?d4 = deliveries d2 @ [?x]" "endpoints ?d4 = endpoints d2" "attempts ?d4 = attempts d2"
    using use(3) two(3) by (simp_all add: same_but_keys_def stored_tables stored_def insert_event_def)
  have id: "dl_id ?x = ?i" "dl_endpoint ?x = eo_id (di_endpoint io)" "dl_attempt_count ?x = 0" "dl_status ?x = Pending"
    using one(5) by (simp_all add: new_delivery_def demo_delivery_def)
  have row: "find_delivery ?i ?d4 = Some ?x"
    using room(5) same(2) id(1) by (simp add: find_delivery_def tables find_pk_append find_pk_None [THEN iffD2])
  have endpoint: "find_endpoint (dl_endpoint ?x) ?d4 = Some e"
    using registered(1) id(2) by (simp add: find_endpoint_def tables)
  have "\<forall>a \<in> set (attempts ?d4). at_delivery a \<noteq> ?i"
    using ok2 room(5) same(2,3) unfolding platform_ok_def attempts_owned_def tables by (metis imageI subsetD)
  then have "attempts_of ?i ?d4 = []"
    by (simp add: attempts_of_def filter_empty_conv)
  then have "row_told cf wst 0 ?i ?d4"
    using row endpoint url(1) registered(3) id(3,4) unfolding row_told_def
    by (intro exI [of _ ?x] exI [of _ e] exI [of _ 0]) (simp add: standing_def)
  then have "story cf wst key ?p 0 ?i ?d4"
    using ok use(2) row endpoint registered(2) by (simp add: story_def delivery_project_def)
  moreover have "demo_opening fenc st jsonb io pre port pl d = (Inr (key, ?i), ?d4)"
    using id(1) three(2)
    by (simp add: demo_opening_def queued_delivery_def setup_project_def and_then_def one(1,2) two(1) three(1) done_with_def)
       (simp add: delivery_view_def)
  ultimately show thesis
    by (rule that [rotated])
qed

section \<open>Watching and the last look\<close>

text \<open>
  A watch that gives up has read the delivery one last time, at \<open>dr\<close>, still queued; after that only its attempts
  may have been read.
\<close>

definition gave_up :: "glance list \<Rightarrow> uuid \<Rightarrow> (delivery \<Rightarrow> db \<Rightarrow> bool) \<Rightarrow> db \<Rightarrow> bool" where
  "gave_up gs i Q d \<longleftrightarrow> gs = [] \<or> (\<exists>key dr y. find_delivery i dr = Some y \<and> dl_status y \<noteq> Dead_lettered \<and> Q y dr
     \<and> (d = dr \<or> d = after_use key (gl_list_now (last gs)) (gl_list_others (last gs) dr)))"

lemma watch_outcome:
  assumes "story cf st key p r i d" "\<not> rv_verify cf"
    and "\<forall>g \<in> set gs. busy fdec st env rp cf i (gl_others g) \<and> busy fdec st env rp cf i (gl_list_others g)"
  shows "\<exists>res d'. watch_dead_lettered gs key i seen_count d = (res, d') \<and> story cf st key p r i d'
    \<and> (case res of Inr _ \<Rightarrow> \<exists>n x. stands cf st p r i n x d' \<and> dl_status x = Dead_lettered
        | Inl e \<Rightarrow> e = System_exit 1 \<and> gave_up gs i (\<lambda>y dr. \<exists>n. stands cf st p r i n y dr) d')"
  using assms(1,3)
proof (induction gs arbitrary: d seen_count)
  case Nil
  then show ?case
    by (simp add: exit_failed_def gave_up_def)
next
  case (Cons g gs)
  have busy: "busy fdec st env rp cf i (gl_others g)" "busy fdec st env rp cf i (gl_list_others g)"
    using Cons.prems(2) by simp_all
  note before = busy_story(1) [OF busy(1) Cons.prems(1) assms(2)]
  obtain n x where x: "stands cf st p r i n x (gl_others g d)"
    using story_stands [OF before] .
  obtain d1 where one: "fetch_delivery (gl_now g) key i (gl_others g d) = (Inr (delivery_view x), d1)" "story cf st key p r i d1" "stands cf st p r i n x d1"
    by (rule fetch_stands [OF before x])
  note later = busy_story [OF busy(2) one(2) assms(2)]
  obtain n' x' where x': "stands cf st p r i n' x' (gl_list_others g d1)"
    using story_stands [OF later(1)] .
  obtain as where listed: "list_attempts (gl_list_now g) key i (gl_list_others g d1) = (Inr as, after_use key (gl_list_now g) (gl_list_others g d1))"
      "story cf st key p r i (after_use key (gl_list_now g) (gl_list_others g d1))"
    by (rule list_stands [OF later(1) x', of "gl_list_now g"]) auto
  define d2 where "d2 = (if seen_count < dl_attempt_count x then after_use key (gl_list_now g) (gl_list_others g d1) else d1)"
  have two: "story cf st key p r i d2"
    using one(2) listed(2) by (simp add: d2_def)
  have view: "dr_status (delivery_view x) = dl_status x" "dr_attempt_count (delivery_view x) = dl_attempt_count x"
    by (simp_all add: delivery_view_def)
  have step: "watch_dead_lettered (g # gs) key i seen_count d = (if dl_status x = Dead_lettered then (Inr (), d2)
      else watch_dead_lettered gs key i (max seen_count (dl_attempt_count x)) d2)"
    by (simp add: and_then_def meanwhile_def one(1) listed(1) view d2_def done_with_def)
  show ?case
  proof (cases "dl_status x = Dead_lettered")
    case True
    then have kept: "stands cf st p r i n x (gl_list_others g d1)"
      using later(2) one(3) by simp
    have "stands cf st p r i n x d2"
    proof (cases "seen_count < dl_attempt_count x")
      case True
      have "signed_in key p (gl_list_others g d1)"
        using later(1) by (simp add: story_def)
      note use = authorized_signed_in [OF this, of "gl_list_now g"]
      show ?thesis
        using story_keeps(2) [OF later(1) use(3,2)] kept True by (simp add: d2_def)
    qed (simp add: d2_def one(3))
    then show ?thesis
      using True two unfolding step by auto
  next
    case False
    show ?thesis
    proof (cases "gs = []")
      case True
      have "find_delivery i d1 = Some x"
        using one(3) by (simp add: stands_def)
      then have "gave_up [g] i (\<lambda>y dr. \<exists>n. stands cf st p r i n y dr) d2"
        using False one(3) unfolding gave_up_def d2_def by (intro disjI2 exI [of _ key] exI [of _ d1] exI [of _ x]) auto
      then show ?thesis
        using False True two unfolding step by (simp add: exit_failed_def)
    next
      case gs: False
      then have same: "gave_up (g # gs) i Q d' \<longleftrightarrow> gave_up gs i Q d'" for Q d'
        by (simp add: gave_up_def)
      show ?thesis
        using False Cons.IH [OF two] Cons.prems(2) unfolding step same by simp
    qed
  qed
qed

lemma final_outcome:
  assumes "story cf st key p r i d" "stands cf st p r i n x d" "dl_status x \<noteq> Pending" "\<not> rv_verify cf"
    and "busy fdec st env rp cf i (di_others io 0)" "busy fdec st env rp cf i (di_others io 1)"
  obtains as d' where "final_state io key i d = (Inr (delivery_view x, as), d')" "stands cf st p r i n x d'"
    and "map ar_response_status as = map (\<lambda>k. Some (nth_answer cf (k + 1))) [0..<n]"
proof -
  note one = busy_story [OF assms(5,1,4)]
  obtain d1 where d1: "fetch_delivery (di_now io 0) key i (di_others io 0 d) = (Inr (delivery_view x), d1)" "story cf st key p r i d1"
      "stands cf st p r i n x d1"
    by (rule fetch_stands [OF one(1) one(2) [OF assms(2,3)]])
  note two = busy_story [OF assms(6) d1(2) assms(4)]
  obtain as d2 where d2: "list_attempts (di_now io 1) key i (di_others io 1 d1) = (Inr as, d2)" "stands cf st p r i n x d2"
      "map ar_response_status as = map (\<lambda>k. Some (nth_answer cf (k + 1))) [0..<n]"
    by (rule list_stands [OF two(1) two(2) [OF d1(3) assms(3)], of "di_now io 1"]) auto
  then show thesis
    by (intro that [of as d2]) (simp_all add: final_state_def and_then_def meanwhile_def d1(1) d2(1) done_with_def)
qed

section \<open>How the deliveries stand\<close>

text \<open>A receiver that always fails, one that fails three times, and one that answers.\<close>

lemma failing_three_times:
  assumes "stands cf (worker_demo_env st) p 0 i n x d" "cf \<in> {start_receiver 500 0, start_receiver 200 3}"
  shows "n \<le> 3" "dl_status x = (if n = 3 then Dead_lettered else Pending)" "dl_attempt_count x = int n"
  using assms by (auto simp: stands_def standing_def nth_answer_def start_receiver_def worker_demo_env_def split: if_splits)

lemma redriven_after_three:
  assumes "stands (start_receiver 200 3) (worker_demo_env st) p 3 i n x d"
  shows "n = 3 \<and> dl_status x = Pending \<or> n = 4 \<and> dl_status x = Succeeded" "dl_attempt_count x = int n"
proof -
  have "3 \<le> n" "3 < n \<longrightarrow> standing (start_receiver 200 3) (worker_demo_env st) 3 (n - 1) = Pending"
    and status: "dl_status x = standing (start_receiver 200 3) (worker_demo_env st) 3 n" "dl_attempt_count x = int n"
    using assms by (simp_all add: stands_def)
  then have "n = 3 \<or> n = 4"
    by (auto simp: standing_def nth_answer_def start_receiver_def worker_demo_env_def split: if_splits)
  then show "n = 3 \<and> dl_status x = Pending \<or> n = 4 \<and> dl_status x = Succeeded" "dl_attempt_count x = int n"
    using status by (auto simp: standing_def nth_answer_def start_receiver_def)
qed

lemma answering:
  assumes "stands (start_receiver 200 0) (worker_demo_env st) p 0 i n x d"
  shows "n = 0 \<and> dl_status x = Pending \<or> n = 1 \<and> dl_status x = Succeeded" "dl_attempt_count x = int n"
  using assms by (auto simp: stands_def standing_def nth_answer_def start_receiver_def split: if_splits)

lemma answers_listed:
  "map (\<lambda>k. Some (nth_answer (start_receiver 500 0) (k + 1))) [0..<3] = [Some 500, Some 500, Some 500]"
  "map (\<lambda>k. Some (nth_answer (start_receiver 200 3) (k + 1))) [0..<4] = [Some 500, Some 500, Some 500, Some 200]"
  by (simp_all add: upt_rec nth_answer_def start_receiver_def)

lemma never_verified: "\<not> rv_verify (start_receiver status fail_count)"
  by (simp add: start_receiver_def)

text \<open>The ticks between the requests, under the settings of the demo's worker.\<close>

definition ticks_only ::
  "fernet_dec \<Rightarrow> settings \<Rightarrow> worker_env \<Rightarrow> (json \<Rightarrow> utext) \<Rightarrow> receiver_config \<Rightarrow> demo_io \<Rightarrow> bool" where
  "ticks_only fdec st env rp cf io \<longleftrightarrow>
     (\<forall>g \<in> set (di_watch io). busy fdec (worker_demo_env st) env rp cf (demo_delivery io) (gl_others g)
        \<and> busy fdec (worker_demo_env st) env rp cf (demo_delivery io) (gl_list_others g))
     \<and> (\<forall>(now, f) \<in> set (di_wait io). busy fdec (worker_demo_env st) env rp cf (demo_delivery io) f)
     \<and> (\<forall>k. busy fdec (worker_demo_env st) env rp cf (demo_delivery io) (di_others io k))"

lemma watch_three:
  assumes "story cf (worker_demo_env st) key p 0 (demo_delivery io) d" "cf \<in> {start_receiver 500 0, start_receiver 200 3}"
    and "ticks_only fdec st env rp cf io"
  obtains (passed) d' x where "watch_dead_lettered (di_watch io) key (demo_delivery io) 0 d = (Inr (), d')"
      "story cf (worker_demo_env st) key p 0 (demo_delivery io) d'"
      "stands cf (worker_demo_env st) p 0 (demo_delivery io) 3 x d'" "dl_status x = Dead_lettered" "dl_attempt_count x = 3"
    | (failed) d' where "watch_dead_lettered (di_watch io) key (demo_delivery io) 0 d = (Inl (System_exit 1), d')"
      "gave_up (di_watch io) (demo_delivery io) (\<lambda>y dr. dl_status y = Pending \<and> dl_attempt_count y < 3) d'"
proof -
  let ?st = "worker_demo_env st" and ?i = "demo_delivery io"
  have plain: "\<not> rv_verify cf"
    using assms(2) by (auto simp: start_receiver_def)
  obtain res d2 where two: "watch_dead_lettered (di_watch io) key ?i 0 d = (res, d2)" "story cf ?st key p 0 ?i d2"
    and outcome: "case res of Inr _ \<Rightarrow> \<exists>n x. stands cf ?st p 0 ?i n x d2 \<and> dl_status x = Dead_lettered
        | Inl e \<Rightarrow> e = System_exit 1 \<and> gave_up (di_watch io) ?i (\<lambda>y dr. \<exists>n. stands cf ?st p 0 ?i n y dr) d2"
    using watch_outcome [OF assms(1) plain, of "di_watch io" fdec env rp 0] assms(3) by (auto simp: ticks_only_def)
  show thesis
  proof (cases res)
    case (Inl e)
    have "dl_status y = Pending \<and> dl_attempt_count y < 3" if "stands cf ?st p 0 ?i n y dr" "dl_status y \<noteq> Dead_lettered" for n y dr
      using failing_three_times [OF that(1) assms(2)] that(2) by (auto split: if_splits)
    then have "gave_up (di_watch io) ?i (\<lambda>y dr. dl_status y = Pending \<and> dl_attempt_count y < 3) d2"
      using outcome Inl unfolding gave_up_def by fastforce
    then show thesis
      using outcome Inl two(1) failed by simp
  next
    case (Inr u)
    then obtain n x where read: "stands cf ?st p 0 ?i n x d2" "dl_status x = Dead_lettered"
      using outcome by auto
    then have "n = 3" "dl_attempt_count x = int n"
      using failing_three_times [OF read(1) assms(2)] by (simp_all split: if_splits)
    then show thesis
      using passed [of d2 x] two read Inr by simp
  qed
qed

lemma order_texts: "\<not> json_has_nul (JObj (order_payload ''ord-001'' 99))" "\<not> json_has_nul (JObj (order_payload ''ord-002'' 50))"
  "\<not> json_has_nul (JObj (order_payload ''ord-004'' 120))"
  by (simp_all add: order_payload_def ucode_def)

lemma demo_names:
  "length ''demo-s1'' \<le> 200" "CHR 0x00 \<notin> set ''demo-s1''" "''8891'' \<in> {''8891'', ''8892'', ''8894''}"
  "length ''demo-s2'' \<le> 200" "CHR 0x00 \<notin> set ''demo-s2''" "''8892'' \<in> {''8891'', ''8892'', ''8894''}"
  "length ''demo-s4'' \<le> 200" "CHR 0x00 \<notin> set ''demo-s4''" "''8894'' \<in> {''8891'', ''8892'', ''8894''}"
  by simp_all

lemma checks_1_pass:
  assumes "dl_status x = Dead_lettered" "dl_attempt_count x = 3" "map ar_response_status as = [Some 500, Some 500, Some 500]"
  shows "scenario_1_checks st (delivery_view x, as) = done_with ()"
proof -
  have "length as = 3" "list_all (\<lambda>a. ar_response_status a = Some 500) as"
    using arg_cong [OF assms(3), of length] assms(3) by (auto simp: map_eq_Cons_conv)
  then show ?thesis
    using assms(1,2) by (simp add: scenario_1_checks_def worker_demo_env_def delivery_view_def) (simp add: ensure_def done_with_def)
qed

section \<open>A platform with one worker\<close>

text \<open>A worker that makes one tick at a time, against the receiver of the demo, on a platform that was empty.\<close>

definition sample_server :: "receiver_config \<Rightarrow> uuid \<Rightarrow> db \<Rightarrow> db" where
  "sample_server cf i d =
     s_db (fst (worker_tick sample_dec (worker_demo_env default_settings) sample_env None
       (sample_tick\<lparr>tk_attempts := (\<lambda>j. sample_io\<lparr>io_attempt_id := of_nat (length (attempts d)),
           io_outcome := Http_response (nth_answer cf (length (attempts_of i d) + 1)) []\<rparr>)\<rparr>)
       ((sample_sess [])\<lparr>s_db := d\<rparr>)))"

lemma sample_server_busy:
  assumes "\<not> rv_verify cf"
  shows "busy sample_dec (worker_demo_env default_settings) sample_env rp cf i (sample_server cf i)"
  unfolding busy_def
proof
  fix d
  let ?rq = "\<lparr> tq_signature = None, tq_body = [], tq_doc = Not_json, tq_clock = 0 \<rparr>"
  let ?io = "sample_tick\<lparr>tk_attempts := (\<lambda>j. sample_io\<lparr>io_attempt_id := of_nat (length (attempts d)),
           io_outcome := Http_response (nth_answer cf (length (attempts_of i d) + 1)) []\<rparr>)\<rparr>"
  let ?s = "(sample_sess [])\<lparr>s_db := d\<rparr>"
  obtain s' n where tick: "worker_tick sample_dec (worker_demo_env default_settings) sample_env None ?io ?s = (s', n)"
    by fastforce
  have "served rp cf i (s_db ?s) ?io"
    using receiver_nth [OF assms, of ?rq rp "length (attempts_of i d)"] by (auto simp: served_def intro!: exI [of _ ?rq])
  then have "served_tick sample_dec (worker_demo_env default_settings) sample_env rp cf i (s_db ?s) (s_db s')"
    by (rule served_tick.tick [OF tick])
  then show "(served_tick sample_dec (worker_demo_env default_settings) sample_env rp cf i)\<^sup>*\<^sup>* d (sample_server cf i d)"
    using tick by (simp add: sample_server_def r_into_rtranclp)
qed

definition sample_demo :: "receiver_config \<Rightarrow> demo_io" where
  "sample_demo cf =
     (let server = sample_server cf (in_delivery_id sample_in 3) in
      \<lparr> di_setup = si_setup sample_scenario, di_endpoint = si_endpoint sample_scenario, di_event = sample_in,
        di_post_now = 3, di_get_now = 4,
        di_watch = map (\<lambda>k. \<lparr> gl_others = server, gl_now = int k, gl_list_others = server, gl_list_now = int k \<rparr>) [5..<15],
        di_redrive_auth_now = 16, di_redrive_now = 17, di_wait = map (\<lambda>k. (int k, server)) [18..<28],
        di_others = (\<lambda>k. server), di_now = (\<lambda>k. 30) \<rparr>)"

lemma sample_demo_ready:
  assumes "\<not> rv_verify cf"
  shows "ticks_only sample_dec default_settings sample_env rp cf (sample_demo cf)" "room_for_demo (sample_demo cf) pre empty_db"
    "keys_ok empty_db" "fks_ok empty_db" "platform_ok empty_db" "35 \<le> max_event_payload_bytes default_settings"
    "di_watch (sample_demo cf) \<noteq> []"
proof -
  have "demo_delivery (sample_demo cf) = in_delivery_id sample_in 3"
    by (simp add: demo_delivery_def sample_demo_def sample_scenario_def Let_def)
  then show "ticks_only sample_dec default_settings sample_env rp cf (sample_demo cf)"
    using sample_server_busy [OF assms, of rp "in_delivery_id sample_in 3"] by (auto simp: ticks_only_def sample_demo_def Let_def)
  show "room_for_demo (sample_demo cf) pre empty_db"
    by (simp add: room_for_demo_def room_for_client_def empty_db_def sample_demo_def sample_scenario_def Let_def)
  show "keys_ok empty_db" "fks_ok empty_db"
    by (simp_all add: keys_ok_def fks_ok_def project_table.keys_ok_def api_key_table.keys_ok_def
        endpoint_table.keys_ok_def event_table.keys_ok_def delivery_table.keys_ok_def idem_table.keys_ok_def empty_db_def)
  show "platform_ok empty_db"
    using platform.inv_init by (auto simp: fresh_platform_def)
qed (simp_all add: default_settings_def sample_demo_def Let_def)

section \<open>Properties\<close>



lemma checks_2_pass:
  assumes "dl_status x = Succeeded" "dl_attempt_count x = 4" "map ar_response_status as = [Some 500, Some 500, Some 500, Some 200]"
  shows "scenario_2_checks st (delivery_view x, as) = done_with ()"
proof -
  obtain a b c e where as: "as = [a, b, c, e]"
    using assms(3) by (auto simp: map_eq_Cons_conv)
  then show ?thesis
    using assms by (simp add: scenario_2_checks_def worker_demo_env_def delivery_view_def) (simp add: ensure_def done_with_def)
qed





end
