(* ===== verification/Watchdog.thy ===== *)
theory Watchdog
  imports Showcase_Routes
begin

text \<open>
  The idle watchdog (\<^verbatim>\<open>app/services/idle_watchdog.py\<close>) and its client of the machines API
  (\<^verbatim>\<open>app/services/fly_machines.py\<close>). What the API answers is an argument; what is asked of it is the
  list of the paths posted to.
\<close>

section \<open>The machines client\<close>

definition machine_matches :: "string \<Rightarrow> bool \<Rightarrow> json \<Rightarrow> py_exc + bool" where
  "machine_matches process_group started machine =
     bind_exc (json_get machine ''config'' (JObj [])) (\<lambda>config.
     bind_exc (json_get config ''metadata'' (JObj [])) (\<lambda>metadata.
     bind_exc (json_get metadata ''fly_process_group'' JNull) (\<lambda>group.
       if group \<noteq> JStr (ucode process_group) then Inr False
       else bind_exc (json_get machine ''state'' JNull) (\<lambda>state.
         Inr ((state = JStr (ucode ''started'')) = started)))))"

fun matching_ids :: "string \<Rightarrow> bool \<Rightarrow> json list \<Rightarrow> py_exc + json list" where
  "matching_ids process_group started [] = Inr []"
| "matching_ids process_group started (machine # machines) =
     bind_exc (machine_matches process_group started machine) (\<lambda>m.
     bind_exc (if m then bind_exc (json_item machine ''id'') (\<lambda>i. Inr [i]) else Inr []) (\<lambda>ids.
     bind_exc (matching_ids process_group started machines) (\<lambda>rest. Inr (ids @ rest))))"

definition list_machine_ids :: "string \<Rightarrow> bool \<Rightarrow> producer_reply \<Rightarrow> py_exc + json list" where
  "list_machine_ids process_group started reply =
     (case reply_doc reply of
        None \<Rightarrow> Inr []
      | Some doc \<Rightarrow> bind_exc (iter_json doc) (\<lambda>machines. matching_ids process_group started machines))"

definition machine_path :: "(json \<Rightarrow> utext) \<Rightarrow> string \<Rightarrow> json \<Rightarrow> utext" where
  "machine_path rp verb machine_id = ucode ''machines/'' @ py_str rp machine_id @ ucode ''/'' @ ucode verb"

section \<open>The watchdog\<close>

definition process_groups :: "string list" where
  "process_groups = [''producer'', ''worker'']"

definition is_idle :: "time \<Rightarrow> time \<Rightarrow> rat \<Rightarrow> bool" where
  "is_idle last_seen_at now idle_threshold_minutes \<longleftrightarrow> timedelta_seconds (idle_threshold_minutes * 60) \<le> now - last_seen_at"

text \<open>Each group is listed and its machines posted to, in turn; a failing listing ends it.\<close>

fun run_groups ::
  "(json \<Rightarrow> utext) \<Rightarrow> string \<Rightarrow> bool \<Rightarrow> (string \<Rightarrow> producer_reply) \<Rightarrow> string list \<Rightarrow> utext list \<times> (py_exc + unit)" where
  "run_groups rp verb started listing [] = ([], Inr ())"
| "run_groups rp verb started listing (g # gs) =
     (case list_machine_ids g started (listing g) of
        Inl e \<Rightarrow> ([], Inl e)
      | Inr ids \<Rightarrow> (case run_groups rp verb started listing gs of (ps, r) \<Rightarrow> (map (machine_path rp verb) ids @ ps, r)))"

definition fly_configured :: "settings \<Rightarrow> bool" where
  "fly_configured st \<longleftrightarrow> fly_api_token st \<noteq> [] \<and> fly_app_name st \<noteq> []"

definition wake_showcase_machines ::
  "(json \<Rightarrow> utext) \<Rightarrow> settings \<Rightarrow> (string \<Rightarrow> producer_reply) \<Rightarrow> utext list \<times> (py_exc + unit)" where
  "wake_showcase_machines rp st listing =
     (if \<not> fly_configured st then ([], Inr ()) else run_groups rp ''start'' False listing process_groups)"

definition last_visitor_seen :: "settings \<Rightarrow> db \<Rightarrow> py_exc + time option" where
  "last_visitor_seen st d =
     bind_exc (resolve_showcase st d) (\<lambda>handles.
       Inr (case handles of None \<Rightarrow> None | Some h \<Rightarrow> get_last_visitor_seen (sh_project h) d))"

definition stop_if_idle ::
  "(json \<Rightarrow> utext) \<Rightarrow> settings \<Rightarrow> (string \<Rightarrow> producer_reply) \<Rightarrow> time \<Rightarrow> db \<Rightarrow> utext list \<times> (py_exc + unit)" where
  "stop_if_idle rp st listing now d =
     (case last_visitor_seen st d of
        Inl e \<Rightarrow> ([], Inl e)
      | Inr None \<Rightarrow> ([], Inr ())
      | Inr (Some t) \<Rightarrow>
          if is_idle t now (visitor_idle_minutes st) then run_groups rp ''stop'' True listing process_groups else ([], Inr ()))"

text \<open>One round of the endless loop: whatever the tick raises is logged and forgotten.\<close>

definition watchdog_round ::
  "(json \<Rightarrow> utext) \<Rightarrow> settings \<Rightarrow> (string \<Rightarrow> producer_reply) \<Rightarrow> time \<Rightarrow> db \<Rightarrow> utext list" where
  "watchdog_round rp st listing now d = fst (stop_if_idle rp st listing now d)"

text \<open>The application starts unless waking the machines raises.\<close>

definition app_starts :: "(json \<Rightarrow> utext) \<Rightarrow> settings \<Rightarrow> (string \<Rightarrow> producer_reply) \<Rightarrow> bool" where
  "app_starts rp st listing \<longleftrightarrow> snd (wake_showcase_machines rp st listing) = Inr ()"

section \<open>Facts\<close>

lemma last_seen_after_visit:
  assumes "record_visitor_activity h now db_now d = (Inr (), d')"
  shows "\<exists>t \<in> {now, db_now}. get_last_visitor_seen (sh_project h) d' = Some t"
proof -
  have touch: "touch_visitor_seen (sh_project h) now db_now d = Inr d'"
    using assms unfolding record_visitor_activity_def or_rollback_Inr by (auto simp: bind_exc_Inr)
  show ?thesis
  proof (cases "find_visitor (sh_project h) d = None")
    case True
    then show ?thesis
      using touch by (auto simp: touch_visitor_seen_def get_last_visitor_seen_def find_visitor_def find_pk_append split: if_splits)
  next
    case False
    then have "d' = d\<lparr>visitors := put_pk va_project \<lparr> va_project = sh_project h, va_last_seen_at = db_now \<rparr> (visitors d)\<rparr>"
      using touch by (auto simp: touch_visitor_seen_def split: if_splits)
    moreover have "sh_project h \<in> va_project ` set (visitors d)"
      using False by (simp add: find_visitor_def find_pk_None)
    ultimately show ?thesis
      using find_put_same [of va_project "\<lparr> va_project = sh_project h, va_last_seen_at = db_now \<rparr>" "visitors d"]
      by (simp add: get_last_visitor_seen_def find_visitor_def)
  qed
qed

text \<open>A machine without metadata, as JSON null, is an error the listing does not catch.\<close>

definition bare_machine :: "string \<Rightarrow> json" where
  "bare_machine i = JObj [(ucode ''id'', JStr (ucode i)), (ucode ''config'', JObj [(ucode ''metadata'', JNull)])]"

lemma list_bare_machine:
  assumes "reply_doc reply = Some (JArr (bare_machine i # ms))"
  shows "list_machine_ids g s reply = Inl AttributeError"
  using assms by (simp add: list_machine_ids_def iter_json_def machine_matches_def json_get_def bare_machine_def get_item_def)

lemma bare_machine_stops_start:
  assumes "fly_configured st" "reply_doc (listing ''producer'') = Some (JArr (bare_machine i # ms))"
  shows "\<not> app_starts rp st listing" "wake_showcase_machines rp st listing = ([], Inl AttributeError)"
  using assms by (simp_all add: app_starts_def wake_showcase_machines_def process_groups_def list_bare_machine)

text \<open>An API that answers an error, or does not answer, is harmless.\<close>

lemma failing_api_starts:
  assumes "reply_doc (listing ''producer'') = None" "reply_doc (listing ''worker'') = None"
  shows "wake_showcase_machines rp st listing = ([], Inr ())" "app_starts rp st listing"
  using assms by (simp_all add: app_starts_def wake_showcase_machines_def process_groups_def list_machine_ids_def)

section \<open>Properties\<close>

text \<open>C26: The watchdog stops no machine while a visitor is about: after a visit is recorded on the seeded project,
  no round within the configured minutes of it posts a stop, whatever the machines API answers; and without
  any recorded visit no round ever does.\<close>

theorem watchdog_spares_visitors:
  assumes "resolve_showcase st d' = Inr (Some h)"
    and "record_visitor_activity h now db_now d = (Inr (), d') \<or> get_last_visitor_seen (sh_project h) d' = None"
    and "later < min now db_now + timedelta_seconds (visitor_idle_minutes st * 60)"
  shows "watchdog_round rp st listing later d' = []"
proof (cases "get_last_visitor_seen (sh_project h) d'")
  case None
  then show ?thesis
    using assms(1) by (simp add: watchdog_round_def stop_if_idle_def last_visitor_seen_def)
next
  case (Some t)
  then have "t \<in> {now, db_now}"
    using assms(2) last_seen_after_visit [of h now db_now d d'] by auto
  then have "\<not> is_idle t later (visitor_idle_minutes st)"
    using assms(3) by (auto simp: is_idle_def)
  then show ?thesis
    using assms(1) Some by (simp add: watchdog_round_def stop_if_idle_def last_visitor_seen_def)
qed

theorem watchdog_spares_visitors_witness:
  "\<exists>h d d'. seed_showcase sample_enc default_settings sample_seed empty_db = Inr (h, d)
     \<and> record_visitor_activity h 200 200 d = (Inr (), d')
     \<and> resolve_showcase default_settings d' = Inr (Some h)
     \<and> watchdog_round (\<lambda>_. []) default_settings (\<lambda>_. Reply 200 Not_json) 300 d' = []"
proof -
  let ?h = "\<lparr> sh_project = 1, sh_receiver = 10, sh_discord = None, sh_bank_naive = 12, sh_bank_safe = 13 \<rparr>"
  obtain d where d: "seed_showcase sample_enc default_settings sample_seed empty_db = Inr (?h, d)"
    "endpoints_with is_discord 1 d = []" "visitors d = []" "1 \<in> pj_id ` set (projects d)"
    using sample_seeding by blast
  define d' where "d' = d\<lparr>visitors := [\<lparr> va_project = 1, va_last_seen_at = 200 \<rparr>]\<rparr>"
  have visit: "record_visitor_activity ?h 200 200 d = (Inr (), d')"
    using d(3,4) by (simp add: record_visitor_activity_def touch_visitor_seen_def find_visitor_def or_rollback_def d'_def)
  have frame: "named_projects default_settings d' = named_projects default_settings d"
    "endpoints_with P p d' = endpoints_with P p d" for P p
    by (simp_all add: d'_def named_projects_def endpoints_with_def)
  have "seeded default_settings ?h d"
    using seed_showcase_seeded [OF d(1)] by (simp add: empty_db_def)
  then have found: "resolve_showcase default_settings d' = Inr (Some ?h)"
    using seeded_resolves [of default_settings ?h d] d(2) unfolding resolve_showcase_def frame by simp
  have "watchdog_round (\<lambda>_. []) default_settings (\<lambda>_. Reply 200 Not_json) 300 d' = []"
    using visit watchdog_spares_visitors [OF found, of 200 200 d 300 "\<lambda>_. []" "\<lambda>_. Reply 200 Not_json"]
    by (simp add: timedelta_seconds_def default_settings_def round_half_even_def)
  then show ?thesis
    using d(1) visit found by blast
qed

end
