(* ===== verification/Schema.thy ===== *)
theory Schema
  imports Prelude
begin

text \<open>
  Database schemas and the operations of Alembic's \<^verbatim>\<open>op\<close> that the migrations use, with the checks
  PostgreSQL makes before it carries one out. Tables are taken to hold rows, so a column that is not
  nullable needs a default when it is added. Indexes share the namespace of tables and unique constraints.
\<close>

section \<open>Schemas\<close>

datatype sql_type =
    Sql_uuid | Sql_varchar nat | Sql_text | Sql_integer | Sql_float | Sql_boolean | Sql_timestamptz
  | Sql_jsonb | Sql_numeric nat nat | Sql_text_array | Sql_enum string

record column =
  cl_name :: string
  cl_type :: sql_type
  cl_nullable :: bool
  cl_default :: "string option"

record foreign_key =
  fk_name :: string
  fk_column :: string
  fk_table :: string
  fk_target :: string
  fk_cascade :: bool

record table_def =
  td_name :: string
  td_columns :: "column list"
  td_pk :: "string list"
  td_uniques :: "(string \<times> string list) list"
  td_fks :: "foreign_key list"

record index_def =
  ix_name :: string
  ix_table :: string
  ix_columns :: "string list"

record schema =
  sc_tables :: "table_def list"
  sc_indexes :: "index_def list"
  sc_types :: "(string \<times> string list) list"

definition empty_schema :: schema where
  "empty_schema = \<lparr> sc_tables = [], sc_indexes = [], sc_types = [] \<rparr>"

definition column_names :: "table_def \<Rightarrow> string list" where
  "column_names t = map cl_name (td_columns t)"

definition find_table :: "string \<Rightarrow> schema \<Rightarrow> table_def option" where
  "find_table n s = find (\<lambda>t. td_name t = n) (sc_tables s)"

definition relation_names :: "schema \<Rightarrow> string list" where
  "relation_names s = map td_name (sc_tables s) @ map ix_name (sc_indexes s) @ concat (map (map fst \<circ> td_uniques) (sc_tables s))"

section \<open>Operations\<close>

datatype migration_op =
    Create_table table_def
  | Drop_table string
  | Add_column string column
  | Drop_column string string
  | Create_index string string "string list"
  | Drop_index string string
  | Create_type string "string list"
  | Drop_type string

definition type_exists :: "schema \<Rightarrow> sql_type \<Rightarrow> bool" where
  "type_exists s ty = (case ty of Sql_enum n \<Rightarrow> n \<in> set (map fst (sc_types s)) | _ \<Rightarrow> True)"

text \<open>A foreign key refers to a column that is a key by itself.\<close>

definition reference_ok :: "schema \<Rightarrow> foreign_key \<Rightarrow> bool" where
  "reference_ok s f =
     (case find_table (fk_table f) s of
        None \<Rightarrow> False
      | Some t \<Rightarrow> td_pk t = [fk_target f] \<or> [fk_target f] \<in> set (map snd (td_uniques t)))"

definition table_ok :: "schema \<Rightarrow> table_def \<Rightarrow> bool" where
  "table_ok s t =
     (td_name t \<notin> set (relation_names s) \<and> distinct (column_names t)
      \<and> list_all (type_exists s \<circ> cl_type) (td_columns t)
      \<and> td_pk t \<noteq> [] \<and> list_all (\<lambda>c. c \<in> set (column_names t)) (td_pk t)
      \<and> list_all (\<lambda>(n, cs). n \<notin> set (relation_names s) \<and> n \<noteq> td_name t \<and> list_all (\<lambda>c. c \<in> set (column_names t)) cs) (td_uniques t)
      \<and> distinct (map fst (td_uniques t)) \<and> distinct (map fk_name (td_fks t))
      \<and> list_all (\<lambda>f. fk_column f \<in> set (column_names t) \<and> reference_ok s f) (td_fks t))"

definition referred_to :: "schema \<Rightarrow> string \<Rightarrow> bool" where
  "referred_to s n = list_ex (\<lambda>t. td_name t \<noteq> n \<and> list_ex (\<lambda>f. fk_table f = n) (td_fks t)) (sc_tables s)"

definition type_used :: "schema \<Rightarrow> string \<Rightarrow> bool" where
  "type_used s n = list_ex (\<lambda>t. list_ex (\<lambda>c. cl_type c = Sql_enum n) (td_columns t)) (sc_tables s)"

definition update_table :: "string \<Rightarrow> (table_def \<Rightarrow> table_def) \<Rightarrow> schema \<Rightarrow> schema" where
  "update_table n f s = s\<lparr>sc_tables := map (\<lambda>t. if td_name t = n then f t else t) (sc_tables s)\<rparr>"

text \<open>Dropping a column drops the keys, foreign keys and indexes it takes part in.\<close>

definition without_column :: "string \<Rightarrow> table_def \<Rightarrow> table_def" where
  "without_column c t =
     t\<lparr>td_columns := filter (\<lambda>x. cl_name x \<noteq> c) (td_columns t),
       td_pk := (if c \<in> set (td_pk t) then [] else td_pk t),
       td_uniques := filter (\<lambda>u. c \<notin> set (snd u)) (td_uniques t),
       td_fks := filter (\<lambda>f. fk_column f \<noteq> c) (td_fks t)\<rparr>"

fun apply_op :: "migration_op \<Rightarrow> schema \<Rightarrow> schema option" where
  "apply_op (Create_table t) s = (if table_ok s t then Some (s\<lparr>sc_tables := sc_tables s @ [t]\<rparr>) else None)"
| "apply_op (Drop_table n) s =
     (if find_table n s = None \<or> referred_to s n then None
      else Some (s\<lparr>sc_tables := filter (\<lambda>t. td_name t \<noteq> n) (sc_tables s),
                   sc_indexes := filter (\<lambda>i. ix_table i \<noteq> n) (sc_indexes s)\<rparr>))"
| "apply_op (Add_column n c) s =
     (case find_table n s of
        None \<Rightarrow> None
      | Some t \<Rightarrow>
          if cl_name c \<in> set (column_names t) \<or> \<not> type_exists s (cl_type c) \<or> \<not> (cl_nullable c \<or> cl_default c \<noteq> None) then None
          else Some (update_table n (\<lambda>t. t\<lparr>td_columns := td_columns t @ [c]\<rparr>) s))"
| "apply_op (Drop_column n c) s =
     (case find_table n s of
        None \<Rightarrow> None
      | Some t \<Rightarrow>
          if c \<notin> set (column_names t) \<or> list_ex (\<lambda>u. list_ex (\<lambda>f. fk_table f = n \<and> fk_target f = c) (td_fks u)) (sc_tables s) then None
          else Some ((update_table n (without_column c) s)
                 \<lparr>sc_indexes := filter (\<lambda>i. \<not> (ix_table i = n \<and> c \<in> set (ix_columns i))) (sc_indexes s)\<rparr>))"
| "apply_op (Create_index i n cs) s =
     (case find_table n s of
        None \<Rightarrow> None
      | Some t \<Rightarrow>
          if i \<in> set (relation_names s) \<or> cs = [] \<or> \<not> list_all (\<lambda>c. c \<in> set (column_names t)) cs then None
          else Some (s\<lparr>sc_indexes := sc_indexes s @ [\<lparr> ix_name = i, ix_table = n, ix_columns = cs \<rparr>]\<rparr>))"
| "apply_op (Drop_index i n) s =
     (if i \<notin> set (map ix_name (sc_indexes s)) then None
      else Some (s\<lparr>sc_indexes := filter (\<lambda>x. ix_name x \<noteq> i) (sc_indexes s)\<rparr>))"
| "apply_op (Create_type n ls) s =
     (if n \<in> set (map fst (sc_types s)) \<or> \<not> distinct ls then None else Some (s\<lparr>sc_types := sc_types s @ [(n, ls)]\<rparr>))"
| "apply_op (Drop_type n) s =
     (if n \<notin> set (map fst (sc_types s)) \<or> type_used s n then None
      else Some (s\<lparr>sc_types := filter (\<lambda>x. fst x \<noteq> n) (sc_types s)\<rparr>))"

fun run_ops :: "migration_op list \<Rightarrow> schema \<Rightarrow> schema option" where
  "run_ops [] s = Some s"
| "run_ops (x # xs) s = Option.bind (apply_op x s) (run_ops xs)"

section \<open>Histories\<close>

record migration =
  mg_revision :: string
  mg_down_revision :: "string option"
  mg_upgrade :: "migration_op list"
  mg_downgrade :: "migration_op list"

text \<open>The revisions in the order of their links, from the given one on; it stops at a fork or at a head.\<close>

fun history :: "nat \<Rightarrow> migration list \<Rightarrow> string option \<Rightarrow> migration list" where
  "history 0 ms r = []"
| "history (Suc n) ms r =
     (case filter (\<lambda>m. mg_down_revision m = r) ms of
        [m] \<Rightarrow> m # history n ms (Some (mg_revision m))
      | _ \<Rightarrow> [])"

fun upgrade_all :: "migration list \<Rightarrow> schema \<Rightarrow> schema option" where
  "upgrade_all [] s = Some s"
| "upgrade_all (m # ms) s = Option.bind (run_ops (mg_upgrade m) s) (upgrade_all ms)"

text \<open>Downgrading undoes the last revision first.\<close>

fun downgrade_all :: "migration list \<Rightarrow> schema \<Rightarrow> schema option" where
  "downgrade_all [] s = Some s"
| "downgrade_all (m # ms) s = Option.bind (downgrade_all ms s) (run_ops (mg_downgrade m))"

lemma upgrade_all_append: "upgrade_all (ms @ ms') s = Option.bind (upgrade_all ms s) (upgrade_all ms')"
  by (induction ms arbitrary: s) (auto split: bind_split)

fun reversible :: "migration list \<Rightarrow> schema \<Rightarrow> bool" where
  "reversible [] s \<longleftrightarrow> True"
| "reversible (m # ms) s \<longleftrightarrow>
     (case run_ops (mg_upgrade m) s of
        None \<Rightarrow> False
      | Some s1 \<Rightarrow> run_ops (mg_downgrade m) s1 = Some s \<and> reversible ms s1)"

text \<open>When each revision can be taken back, the whole history can.\<close>

lemma reversible_restores:
  "reversible ms s \<Longrightarrow> \<exists>s'. upgrade_all ms s = Some s' \<and> downgrade_all ms s' = Some s"
  by (induction ms s rule: reversible.induct) (fastforce split: option.splits)+

lemma reversible_append:
  "reversible (ms @ ms') s \<longleftrightarrow> reversible ms s \<and> (\<exists>s'. upgrade_all ms s = Some s' \<and> reversible ms' s')"
  by (induction ms arbitrary: s) (auto split: option.splits)

section \<open>Comparing with the models\<close>

text \<open>The models give neither server defaults nor names of constraints, so those are not compared.\<close>

definition column_view :: "column \<Rightarrow> string \<times> sql_type \<times> bool" where
  "column_view c = (cl_name c, cl_type c, cl_nullable c)"

definition fk_view :: "foreign_key \<Rightarrow> string \<times> string \<times> string \<times> bool" where
  "fk_view f = (fk_column f, fk_table f, fk_target f, fk_cascade f)"

definition same_elements :: "'a list \<Rightarrow> 'a list \<Rightarrow> bool" where
  "same_elements xs ys \<longleftrightarrow> list_all (\<lambda>x. x \<in> set ys) xs \<and> list_all (\<lambda>y. y \<in> set xs) ys"

definition same_table :: "table_def \<Rightarrow> table_def \<Rightarrow> bool" where
  "same_table t u \<longleftrightarrow> td_name t = td_name u
     \<and> same_elements (map column_view (td_columns t)) (map column_view (td_columns u))
     \<and> td_pk t = td_pk u
     \<and> same_elements (map snd (td_uniques t)) (map snd (td_uniques u))
     \<and> same_elements (map fk_view (td_fks t)) (map fk_view (td_fks u))"

definition same_tables :: "schema \<Rightarrow> schema \<Rightarrow> bool" where
  "same_tables s s' \<longleftrightarrow> length (sc_tables s) = length (sc_tables s')
     \<and> list_all (\<lambda>t. case find_table (td_name t) s' of None \<Rightarrow> False | Some u \<Rightarrow> same_table t u) (sc_tables s)"

end
