(* ===== verification/Migrations.thy ===== *)
theory Migrations
  imports Schema
begin

text \<open>
  The migrations of \<^verbatim>\<open>migrations/versions\<close>, one definition per file, and the schema that the classes of
  \<^verbatim>\<open>app/models\<close> declare. The properties run the migrations.
\<close>

definition column_of :: "string \<Rightarrow> sql_type \<Rightarrow> column" where
  "column_of n ty = \<lparr> cl_name = n, cl_type = ty, cl_nullable = False, cl_default = None \<rparr>"

definition nullable_column :: "string \<Rightarrow> sql_type \<Rightarrow> column" where
  "nullable_column n ty = \<lparr> cl_name = n, cl_type = ty, cl_nullable = True, cl_default = None \<rparr>"

definition default_column :: "string \<Rightarrow> sql_type \<Rightarrow> string \<Rightarrow> column" where
  "default_column n ty v = \<lparr> cl_name = n, cl_type = ty, cl_nullable = False, cl_default = Some v \<rparr>"

definition cascade_fk :: "string \<Rightarrow> string \<Rightarrow> string \<Rightarrow> string \<Rightarrow> foreign_key" where
  "cascade_fk n c t r = \<lparr> fk_name = n, fk_column = c, fk_table = t, fk_target = r, fk_cascade = True \<rparr>"

section \<open>The migrations\<close>

text \<open>\<^verbatim>\<open>4cfcf3406bef_initial_empty_migration.py\<close>\<close>

definition revision_4cfcf3406bef :: migration where
  "revision_4cfcf3406bef =
   \<lparr> mg_revision = ''4cfcf3406bef'', mg_down_revision = None,
     mg_upgrade =
      [],
     mg_downgrade =
      [] \<rparr>"

text \<open>\<^verbatim>\<open>3a8f1c2d4e9b_add_projects_and_api_keys.py\<close>\<close>

definition revision_3a8f1c2d4e9b :: migration where
  "revision_3a8f1c2d4e9b =
   \<lparr> mg_revision = ''3a8f1c2d4e9b'', mg_down_revision = Some ''4cfcf3406bef'',
     mg_upgrade =
      [Create_table \<lparr> td_name = ''projects'',
        td_columns =
         [column_of ''id'' Sql_uuid,
          column_of ''name'' (Sql_varchar 255),
          default_column ''created_at'' Sql_timestamptz ''now()'',
          default_column ''updated_at'' Sql_timestamptz ''now()''],
        td_pk = [''id''], td_uniques = [(''uq_projects_name'', [''name''])],
        td_fks = [] \<rparr>,
       Create_table \<lparr> td_name = ''api_keys'',
        td_columns =
         [column_of ''id'' Sql_uuid,
          column_of ''project_id'' Sql_uuid,
          nullable_column ''name'' (Sql_varchar 255),
          column_of ''key_prefix'' (Sql_varchar 16),
          column_of ''key_hash'' (Sql_varchar 64),
          default_column ''created_at'' Sql_timestamptz ''now()'',
          default_column ''updated_at'' Sql_timestamptz ''now()''],
        td_pk = [''id''], td_uniques = [(''uq_api_keys_key_hash'', [''key_hash''])],
        td_fks = [cascade_fk ''fk_api_keys_project_id'' ''project_id'' ''projects'' ''id''] \<rparr>,
       Create_index ''ix_api_keys_project_id'' ''api_keys'' [''project_id'']],
     mg_downgrade =
      [Drop_index ''ix_api_keys_project_id'' ''api_keys'',
       Drop_table ''api_keys'',
       Drop_table ''projects''] \<rparr>"

text \<open>\<^verbatim>\<open>d4e5f6a7b8c9_add_last_used_at_revoked_at_to_api_keys.py\<close>\<close>

definition revision_d4e5f6a7b8c9 :: migration where
  "revision_d4e5f6a7b8c9 =
   \<lparr> mg_revision = ''d4e5f6a7b8c9'', mg_down_revision = Some ''3a8f1c2d4e9b'',
     mg_upgrade =
      [Add_column ''api_keys'' (nullable_column ''last_used_at'' Sql_timestamptz),
       Add_column ''api_keys'' (nullable_column ''revoked_at'' Sql_timestamptz)],
     mg_downgrade =
      [Drop_column ''api_keys'' ''revoked_at'',
       Drop_column ''api_keys'' ''last_used_at''] \<rparr>"

text \<open>\<^verbatim>\<open>e1f2a3b4c5d6_add_endpoints_table.py\<close>\<close>

definition revision_e1f2a3b4c5d6 :: migration where
  "revision_e1f2a3b4c5d6 =
   \<lparr> mg_revision = ''e1f2a3b4c5d6'', mg_down_revision = Some ''d4e5f6a7b8c9'',
     mg_upgrade =
      [Create_type ''endpoint_status'' [''active'', ''inactive''],
       Create_table \<lparr> td_name = ''endpoints'',
        td_columns =
         [column_of ''id'' Sql_uuid,
          column_of ''project_id'' Sql_uuid,
          column_of ''url'' (Sql_varchar 2048),
          column_of ''event_types'' Sql_text_array,
          column_of ''secret_enc'' Sql_text,
          column_of ''status'' (Sql_enum ''endpoint_status''),
          default_column ''created_at'' Sql_timestamptz ''now()'',
          default_column ''updated_at'' Sql_timestamptz ''now()''],
        td_pk = [''id''], td_uniques = [],
        td_fks = [cascade_fk ''fk_endpoints_project_id'' ''project_id'' ''projects'' ''id''] \<rparr>,
       Create_index ''ix_endpoints_project_id'' ''endpoints'' [''project_id'']],
     mg_downgrade =
      [Drop_index ''ix_endpoints_project_id'' ''endpoints'',
       Drop_table ''endpoints'',
       Drop_type ''endpoint_status''] \<rparr>"

text \<open>\<^verbatim>\<open>f1a2b3c4d5e6_add_events_deliveries_idempotency.py\<close>\<close>

definition revision_f1a2b3c4d5e6 :: migration where
  "revision_f1a2b3c4d5e6 =
   \<lparr> mg_revision = ''f1a2b3c4d5e6'', mg_down_revision = Some ''e1f2a3b4c5d6'',
     mg_upgrade =
      [Create_table \<lparr> td_name = ''events'',
        td_columns =
         [column_of ''id'' Sql_uuid,
          column_of ''project_id'' Sql_uuid,
          column_of ''type'' (Sql_varchar 255),
          column_of ''payload'' Sql_jsonb,
          nullable_column ''idempotency_key'' (Sql_varchar 255),
          default_column ''created_at'' Sql_timestamptz ''now()''],
        td_pk = [''id''], td_uniques = [],
        td_fks = [cascade_fk ''fk_events_project_id'' ''project_id'' ''projects'' ''id''] \<rparr>,
       Create_index ''ix_events_project_id'' ''events'' [''project_id''],
       Create_type ''delivery_status'' [''pending'', ''in_flight'', ''succeeded'', ''failed'', ''dead_lettered''],
       Create_table \<lparr> td_name = ''deliveries'',
        td_columns =
         [column_of ''id'' Sql_uuid,
          column_of ''event_id'' Sql_uuid,
          column_of ''endpoint_id'' Sql_uuid,
          column_of ''status'' (Sql_enum ''delivery_status''),
          default_column ''attempt_count'' Sql_integer ''0'',
          column_of ''next_attempt_at'' Sql_timestamptz,
          nullable_column ''leased_until'' Sql_timestamptz,
          default_column ''created_at'' Sql_timestamptz ''now()'',
          default_column ''updated_at'' Sql_timestamptz ''now()''],
        td_pk = [''id''], td_uniques = [],
        td_fks = [cascade_fk ''fk_deliveries_event_id'' ''event_id'' ''events'' ''id'',
          cascade_fk ''fk_deliveries_endpoint_id'' ''endpoint_id'' ''endpoints'' ''id''] \<rparr>,
       Create_index ''ix_deliveries_status_next_attempt_at'' ''deliveries'' [''status'', ''next_attempt_at''],
       Create_table \<lparr> td_name = ''idempotency_records'',
        td_columns =
         [column_of ''id'' Sql_uuid,
          column_of ''project_id'' Sql_uuid,
          column_of ''idempotency_key'' (Sql_varchar 255),
          column_of ''event_id'' Sql_uuid,
          column_of ''queued_deliveries'' Sql_integer,
          column_of ''request_hash'' (Sql_varchar 64),
          default_column ''created_at'' Sql_timestamptz ''now()''],
        td_pk = [''id''], td_uniques = [(''uq_idempotency_records_project_key'', [''project_id'', ''idempotency_key''])],
        td_fks = [cascade_fk ''fk_idempotency_records_project_id'' ''project_id'' ''projects'' ''id'',
          cascade_fk ''fk_idempotency_records_event_id'' ''event_id'' ''events'' ''id''] \<rparr>],
     mg_downgrade =
      [Drop_table ''idempotency_records'',
       Drop_index ''ix_deliveries_status_next_attempt_at'' ''deliveries'',
       Drop_table ''deliveries'',
       Drop_type ''delivery_status'',
       Drop_index ''ix_events_project_id'' ''events'',
       Drop_table ''events''] \<rparr>"

text \<open>\<^verbatim>\<open>b2c3d4e5f6a7_add_delivery_attempts_table.py\<close>\<close>

definition revision_b2c3d4e5f6a7 :: migration where
  "revision_b2c3d4e5f6a7 =
   \<lparr> mg_revision = ''b2c3d4e5f6a7'', mg_down_revision = Some ''f1a2b3c4d5e6'',
     mg_upgrade =
      [Create_table \<lparr> td_name = ''delivery_attempts'',
        td_columns =
         [column_of ''id'' Sql_uuid,
          column_of ''delivery_id'' Sql_uuid,
          column_of ''attempt_number'' Sql_integer,
          nullable_column ''response_status'' Sql_integer,
          nullable_column ''response_body'' (Sql_varchar 1024),
          nullable_column ''error'' Sql_text,
          nullable_column ''duration_ms'' Sql_integer,
          default_column ''created_at'' Sql_timestamptz ''now()''],
        td_pk = [''id''], td_uniques = [(''uq_delivery_attempts_delivery_id_attempt_number'', [''delivery_id'', ''attempt_number''])],
        td_fks = [cascade_fk ''fk_delivery_attempts_delivery_id'' ''delivery_id'' ''deliveries'' ''id''] \<rparr>,
       Create_index ''ix_delivery_attempts_delivery_id'' ''delivery_attempts'' [''delivery_id'']],
     mg_downgrade =
      [Drop_index ''ix_delivery_attempts_delivery_id'' ''delivery_attempts'',
       Drop_table ''delivery_attempts''] \<rparr>"

text \<open>\<^verbatim>\<open>c1d2e3f4a5b6_add_rate_limit_rps_to_endpoints.py\<close>\<close>

definition revision_c1d2e3f4a5b6 :: migration where
  "revision_c1d2e3f4a5b6 =
   \<lparr> mg_revision = ''c1d2e3f4a5b6'', mg_down_revision = Some ''b2c3d4e5f6a7'',
     mg_upgrade =
      [Add_column ''endpoints'' (nullable_column ''rate_limit_rps'' Sql_float)],
     mg_downgrade =
      [Drop_column ''endpoints'' ''rate_limit_rps''] \<rparr>"

text \<open>\<^verbatim>\<open>a1b2c3d4e5f6_add_payload_format_to_endpoints.py\<close>\<close>

definition revision_a1b2c3d4e5f6 :: migration where
  "revision_a1b2c3d4e5f6 =
   \<lparr> mg_revision = ''a1b2c3d4e5f6'', mg_down_revision = Some ''c1d2e3f4a5b6'',
     mg_upgrade =
      [Create_type ''payload_format'' [''raw'', ''discord''],
       Add_column ''endpoints'' (default_column ''payload_format'' (Sql_enum ''payload_format'') ''raw'')],
     mg_downgrade =
      [Drop_column ''endpoints'' ''payload_format'',
       Drop_type ''payload_format''] \<rparr>"

text \<open>\<^verbatim>\<open>f7a1b2c3d4e5_add_demo_ops_console_tables.py\<close>\<close>

definition revision_f7a1b2c3d4e5 :: migration where
  "revision_f7a1b2c3d4e5 =
   \<lparr> mg_revision = ''f7a1b2c3d4e5'', mg_down_revision = Some ''a1b2c3d4e5f6'',
     mg_upgrade =
      [Create_table \<lparr> td_name = ''demo_receiver_health'',
        td_columns =
         [column_of ''endpoint_id'' Sql_uuid,
          default_column ''healthy'' Sql_boolean ''true'',
          default_column ''updated_at'' Sql_timestamptz ''now()''],
        td_pk = [''endpoint_id''], td_uniques = [],
        td_fks = [cascade_fk ''fk_demo_receiver_health_endpoint_id'' ''endpoint_id'' ''endpoints'' ''id''] \<rparr>,
       Create_table \<lparr> td_name = ''demo_received_requests'',
        td_columns =
         [column_of ''id'' Sql_uuid,
          column_of ''endpoint_id'' Sql_uuid,
          column_of ''event_type'' Sql_text,
          column_of ''attempt'' Sql_integer,
          column_of ''verified'' Sql_boolean,
          column_of ''response_status'' Sql_integer,
          nullable_column ''signature_header'' Sql_text,
          nullable_column ''timestamp_header'' Sql_text,
          column_of ''body'' Sql_text,
          default_column ''received_at'' Sql_timestamptz ''now()''],
        td_pk = [''id''], td_uniques = [],
        td_fks = [cascade_fk ''fk_demo_received_requests_endpoint_id'' ''endpoint_id'' ''endpoints'' ''id''] \<rparr>,
       Create_index ''ix_demo_received_requests_endpoint_received'' ''demo_received_requests'' [''endpoint_id'', ''received_at'']],
     mg_downgrade =
      [Drop_index ''ix_demo_received_requests_endpoint_received'' ''demo_received_requests'',
       Drop_table ''demo_received_requests'',
       Drop_table ''demo_receiver_health''] \<rparr>"

text \<open>\<^verbatim>\<open>c8d9e0f1a2b3_add_worker_attribution.py\<close>\<close>

definition revision_c8d9e0f1a2b3 :: migration where
  "revision_c8d9e0f1a2b3 =
   \<lparr> mg_revision = ''c8d9e0f1a2b3'', mg_down_revision = Some ''f7a1b2c3d4e5'',
     mg_upgrade =
      [Add_column ''deliveries'' (nullable_column ''claimed_by'' Sql_text),
       Add_column ''delivery_attempts'' (nullable_column ''worker_id'' Sql_text)],
     mg_downgrade =
      [Drop_column ''delivery_attempts'' ''worker_id'',
       Drop_column ''deliveries'' ''claimed_by''] \<rparr>"

text \<open>\<^verbatim>\<open>d7e8f9a0b1c2_add_demo_ledger_tables.py\<close>\<close>

definition revision_d7e8f9a0b1c2 :: migration where
  "revision_d7e8f9a0b1c2 =
   \<lparr> mg_revision = ''d7e8f9a0b1c2'', mg_down_revision = Some ''c8d9e0f1a2b3'',
     mg_upgrade =
      [Create_table \<lparr> td_name = ''demo_ledger_accounts'',
        td_columns =
         [column_of ''endpoint_id'' Sql_uuid,
          column_of ''account'' Sql_text,
          column_of ''balance'' (Sql_numeric 18 2),
          nullable_column ''status'' Sql_text,
          nullable_column ''status_as_of'' Sql_timestamptz,
          default_column ''updated_at'' Sql_timestamptz ''now()''],
        td_pk = [''endpoint_id'', ''account''], td_uniques = [],
        td_fks = [cascade_fk ''fk_demo_ledger_accounts_endpoint_id'' ''endpoint_id'' ''endpoints'' ''id''] \<rparr>,
       Create_table \<lparr> td_name = ''demo_ledger_processed'',
        td_columns =
         [column_of ''endpoint_id'' Sql_uuid,
          column_of ''event_id'' Sql_uuid,
          default_column ''processed_at'' Sql_timestamptz ''now()''],
        td_pk = [''endpoint_id'', ''event_id''], td_uniques = [],
        td_fks = [cascade_fk ''fk_demo_ledger_processed_endpoint_id'' ''endpoint_id'' ''endpoints'' ''id''] \<rparr>,
       Add_column ''demo_receiver_health'' (default_column ''mode'' Sql_text ''healthy'')],
     mg_downgrade =
      [Drop_column ''demo_receiver_health'' ''mode'',
       Drop_table ''demo_ledger_processed'',
       Drop_table ''demo_ledger_accounts''] \<rparr>"

text \<open>\<^verbatim>\<open>a3b4c5d6e7f8_add_demo_visitor_activity.py\<close>\<close>

definition revision_a3b4c5d6e7f8 :: migration where
  "revision_a3b4c5d6e7f8 =
   \<lparr> mg_revision = ''a3b4c5d6e7f8'', mg_down_revision = Some ''d7e8f9a0b1c2'',
     mg_upgrade =
      [Create_table \<lparr> td_name = ''demo_visitor_activity'',
        td_columns =
         [column_of ''project_id'' Sql_uuid,
          default_column ''last_seen_at'' Sql_timestamptz ''now()''],
        td_pk = [''project_id''], td_uniques = [],
        td_fks = [cascade_fk ''fk_demo_visitor_activity_project_id'' ''project_id'' ''projects'' ''id''] \<rparr>],
     mg_downgrade =
      [Drop_table ''demo_visitor_activity''] \<rparr>"

definition revisions :: "migration list" where
  "revisions =
     [revision_3a8f1c2d4e9b, revision_4cfcf3406bef, revision_a1b2c3d4e5f6, revision_a3b4c5d6e7f8,
      revision_b2c3d4e5f6a7, revision_c1d2e3f4a5b6, revision_c8d9e0f1a2b3, revision_d4e5f6a7b8c9,
      revision_d7e8f9a0b1c2, revision_e1f2a3b4c5d6, revision_f1a2b3c4d5e6, revision_f7a1b2c3d4e5]"

section \<open>The schema of the models\<close>

definition project_table :: table_def where
  "project_table =
     \<lparr> td_name = ''projects'',
         td_columns =
          [column_of ''id'' Sql_uuid,
           column_of ''name'' (Sql_varchar 255),
           column_of ''created_at'' Sql_timestamptz,
           column_of ''updated_at'' Sql_timestamptz],
         td_pk = [''id''], td_uniques = [([], [''name''])],
         td_fks = [] \<rparr>"

definition api_key_table :: table_def where
  "api_key_table =
     \<lparr> td_name = ''api_keys'',
         td_columns =
          [column_of ''id'' Sql_uuid,
           column_of ''project_id'' Sql_uuid,
           nullable_column ''name'' (Sql_varchar 255),
           column_of ''key_prefix'' (Sql_varchar 16),
           column_of ''key_hash'' (Sql_varchar 64),
           nullable_column ''last_used_at'' Sql_timestamptz,
           nullable_column ''revoked_at'' Sql_timestamptz,
           column_of ''created_at'' Sql_timestamptz,
           column_of ''updated_at'' Sql_timestamptz],
         td_pk = [''id''], td_uniques = [([], [''key_hash''])],
         td_fks = [cascade_fk [] ''project_id'' ''projects'' ''id''] \<rparr>"

definition endpoint_table :: table_def where
  "endpoint_table =
     \<lparr> td_name = ''endpoints'',
         td_columns =
          [column_of ''id'' Sql_uuid,
           column_of ''project_id'' Sql_uuid,
           column_of ''url'' (Sql_varchar 2048),
           column_of ''event_types'' Sql_text_array,
           column_of ''secret_enc'' Sql_text,
           column_of ''status'' (Sql_enum ''endpoint_status''),
           column_of ''payload_format'' (Sql_enum ''payload_format''),
           column_of ''created_at'' Sql_timestamptz,
           column_of ''updated_at'' Sql_timestamptz,
           nullable_column ''rate_limit_rps'' Sql_float],
         td_pk = [''id''], td_uniques = [],
         td_fks = [cascade_fk [] ''project_id'' ''projects'' ''id''] \<rparr>"

definition event_table :: table_def where
  "event_table =
     \<lparr> td_name = ''events'',
         td_columns =
          [column_of ''id'' Sql_uuid,
           column_of ''project_id'' Sql_uuid,
           column_of ''type'' (Sql_varchar 255),
           column_of ''payload'' Sql_jsonb,
           nullable_column ''idempotency_key'' (Sql_varchar 255),
           column_of ''created_at'' Sql_timestamptz],
         td_pk = [''id''], td_uniques = [],
         td_fks = [cascade_fk [] ''project_id'' ''projects'' ''id''] \<rparr>"

definition idempotency_table :: table_def where
  "idempotency_table =
     \<lparr> td_name = ''idempotency_records'',
         td_columns =
          [column_of ''id'' Sql_uuid,
           column_of ''project_id'' Sql_uuid,
           column_of ''idempotency_key'' (Sql_varchar 255),
           column_of ''event_id'' Sql_uuid,
           column_of ''queued_deliveries'' Sql_integer,
           column_of ''request_hash'' (Sql_varchar 64),
           column_of ''created_at'' Sql_timestamptz],
         td_pk = [''id''], td_uniques = [([], [''project_id'', ''idempotency_key''])],
         td_fks = [cascade_fk [] ''project_id'' ''projects'' ''id'', cascade_fk [] ''event_id'' ''events'' ''id''] \<rparr>"

definition delivery_table :: table_def where
  "delivery_table =
     \<lparr> td_name = ''deliveries'',
         td_columns =
          [column_of ''id'' Sql_uuid,
           column_of ''event_id'' Sql_uuid,
           column_of ''endpoint_id'' Sql_uuid,
           column_of ''status'' (Sql_enum ''delivery_status''),
           column_of ''attempt_count'' Sql_integer,
           column_of ''next_attempt_at'' Sql_timestamptz,
           nullable_column ''leased_until'' Sql_timestamptz,
           nullable_column ''claimed_by'' Sql_text,
           column_of ''created_at'' Sql_timestamptz,
           column_of ''updated_at'' Sql_timestamptz],
         td_pk = [''id''], td_uniques = [],
         td_fks = [cascade_fk [] ''event_id'' ''events'' ''id'', cascade_fk [] ''endpoint_id'' ''endpoints'' ''id''] \<rparr>"

definition delivery_attempt_table :: table_def where
  "delivery_attempt_table =
     \<lparr> td_name = ''delivery_attempts'',
         td_columns =
          [column_of ''id'' Sql_uuid,
           column_of ''delivery_id'' Sql_uuid,
           column_of ''attempt_number'' Sql_integer,
           nullable_column ''response_status'' Sql_integer,
           nullable_column ''response_body'' (Sql_varchar 1024),
           nullable_column ''error'' Sql_text,
           nullable_column ''duration_ms'' Sql_integer,
           nullable_column ''worker_id'' Sql_text,
           column_of ''created_at'' Sql_timestamptz],
         td_pk = [''id''], td_uniques = [([], [''delivery_id'', ''attempt_number''])],
         td_fks = [cascade_fk [] ''delivery_id'' ''deliveries'' ''id''] \<rparr>"

definition receiver_health_table :: table_def where
  "receiver_health_table =
     \<lparr> td_name = ''demo_receiver_health'',
         td_columns =
          [column_of ''endpoint_id'' Sql_uuid,
           column_of ''healthy'' Sql_boolean,
           column_of ''mode'' Sql_text,
           column_of ''updated_at'' Sql_timestamptz],
         td_pk = [''endpoint_id''], td_uniques = [],
         td_fks = [cascade_fk [] ''endpoint_id'' ''endpoints'' ''id''] \<rparr>"

definition received_request_table :: table_def where
  "received_request_table =
     \<lparr> td_name = ''demo_received_requests'',
         td_columns =
          [column_of ''id'' Sql_uuid,
           column_of ''endpoint_id'' Sql_uuid,
           column_of ''event_type'' Sql_text,
           column_of ''attempt'' Sql_integer,
           column_of ''verified'' Sql_boolean,
           column_of ''response_status'' Sql_integer,
           nullable_column ''signature_header'' Sql_text,
           nullable_column ''timestamp_header'' Sql_text,
           column_of ''body'' Sql_text,
           column_of ''received_at'' Sql_timestamptz],
         td_pk = [''id''], td_uniques = [],
         td_fks = [cascade_fk [] ''endpoint_id'' ''endpoints'' ''id''] \<rparr>"

definition ledger_account_table :: table_def where
  "ledger_account_table =
     \<lparr> td_name = ''demo_ledger_accounts'',
         td_columns =
          [column_of ''endpoint_id'' Sql_uuid,
           column_of ''account'' Sql_text,
           column_of ''balance'' (Sql_numeric 18 2),
           nullable_column ''status'' Sql_text,
           nullable_column ''status_as_of'' Sql_timestamptz,
           column_of ''updated_at'' Sql_timestamptz],
         td_pk = [''endpoint_id'', ''account''], td_uniques = [],
         td_fks = [cascade_fk [] ''endpoint_id'' ''endpoints'' ''id''] \<rparr>"

definition ledger_processed_table :: table_def where
  "ledger_processed_table =
     \<lparr> td_name = ''demo_ledger_processed'',
         td_columns =
          [column_of ''endpoint_id'' Sql_uuid,
           column_of ''event_id'' Sql_uuid,
           column_of ''processed_at'' Sql_timestamptz],
         td_pk = [''endpoint_id'', ''event_id''], td_uniques = [],
         td_fks = [cascade_fk [] ''endpoint_id'' ''endpoints'' ''id''] \<rparr>"

definition visitor_activity_table :: table_def where
  "visitor_activity_table =
     \<lparr> td_name = ''demo_visitor_activity'',
         td_columns =
          [column_of ''project_id'' Sql_uuid,
           column_of ''last_seen_at'' Sql_timestamptz],
         td_pk = [''project_id''], td_uniques = [],
         td_fks = [cascade_fk [] ''project_id'' ''projects'' ''id''] \<rparr>"

definition model_tables :: "table_def list" where
  "model_tables =
     [project_table, api_key_table, endpoint_table, event_table,
      idempotency_table, delivery_table, delivery_attempt_table, receiver_health_table,
      received_request_table, ledger_account_table, ledger_processed_table, visitor_activity_table]"

definition model_schema :: schema where
  "model_schema =
   \<lparr> sc_tables = model_tables,
     sc_indexes =
      [\<lparr> ix_name = ''ix_deliveries_status_next_attempt_at'', ix_table = ''deliveries'', ix_columns = [''status'', ''next_attempt_at''] \<rparr>,
       \<lparr> ix_name = ''ix_demo_received_requests_endpoint_received'', ix_table = ''demo_received_requests'',
         ix_columns = [''endpoint_id'', ''received_at''] \<rparr>],
     sc_types =
      [(''endpoint_status'', [''active'', ''inactive'']),
       (''payload_format'', [''raw'', ''discord'']),
       (''delivery_status'', [''pending'', ''in_flight'', ''succeeded'', ''failed'', ''dead_lettered''])] \<rparr>"

section \<open>Properties\<close>

definition head_history :: "migration list" where
  "head_history = history (Suc (length revisions)) revisions None"

definition extra_indexes :: "string list" where
  "extra_indexes = [''ix_api_keys_project_id'', ''ix_endpoints_project_id'', ''ix_events_project_id'', ''ix_delivery_attempts_delivery_id'']"

definition matches_models :: "schema \<Rightarrow> bool" where
  "matches_models s \<longleftrightarrow> same_tables s model_schema \<and> same_elements (sc_types s) (sc_types model_schema)
     \<and> same_elements (filter (\<lambda>i. ix_name i \<notin> set extra_indexes) (sc_indexes s)) (sc_indexes model_schema)
     \<and> list_all (\<lambda>n. n \<in> set (map ix_name (sc_indexes s))) extra_indexes"

lemma head_history_all: "same_elements (map mg_revision head_history) (map mg_revision revisions) \<and> distinct (map mg_revision head_history)"
  by code_simp

lemma head_history_reversible: "reversible head_history empty_schema"
  by code_simp

lemma head_matches: "case upgrade_all head_history empty_schema of None \<Rightarrow> False | Some s \<Rightarrow> matches_models s"
  by code_simp


text \<open>C28: Every migration can be taken back: wherever the history stands, the last revision's downgrade succeeds and
  restores exactly the schema it was applied to, so a database can be downgraded from any revision to
  any earlier one and back to nothing.\<close>

theorem migrations_reversible:
  "\<forall>n. \<exists>s. upgrade_all (take n head_history) empty_schema = Some s
     \<and> downgrade_all (take n head_history) s = Some empty_schema
     \<and> (case drop n head_history of [] \<Rightarrow> True
        | m # ms \<Rightarrow> (\<exists>s'. run_ops (mg_upgrade m) s = Some s' \<and> run_ops (mg_downgrade m) s' = Some s))"
proof
  fix n
  have "reversible (take n head_history @ drop n head_history) empty_schema"
    using head_history_reversible by simp
  then obtain s where s: "reversible (take n head_history) empty_schema" "upgrade_all (take n head_history) empty_schema = Some s"
    "reversible (drop n head_history) s"
    unfolding reversible_append by blast
  then show "\<exists>s. upgrade_all (take n head_history) empty_schema = Some s
     \<and> downgrade_all (take n head_history) s = Some empty_schema
     \<and> (case drop n head_history of [] \<Rightarrow> True
        | m # ms \<Rightarrow> (\<exists>s'. run_ops (mg_upgrade m) s = Some s' \<and> run_ops (mg_downgrade m) s' = Some s))"
    using reversible_restores [OF s(1)] s(2,3) by (cases "drop n head_history") (auto split: option.splits)
qed

end
