(* ===== verification/Decimal_Arith.thy ===== *)
theory Decimal_Arith
  imports Decimals
begin

text \<open>
  Arithmetic of \<^verbatim>\<open>decimal.Decimal\<close> in the default context, as the producer uses it: 28 digits, half-even
  rounding, and InvalidOperation and division by zero as exceptions. Exponents are taken to stay within the
  context's limits, so neither overflow nor underflow occurs.
\<close>

section \<open>Rounding to the context\<close>

definition precision :: nat where
  "precision = 28"

definition ndigits :: "nat \<Rightarrow> nat" where
  "ndigits n = length (show_nat n)"

definition signed_coefficient :: "bool \<Rightarrow> nat \<Rightarrow> int" where
  "signed_coefficient neg c = (if neg then - int c else int c)"

text \<open>A carry out of the last digit gives one digit too many, all zeros after the first.\<close>

definition round_context :: "bool \<Rightarrow> nat \<Rightarrow> int \<Rightarrow> py_decimal" where
  "round_context neg c e =
     (if ndigits c \<le> precision then Finite neg c e
      else let k = ndigits c - precision; r = nat (round_half_even (of_nat c / 10 ^ k))
        in if precision < ndigits r then Finite neg (r div 10) (e + int k + 1) else Finite neg r (e + int k))"

text \<open>The coefficient of a finite decimal with the exponent \<open>f\<close> instead of \<open>e\<close>, rounded if digits are lost.\<close>

definition rescaled :: "nat \<Rightarrow> int \<Rightarrow> int \<Rightarrow> nat" where
  "rescaled c e f = (if f \<le> e then c * 10 ^ nat (e - f) else nat (round_half_even (of_nat c / 10 ^ nat (f - e))))"

section \<open>Not-a-numbers\<close>

text \<open>An operand that is a NaN decides the operation: a signaling one raises, a quiet one is the result.\<close>

definition nan_operand :: "py_decimal \<Rightarrow> py_decimal option" where
  "nan_operand x = (case x of Quiet_NaN n p \<Rightarrow> Some (Quiet_NaN n (p mod 10 ^ precision)) | _ \<Rightarrow> None)"

definition is_signaling :: "py_decimal \<Rightarrow> bool" where
  "is_signaling x \<longleftrightarrow> (case x of Signaling_NaN _ _ \<Rightarrow> True | _ \<Rightarrow> False)"

definition is_nan :: "py_decimal \<Rightarrow> bool" where
  "is_nan x \<longleftrightarrow> (case x of Quiet_NaN _ _ \<Rightarrow> True | Signaling_NaN _ _ \<Rightarrow> True | _ \<Rightarrow> False)"

definition with_nans :: "py_decimal \<Rightarrow> py_decimal \<Rightarrow> py_exc + py_decimal \<Rightarrow> py_exc + py_decimal" where
  "with_nans x y r =
     (if is_signaling x \<or> is_signaling y then Inl InvalidOperation
      else case nan_operand x of
          Some z \<Rightarrow> Inr z
        | None \<Rightarrow> (case nan_operand y of Some z \<Rightarrow> Inr z | None \<Rightarrow> r))"

section \<open>Operations\<close>

definition dec_zero :: py_decimal where
  "dec_zero = Finite False 0 0"

definition dec_of :: "nat \<Rightarrow> py_decimal" where
  "dec_of n = Finite False n 0"

definition dec_add :: "py_decimal \<Rightarrow> py_decimal \<Rightarrow> py_exc + py_decimal" where
  "dec_add x y = with_nans x y
     (case (x, y) of
        (Finite n1 c1 e1, Finite n2 c2 e2) \<Rightarrow>
          (let e = min e1 e2;
               s = signed_coefficient n1 (c1 * 10 ^ nat (e1 - e)) + signed_coefficient n2 (c2 * 10 ^ nat (e2 - e))
           in Inr (round_context (if s = 0 then n1 \<and> n2 else s < 0) (nat \<bar>s\<bar>) e))
      | (Infinite n1, Infinite n2) \<Rightarrow> if n1 = n2 then Inr x else Inl InvalidOperation
      | (Infinite _, _) \<Rightarrow> Inr x
      | _ \<Rightarrow> Inr y)"

fun dec_negated :: "py_decimal \<Rightarrow> py_decimal" where
  "dec_negated (Finite n c e) = Finite (\<not> n) c e"
| "dec_negated (Infinite n) = Infinite (\<not> n)"
| "dec_negated x = x"

definition dec_sub :: "py_decimal \<Rightarrow> py_decimal \<Rightarrow> py_exc + py_decimal" where
  "dec_sub x y = dec_add x (dec_negated y)"

definition dec_mul :: "py_decimal \<Rightarrow> py_decimal \<Rightarrow> py_exc + py_decimal" where
  "dec_mul x y = with_nans x y
     (case (x, y) of
        (Finite n1 c1 e1, Finite n2 c2 e2) \<Rightarrow> Inr (round_context (n1 \<noteq> n2) (c1 * c2) (e1 + e2))
      | (Infinite n1, Infinite n2) \<Rightarrow> Inr (Infinite (n1 \<noteq> n2))
      | (Infinite n1, Finite n2 c2 _) \<Rightarrow> if c2 = 0 then Inl InvalidOperation else Inr (Infinite (n1 \<noteq> n2))
      | (Finite n1 c1 _, Infinite n2) \<Rightarrow> if c1 = 0 then Inl InvalidOperation else Inr (Infinite (n1 \<noteq> n2))
      | _ \<Rightarrow> Inr x)"

text \<open>
  A quotient is computed to one digit more than the precision. An exact one loses its trailing zeros down to
  the ideal exponent; the last digit of an inexact one tells the rounding that something follows.
\<close>

fun drop_zeros :: "nat \<Rightarrow> nat \<Rightarrow> nat \<times> nat" where
  "drop_zeros 0 c = (c, 0)"
| "drop_zeros (Suc k) c = (if c mod 10 = 0 then (case drop_zeros k (c div 10) of (c', d) \<Rightarrow> (c', Suc d)) else (c, 0))"

definition dec_quotient :: "bool \<Rightarrow> nat \<Rightarrow> int \<Rightarrow> nat \<Rightarrow> int \<Rightarrow> py_decimal" where
  "dec_quotient neg c1 e1 c2 e2 =
     (let shift = int (ndigits c2) - int (ndigits c1) + int precision + 1;
          a = (if 0 \<le> shift then c1 * 10 ^ nat shift else c1);
          b = (if 0 \<le> shift then c2 else c2 * 10 ^ nat (- shift));
          q = a div b; e = e1 - e2 - shift
      in if a mod b \<noteq> 0 then round_context neg (if q mod 5 = 0 then q + 1 else q) e
         else case drop_zeros (nat shift) q of (c, d) \<Rightarrow> round_context neg c (e + int d))"

definition dec_div :: "py_decimal \<Rightarrow> py_decimal \<Rightarrow> py_exc + py_decimal" where
  "dec_div x y = with_nans x y
     (case (x, y) of
        (Finite n1 c1 e1, Finite n2 c2 e2) \<Rightarrow>
          if c2 = 0 then Inl (if c1 = 0 then InvalidOperation else ZeroDivisionError)
          else if c1 = 0 then Inr (Finite (n1 \<noteq> n2) 0 (e1 - e2))
          else Inr (dec_quotient (n1 \<noteq> n2) c1 e1 c2 e2)
      | (Infinite _, Infinite _) \<Rightarrow> Inl InvalidOperation
      | (Infinite n1, Finite n2 _ _) \<Rightarrow> Inr (Infinite (n1 \<noteq> n2))
      | (Finite n1 _ _, Infinite n2) \<Rightarrow> Inr (Finite (n1 \<noteq> n2) 0 (- 1000026))
      | _ \<Rightarrow> Inr x)"

definition dec_abs :: "py_decimal \<Rightarrow> py_exc + py_decimal" where
  "dec_abs x =
     (case x of
        Finite _ c e \<Rightarrow> Inr (round_context False c e)
      | Infinite _ \<Rightarrow> Inr (Infinite False)
      | _ \<Rightarrow> with_nans x x (Inr x))"

text \<open>\<^verbatim>\<open>x.quantize(y)\<close>: the value of \<open>x\<close> with the exponent of \<open>y\<close>, if it fits the precision.\<close>

definition dec_quantize :: "py_decimal \<Rightarrow> py_decimal \<Rightarrow> py_exc + py_decimal" where
  "dec_quantize x y = with_nans x y
     (case (x, y) of
        (Finite n c e, Finite _ _ f) \<Rightarrow>
          if ndigits (rescaled c e f) \<le> precision then Inr (Finite n (rescaled c e f) f) else Inl InvalidOperation
      | (Infinite _, Infinite _) \<Rightarrow> Inr x
      | _ \<Rightarrow> Inl InvalidOperation)"

section \<open>Comparison\<close>

definition dec_value :: "bool \<Rightarrow> nat \<Rightarrow> int \<Rightarrow> rat" where
  "dec_value neg c e = of_int (signed_coefficient neg c) * (if 0 \<le> e then 10 ^ nat e else 1 / 10 ^ nat (- e))"

text \<open>Equality with a quiet NaN is false; an order with any NaN raises.\<close>

definition dec_eq :: "py_decimal \<Rightarrow> py_decimal \<Rightarrow> py_exc + bool" where
  "dec_eq x y =
     (if is_signaling x \<or> is_signaling y then Inl InvalidOperation
      else Inr (case (x, y) of
          (Finite n1 c1 e1, Finite n2 c2 e2) \<Rightarrow> dec_value n1 c1 e1 = dec_value n2 c2 e2
        | (Infinite n1, Infinite n2) \<Rightarrow> n1 = n2
        | _ \<Rightarrow> False))"

definition dec_less :: "py_decimal \<Rightarrow> py_decimal \<Rightarrow> py_exc + bool" where
  "dec_less x y =
     (if is_nan x \<or> is_nan y then Inl InvalidOperation
      else Inr (case (x, y) of
          (Finite n1 c1 e1, Finite n2 c2 e2) \<Rightarrow> dec_value n1 c1 e1 < dec_value n2 c2 e2
        | (Infinite n1, Infinite n2) \<Rightarrow> n1 \<and> \<not> n2
        | (Infinite n1, _) \<Rightarrow> n1
        | (_, Infinite n2) \<Rightarrow> \<not> n2
        | _ \<Rightarrow> False))"

definition dec_less_eq :: "py_decimal \<Rightarrow> py_decimal \<Rightarrow> py_exc + bool" where
  "dec_less_eq x y = bind_exc (dec_less y x) (\<lambda>b. Inr (\<not> b))"

section \<open>Text\<close>

definition show_sign :: "bool \<Rightarrow> string" where
  "show_sign neg = (if neg then ''-'' else [])"

text \<open>\<^verbatim>\<open>str\<close>: plain notation when the exponent is not positive and the number is not too small.\<close>

definition show_finite :: "nat \<Rightarrow> int \<Rightarrow> string" where
  "show_finite c e =
     (let ds = show_nat c; n = int (length ds); left = e + n; dot = (if e \<le> 0 \<and> -6 < left then left else 1);
          int_part = (if dot \<le> 0 then ''0'' else if n \<le> dot then ds @ replicate (nat (dot - n)) (CHR ''0'') else take (nat dot) ds);
          frac = (if dot \<le> 0 then ''.'' @ replicate (nat (- dot)) (CHR ''0'') @ ds else if n \<le> dot then [] else ''.'' @ drop (nat dot) ds);
          ex = (if left = dot then [] else ''E'' @ (if 0 \<le> left - dot then ''+'' else []) @ show_int (left - dot))
      in int_part @ frac @ ex)"

definition show_payload :: "nat \<Rightarrow> string" where
  "show_payload p = (if p = 0 then [] else show_nat p)"

fun dec_str :: "py_decimal \<Rightarrow> string" where
  "dec_str (Finite neg c e) = show_sign neg @ show_finite c e"
| "dec_str (Infinite neg) = show_sign neg @ ''Infinity''"
| "dec_str (Quiet_NaN neg p) = show_sign neg @ ''NaN'' @ show_payload p"
| "dec_str (Signaling_NaN neg p) = show_sign neg @ ''sNaN'' @ show_payload p"

text \<open>The format \<^verbatim>\<open>.2f\<close>, which rounds without regard to the precision.\<close>

definition dec_fixed2 :: "py_decimal \<Rightarrow> string" where
  "dec_fixed2 x = (case x of Finite neg c e \<Rightarrow> show_cents neg (rescaled c e (- 2)) | _ \<Rightarrow> dec_str x)"

section \<open>Facts\<close>

lemma round_half_even_eq: "\<bar>x - of_int n\<bar> < 1 / 2 \<Longrightarrow> round_half_even x = n"
  using round_half_even_bounds [of x] by linarith

lemma show_nat_two:
  "10 \<le> n \<Longrightarrow> show_nat n = show_nat (n div 10) @ [digit (n mod 10)]"
  by (subst show_nat.simps) simp

lemma show_nat_cents:
  assumes "100 \<le> n"
  shows "show_nat n = show_nat (n div 100) @ [digit (n div 10 mod 10), digit (n mod 10)]"
proof -
  have "10 \<le> n div 10" "n div 10 div 10 = n div 100"
    using assms div_le_mono [of 100 n 10] by (simp_all add: div_mult2_eq [symmetric])
  then show ?thesis
    using assms show_nat_two [of n] show_nat_two [of "n div 10"] by simp
qed

lemma show_finite_cents: "show_sign neg @ show_finite n (- 2) = show_cents neg n"
proof -
  have one: "show_nat m = [digit m]" if "m < 10" for m
    using that by (subst show_nat.simps) simp
  consider "n < 10" | "10 \<le> n" "n < 100" | "100 \<le> n"
    by linarith
  then show ?thesis
  proof cases
    case 1
    then show ?thesis
      using one [of n] one [of 0] by (simp add: show_finite_def show_cents_def show_sign_def digit_0)
  next
    case 2
    then have "n div 10 < 10"
      by linarith
    then show ?thesis
      using 2 show_nat_two [of n] one [of "n div 10"] one [of 0] by (simp add: show_finite_def show_cents_def show_sign_def digit_0)
  next
    case 3
    then show ?thesis
      using show_nat_cents [OF 3] by (simp add: show_finite_def show_cents_def show_sign_def)
  qed
qed

lemma dec_str_cents: "dec_str (Finite neg n (- 2)) = show_cents neg n"
  by (simp add: show_finite_cents)

lemma ndigits_power: "ndigits n \<le> Suc k \<longleftrightarrow> n < 10 ^ Suc k"
proof (induction k arbitrary: n)
  case 0
  then show ?case
    unfolding ndigits_def by (subst show_nat.simps) simp
next
  case (Suc k)
  show ?case
  proof (cases "n < 10")
    case True
    then show ?thesis
      using less_le_trans [of n 10 "10 ^ Suc (Suc k)"] unfolding ndigits_def by (subst show_nat.simps) simp
  next
    case False
    then have "ndigits n = Suc (ndigits (n div 10))"
      by (simp add: ndigits_def show_nat_two)
    moreover have "n div 10 < 10 ^ Suc k \<longleftrightarrow> n < 10 ^ Suc (Suc k)"
      by (simp add: div_less_iff_less_mult mult.commute)
    ultimately show ?thesis
      using Suc.IH [of "n div 10"] by simp
  qed
qed

lemma ndigits_eq: "10 ^ k \<le> n \<Longrightarrow> n < 10 ^ Suc k \<Longrightarrow> 0 < k \<Longrightarrow> ndigits n = Suc k"
  using ndigits_power [of n k] ndigits_power [of n "k - 1"] by (cases k) auto

lemma ndigits_precision: "ndigits n \<le> precision \<longleftrightarrow> n < 10 ^ 28"
  using ndigits_power [of n 27] by (simp add: precision_def)

text \<open>Quantising to cents is the ledger's rounding.\<close>

lemma quantize_to_cents:
  "dec_quantize (Finite neg c e) (Finite False 1 (- 2)) = Inr y \<longleftrightarrow>
     (\<exists>n. quantize_cents (Finite neg c e) = Some (Cents neg n) \<and> y = Finite neg n (- 2))"
proof -
  have "rescaled c e (- 2) = (if - 2 \<le> e then c * 10 ^ nat (e + 2) else nat (round_half_even (of_nat c / 10 ^ nat (- e - 2))))"
    unfolding rescaled_def by (simp add: minus_diff_commute add.commute)
  then show ?thesis
    by (auto simp: dec_quantize_def with_nans_def is_signaling_def nan_operand_def quantize_cents_def Let_def
        ndigits_precision [unfolded precision_def] ndigits_precision)
qed

text \<open>Arithmetic on finite numbers gives finite numbers; only a zero divisor raises.\<close>

definition is_finite :: "py_decimal \<Rightarrow> bool" where
  "is_finite x \<longleftrightarrow> (case x of Finite _ _ _ \<Rightarrow> True | _ \<Rightarrow> False)"

lemma is_finite_iff: "is_finite x \<longleftrightarrow> (\<exists>n c e. x = Finite n c e)"
  by (cases x) (simp_all add: is_finite_def)

lemma round_context_finite [simp]: "is_finite (round_context n c e)"
  by (simp add: round_context_def is_finite_def Let_def)

lemma dec_quotient_finite [simp]: "is_finite (dec_quotient n c1 e1 c2 e2)"
  by (simp add: dec_quotient_def Let_def split: prod.split)

lemmas nan_simps = with_nans_def is_signaling_def nan_operand_def is_nan_def

lemma dec_add_finite: "is_finite x \<Longrightarrow> is_finite y \<Longrightarrow> \<exists>z. dec_add x y = Inr z \<and> is_finite z"
  by (auto simp: is_finite_iff [of x] is_finite_iff [of y] dec_add_def nan_simps Let_def)

lemma dec_negated_finite [simp]: "is_finite (dec_negated x) \<longleftrightarrow> is_finite x"
  by (cases x) (simp_all add: is_finite_def)

lemma dec_sub_finite: "is_finite x \<Longrightarrow> is_finite y \<Longrightarrow> \<exists>z. dec_sub x y = Inr z \<and> is_finite z"
  by (simp add: dec_sub_def dec_add_finite)

lemma dec_mul_finite: "is_finite x \<Longrightarrow> is_finite y \<Longrightarrow> \<exists>z. dec_mul x y = Inr z \<and> is_finite z"
  by (auto simp: is_finite_iff [of x] is_finite_iff [of y] dec_mul_def nan_simps)

lemma dec_eq_finite: "is_finite x \<Longrightarrow> is_finite y \<Longrightarrow> \<exists>b. dec_eq x y = Inr b"
  by (auto simp: is_finite_iff [of x] is_finite_iff [of y] dec_eq_def nan_simps)

lemma dec_less_finite: "is_finite x \<Longrightarrow> is_finite y \<Longrightarrow> \<exists>b. dec_less x y = Inr b"
  by (auto simp: is_finite_iff [of x] is_finite_iff [of y] dec_less_def nan_simps)

lemma dec_abs_finite: "is_finite x \<Longrightarrow> \<exists>z. dec_abs x = Inr z \<and> is_finite z"
  by (auto simp: is_finite_iff [of x] dec_abs_def)

lemma dec_zero_finite [simp]: "is_finite dec_zero" "is_finite (dec_of n)"
  by (simp_all add: dec_zero_def dec_of_def is_finite_def)

lemma dec_value_zero: "dec_value n c e = 0 \<longleftrightarrow> c = 0"
  by (simp add: dec_value_def signed_coefficient_def)

lemma dec_eq_zero: "dec_eq (Finite n c e) dec_zero = Inr (c = 0)"
  by (simp add: dec_eq_def nan_simps dec_zero_def dec_value_zero) (simp add: dec_value_def signed_coefficient_def)

lemma dec_div_finite:
  assumes "is_finite x" "is_finite y" "dec_eq y dec_zero = Inr False"
  shows "\<exists>z. dec_div x y = Inr z \<and> is_finite z"
proof -
  obtain n1 c1 e1 n2 c2 e2 where "x = Finite n1 c1 e1" "y = Finite n2 c2 e2"
    using assms(1,2) by (auto simp: is_finite_iff)
  then show ?thesis
    using assms(3) by (simp add: dec_div_def nan_simps dec_eq_zero is_finite_def [of "Finite _ _ _"])
qed

end
