(* ===== verification/Prices.thy ===== *)
theory Prices
  imports Decimal_Arith "HOL-Library.AList"
begin

text \<open>
  The price logic of the producer (\<^verbatim>\<open>producer/prices.py\<close>): reading a spot price, the bodies of the
  \<^verbatim>\<open>price.tick\<close> and \<^verbatim>\<open>price.alert\<close> events, and the tracker that decides when to alert. A dict of
  symbols is an association list in insertion order.
\<close>

section \<open>Reading a price\<close>

text \<open>Every exception of the three lookups and of the constructor becomes a ValueError.\<close>

definition parse_spot_price :: "(json \<Rightarrow> utext) \<Rightarrow> json \<Rightarrow> py_exc + py_decimal" where
  "parse_spot_price rp payload =
     (case bind_exc (json_item payload ''data'') (\<lambda>d. json_item d ''amount'') of
        Inl _ \<Rightarrow> Inl (ValueError ''unrecognized spot price payload'')
      | Inr v \<Rightarrow>
          (case parse_decimal (py_str rp v) of
             None \<Rightarrow> Inl (ValueError ''unrecognized spot price payload'')
           | Some x \<Rightarrow> Inr x))"

section \<open>Event bodies\<close>

type_synonym event_body = "utext \<times> payload"

definition tick_event :: utext where
  "tick_event = ucode ''price.tick''"

definition alert_event :: utext where
  "alert_event = ucode ''price.alert''"

definition pct_change :: "py_decimal \<Rightarrow> py_decimal \<Rightarrow> py_exc + py_decimal" where
  "pct_change prev cur =
     bind_exc (dec_eq prev dec_zero) (\<lambda>z.
       if z then Inr dec_zero
       else bind_exc (dec_sub cur prev) (\<lambda>d. bind_exc (dec_div d prev) (\<lambda>q. dec_mul q (dec_of 100))))"

definition split_symbol :: "utext \<Rightarrow> utext \<times> utext" where
  "split_symbol symbol =
     (let quote = drop 1 (dropWhile (\<lambda>c. c \<noteq> 45) symbol)
      in (takeWhile (\<lambda>c. c \<noteq> 45) symbol, if quote = [] then ucode ''USD'' else quote))"

definition text_item :: "string \<Rightarrow> utext \<Rightarrow> utext \<times> json" where
  "text_item k v = (ucode k, JStr v)"

definition build_tick_event :: "utext \<Rightarrow> py_decimal \<Rightarrow> py_decimal option \<Rightarrow> time \<Rightarrow> py_exc + event_body" where
  "build_tick_event symbol price prev_price now =
     bind_exc (case prev_price of None \<Rightarrow> Inr dec_zero | Some prev \<Rightarrow> dec_sub price prev) (\<lambda>change.
     bind_exc (case prev_price of None \<Rightarrow> Inr dec_zero | Some prev \<Rightarrow> pct_change prev price) (\<lambda>pct.
     bind_exc (dec_eq change dec_zero) (\<lambda>flat.
     bind_exc (if flat then Inr ''flat'' else bind_exc (dec_less dec_zero change) (\<lambda>up. Inr (if up then ''up'' else ''down''))) (\<lambda>direction.
       case split_symbol symbol of (base, quote) \<Rightarrow>
         Inr (tick_event,
           [text_item ''symbol'' symbol, text_item ''base'' base, text_item ''quote'' quote,
            text_item ''price'' (ucode (dec_str price)), text_item ''change'' (ucode (dec_str change)),
            text_item ''change_pct'' (ucode (dec_fixed2 pct)), text_item ''direction'' (ucode direction),
            text_item ''observed_at'' (ucode (isoformat now))])))))"

definition build_alert_event :: "utext \<Rightarrow> py_decimal \<Rightarrow> py_decimal \<Rightarrow> py_decimal \<Rightarrow> time \<Rightarrow> py_exc + event_body" where
  "build_alert_event symbol price anchor_price threshold_pct now =
     bind_exc (pct_change anchor_price price) (\<lambda>pct.
     bind_exc (dec_less dec_zero pct) (\<lambda>up.
     case split_symbol symbol of (base, quote) \<Rightarrow>
     bind_exc (dec_abs pct) (\<lambda>size.
       Inr (alert_event,
         [text_item ''symbol'' symbol, text_item ''base'' base, text_item ''quote'' quote,
          text_item ''price'' (ucode (dec_str price)), text_item ''anchor_price'' (ucode (dec_str anchor_price)),
          text_item ''change_pct'' (ucode (dec_fixed2 pct)), text_item ''direction'' (ucode (if up then ''up'' else ''down'')),
          text_item ''threshold_pct'' (ucode (dec_str threshold_pct)),
          text_item ''headline'' (base @ ucode '' '' @ [if up then 9650 else 9660] @ ucode '' '' @ ucode (dec_fixed2 size) @ ucode ''% ''
            @ [8594] @ ucode '' '' @ ucode (dec_str price) @ ucode '' '' @ quote),
          text_item ''observed_at'' (ucode (isoformat now))]))))"

section \<open>The tracker\<close>

record symbol_state =
  ss_last :: py_decimal
  ss_anchor :: py_decimal

record price_tracker =
  pt_threshold :: py_decimal
  pt_states :: "(utext \<times> symbol_state) list"

text \<open>
  Each event reads the clock, or gets the same given instant. Nothing raises once the state is being changed, so an
  exception leaves the tracker as it was.
\<close>

definition observe :: "utext \<Rightarrow> py_decimal \<Rightarrow> time \<Rightarrow> time \<Rightarrow> price_tracker \<Rightarrow> (py_exc + event_body list) \<times> price_tracker" where
  "observe symbol price now alert_now t =
     (let state = map_of (pt_states t) symbol;
          store = (\<lambda>st. t\<lparr>pt_states := AList.update symbol st (pt_states t)\<rparr>)
      in case build_tick_event symbol price (map_option ss_last state) now of
           Inl e \<Rightarrow> (Inl e, t)
         | Inr tick \<Rightarrow>
             (case state of
                None \<Rightarrow> (Inr [tick], store \<lparr> ss_last = price, ss_anchor = price \<rparr>)
              | Some st \<Rightarrow>
                  (case bind_exc (bind_exc (pct_change (ss_anchor st) price) dec_abs) (\<lambda>size. dec_less_eq (pt_threshold t) size) of
                     Inl e \<Rightarrow> (Inl e, t)
                   | Inr False \<Rightarrow> (Inr [tick], store (st\<lparr>ss_last := price\<rparr>))
                   | Inr True \<Rightarrow>
                       (case build_alert_event symbol price (ss_anchor st) (pt_threshold t) alert_now of
                          Inl e \<Rightarrow> (Inl e, t)
                        | Inr alert \<Rightarrow> (Inr [tick, alert], store \<lparr> ss_last = price, ss_anchor = price \<rparr>)))))"

definition latest :: "price_tracker \<Rightarrow> (utext \<times> py_decimal) list" where
  "latest t = map (\<lambda>(s, st). (s, ss_last st)) (pt_states t)"

section \<open>Finite prices raise nothing\<close>

lemma pct_change_finite:
  assumes "is_finite prev" "is_finite cur"
  shows "\<exists>z. pct_change prev cur = Inr z \<and> is_finite z"
proof (cases "dec_eq prev dec_zero = Inr True")
  case True
  then show ?thesis
    by (simp add: pct_change_def)
next
  case False
  then have zero: "dec_eq prev dec_zero = Inr False"
    using dec_eq_finite [OF assms(1) dec_zero_finite(1)] by auto
  obtain d where d: "dec_sub cur prev = Inr d" "is_finite d"
    using dec_sub_finite assms by blast
  obtain q where q: "dec_div d prev = Inr q" "is_finite q"
    using dec_div_finite [OF d(2) assms(1) zero] by blast
  then show ?thesis
    using zero d dec_mul_finite [OF q(2) dec_zero_finite(2), of 100] by (simp add: pct_change_def)
qed

lemma build_tick_finite:
  assumes "is_finite price" "\<forall>prev. prev_price = Some prev \<longrightarrow> is_finite prev"
  shows "\<exists>p. build_tick_event symbol price prev_price now = Inr (tick_event, p)"
proof -
  obtain change where change: "(case prev_price of None \<Rightarrow> Inr dec_zero | Some prev \<Rightarrow> dec_sub price prev) = Inr change" "is_finite change"
    using dec_sub_finite assms by (cases prev_price) auto
  obtain pct where pct: "(case prev_price of None \<Rightarrow> Inr dec_zero | Some prev \<Rightarrow> pct_change prev price) = Inr pct"
    using pct_change_finite [OF _ assms(1)] assms(2) by (cases prev_price) fastforce+
  obtain flat up where "dec_eq change dec_zero = Inr flat" "dec_less dec_zero change = Inr up"
    using dec_eq_finite [OF change(2) dec_zero_finite(1)] dec_less_finite [OF dec_zero_finite(1) change(2)] by blast
  then show ?thesis
    unfolding build_tick_event_def change(1) pct by (simp split: prod.split)
qed

lemma build_alert_finite:
  assumes "is_finite price" "is_finite anchor"
  shows "\<exists>p. build_alert_event symbol price anchor thr now = Inr (alert_event, p)"
proof -
  obtain pct where pct: "pct_change anchor price = Inr pct" "is_finite pct"
    using pct_change_finite assms by blast
  obtain up size where "dec_less dec_zero pct = Inr up" "dec_abs pct = Inr size"
    using dec_less_finite [OF dec_zero_finite(1) pct(2)] dec_abs_finite [OF pct(2)] by blast
  then show ?thesis
    unfolding build_alert_event_def pct(1) by (simp split: prod.split)
qed

text \<open>A tracker of finite prices and a finite threshold.\<close>

definition tracker_ok :: "price_tracker \<Rightarrow> bool" where
  "tracker_ok t \<longleftrightarrow> is_finite (pt_threshold t) \<and> distinct (map fst (pt_states t))
     \<and> list_all (\<lambda>(s, st). is_finite (ss_last st) \<and> is_finite (ss_anchor st)) (pt_states t)"

lemma tracker_state_finite:
  assumes "tracker_ok t" "map_of (pt_states t) symbol = Some st"
  shows "is_finite (ss_last st)" "is_finite (ss_anchor st)"
  using assms map_of_SomeD [OF assms(2)] by (auto simp: tracker_ok_def list_all_iff)

lemma tracker_ok_store:
  assumes "tracker_ok t" "is_finite (ss_last st)" "is_finite (ss_anchor st)"
  shows "tracker_ok (t\<lparr>pt_states := AList.update symbol st (pt_states t)\<rparr>)"
proof -
  have "set (AList.update symbol st xs) \<subseteq> insert (symbol, st) (set xs)" for xs
    by (induction xs) auto
  then show ?thesis
    using assms by (fastforce simp: tracker_ok_def list_all_iff distinct_update)
qed

text \<open>One observation: a tick always, an alert exactly when the anchor is left, and then it moves.\<close>

definition alerts :: "utext \<Rightarrow> py_decimal \<Rightarrow> price_tracker \<Rightarrow> bool" where
  "alerts symbol price t \<longleftrightarrow>
     (case map_of (pt_states t) symbol of
        None \<Rightarrow> False
      | Some st \<Rightarrow> bind_exc (bind_exc (pct_change (ss_anchor st) price) dec_abs) (\<lambda>size. dec_less_eq (pt_threshold t) size) = Inr True)"

lemma observe_finite:
  assumes "tracker_ok t" "is_finite price"
  obtains tick more t' where "observe symbol price now alert_now t = (Inr ((tick_event, tick) # more), t')"
    and "map fst more = (if alerts symbol price t then [alert_event] else [])"
    and "tracker_ok t'" "pt_threshold t' = pt_threshold t"
    and "map_of (pt_states t') = (map_of (pt_states t))(symbol \<mapsto> \<lparr> ss_last = price,
          ss_anchor = (case map_of (pt_states t) symbol of None \<Rightarrow> price | Some st \<Rightarrow> if alerts symbol price t then price else ss_anchor st) \<rparr>)"
proof -
  let ?st = "map_of (pt_states t) symbol"
  obtain tick where tick: "build_tick_event symbol price (map_option ss_last ?st) now = Inr (tick_event, tick)"
    using build_tick_finite [OF assms(2), of "map_option ss_last ?st"] tracker_state_finite [OF assms(1)] by fastforce
  show thesis
  proof (cases ?st)
    case None
    then show thesis
      using that [of tick "[]" "t\<lparr>pt_states := AList.update symbol \<lparr> ss_last = price, ss_anchor = price \<rparr> (pt_states t)\<rparr>"] tick
        tracker_ok_store [OF assms(1), of "\<lparr> ss_last = price, ss_anchor = price \<rparr>" symbol] assms(2)
      by (simp add: observe_def alerts_def update_conv')
  next
    case (Some st)
    note fin = tracker_state_finite [OF assms(1) Some]
    obtain pct size where size: "pct_change (ss_anchor st) price = Inr pct" "dec_abs pct = Inr size" "is_finite size"
      using pct_change_finite [OF fin(2) assms(2)] dec_abs_finite by blast
    obtain b where b: "dec_less_eq (pt_threshold t) size = Inr b"
      using dec_less_finite [OF size(3)] assms(1) by (fastforce simp: dec_less_eq_def tracker_ok_def)
    have al: "alerts symbol price t = b"
      using Some size b by (simp add: alerts_def)
    obtain p where p: "build_alert_event symbol price (ss_anchor st) (pt_threshold t) alert_now = Inr (alert_event, p)"
      using build_alert_finite [OF assms(2) fin(2)] by blast
    show thesis
    proof (cases b)
      case True
      then show thesis
        using that [of tick "[(alert_event, p)]" "t\<lparr>pt_states := AList.update symbol \<lparr> ss_last = price, ss_anchor = price \<rparr> (pt_states t)\<rparr>"]
          tick p Some size b al tracker_ok_store [OF assms(1), of "\<lparr> ss_last = price, ss_anchor = price \<rparr>" symbol] assms(2)
        by (simp add: observe_def update_conv')
    next
      case False
      then show thesis
        using that [of tick "[]" "t\<lparr>pt_states := AList.update symbol (st\<lparr>ss_last := price\<rparr>) (pt_states t)\<rparr>"]
          tick Some size b al tracker_ok_store [OF assms(1), of "st\<lparr>ss_last := price\<rparr>" symbol] assms(2) fin(2)
        by (cases st) (simp add: observe_def update_conv')
    qed
  qed
qed

text \<open>A NaN after a first price of the symbol raises: the comparison with zero does.\<close>

lemma observe_nan_raises:
  assumes "map_of (pt_states t) symbol = Some st" "is_nan price"
  shows "observe symbol price now alert_now t = (Inl InvalidOperation, t)"
proof -
  have "build_tick_event symbol price (Some (ss_last st)) now = Inl InvalidOperation"
  proof (cases "dec_sub price (ss_last st)")
    case (Inl e)
    then show ?thesis
      using assms(2) by (cases price; cases "ss_last st")
        (auto simp: build_tick_event_def dec_sub_def dec_add_def nan_simps split: if_splits)
  next
    case (Inr change)
    then have "is_nan change" "\<not> is_signaling change"
      using assms(2) by (cases price; cases "ss_last st"; auto simp: dec_sub_def dec_add_def nan_simps)+
    then have "dec_eq change dec_zero = Inr False" "dec_less dec_zero change = Inl InvalidOperation"
      by (cases change; simp add: dec_eq_def dec_less_def nan_simps dec_zero_def)+
    moreover have "(\<exists>pct. pct_change (ss_last st) price = Inr pct) \<or> pct_change (ss_last st) price = Inl InvalidOperation"
      using assms(2) Inr by (cases price; cases "ss_last st")
        (auto simp: pct_change_def dec_eq_def dec_sub_def dec_add_def dec_div_def dec_mul_def nan_simps dec_of_def)
    ultimately show ?thesis
      using Inr unfolding build_tick_event_def by auto
  qed
  then show ?thesis
    using assms(1) by (simp add: observe_def)
qed

end
