(* ===== verification/Trades.thy ===== *)
theory Trades
  imports Prices Reconcile
begin

text \<open>
  The trade logic of the producer (\<^verbatim>\<open>producer/trades.py\<close>). What the random generator draws is an argument:
  an index for each choice, taken modulo the number of candidates, and the text \<^verbatim>\<open>str\<close> gives for the
  rounded notional; so are the trade's id and the instant, read from the clock unless one is given. The property connects the producer's trades with the banks and the event log.
\<close>

section \<open>Building a trade\<close>

definition cents_unit :: py_decimal where
  "cents_unit = Finite False 1 (- 2)"

definition quantity_unit :: py_decimal where
  "quantity_unit = Finite False 1 (- 8)"

definition build_trade_event ::
  "uuid \<Rightarrow> utext \<Rightarrow> utext \<Rightarrow> py_decimal \<Rightarrow> utext \<Rightarrow> py_decimal \<Rightarrow> time \<Rightarrow> py_exc + event_body" where
  "build_trade_event trade_id account symbol price side quantity now =
     bind_exc (dec_mul quantity price) (\<lambda>product.
     bind_exc (dec_quantize product cents_unit) (\<lambda>amount.
       Inr (trade_executed,
         [text_item ''trade_id'' (ucode (uuid_hex trade_id)), text_item ''account'' account, text_item ''symbol'' symbol,
          text_item ''side'' side, text_item ''quantity'' (ucode (dec_str quantity)), text_item ''amount'' (ucode (dec_str amount)),
          text_item ''price'' (ucode (dec_str price)), text_item ''executed_at'' (ucode (isoformat now))])))"

section \<open>The generator\<close>

record trade_generator =
  tg_accounts :: "utext list"
  tg_last_price :: "(utext \<times> py_decimal) list"

record trade_draw =
  td_side_draw :: nat
  td_account_draw :: nat
  td_notional :: utext
  td_trade_id :: uuid
  td_now :: time

definition choice :: "'a list \<Rightarrow> nat \<Rightarrow> py_exc + 'a" where
  "choice xs k = (if xs = [] then Inl IndexError else Inr (xs ! (k mod length xs)))"

text \<open>The constructor of Decimal raises InvalidOperation for a text it does not read.\<close>

definition decimal_of :: "utext \<Rightarrow> py_exc + py_decimal" where
  "decimal_of t = (case parse_decimal t of None \<Rightarrow> Inl InvalidOperation | Some x \<Rightarrow> Inr x)"

definition trade_quantity :: "utext \<Rightarrow> py_decimal \<Rightarrow> py_exc + py_decimal" where
  "trade_quantity notional_text price =
     bind_exc (decimal_of notional_text) (\<lambda>notional.
     bind_exc (dec_less_eq price dec_zero) (\<lambda>not_positive.
       if not_positive then Inr dec_zero
       else bind_exc (dec_div notional price) (\<lambda>q. dec_quantize q quantity_unit)))"

definition trade_side :: "nat \<Rightarrow> utext \<Rightarrow> py_decimal \<Rightarrow> trade_generator \<Rightarrow> py_exc + utext" where
  "trade_side draw symbol price g =
     (case map_of (tg_last_price g) symbol of
        None \<Rightarrow> choice [ucode ''buy'', ucode ''sell''] draw
      | Some prev \<Rightarrow>
          bind_exc (dec_eq prev price) (\<lambda>same.
            if same then choice [ucode ''buy'', ucode ''sell''] draw
            else bind_exc (dec_less prev price) (\<lambda>up. Inr (if up then ucode ''buy'' else ucode ''sell''))))"

text \<open>The price is remembered before the trade is built, also when building it raises.\<close>

definition remember :: "utext \<Rightarrow> py_decimal \<Rightarrow> trade_generator \<Rightarrow> trade_generator" where
  "remember symbol price g = g\<lparr>tg_last_price := AList.update symbol price (tg_last_price g)\<rparr>"

definition sized_trade :: "trade_draw \<Rightarrow> utext \<Rightarrow> utext \<Rightarrow> py_decimal \<Rightarrow> utext \<Rightarrow> py_exc + event_body" where
  "sized_trade io account symbol price side =
     bind_exc (trade_quantity (td_notional io) price) (\<lambda>quantity.
       build_trade_event (td_trade_id io) account symbol price side quantity (td_now io))"

definition next_trade ::
  "trade_draw \<Rightarrow> utext \<Rightarrow> py_decimal \<Rightarrow> trade_generator \<Rightarrow> (py_exc + event_body) \<times> trade_generator" where
  "next_trade io symbol price g =
     (case bind_exc (trade_side (td_side_draw io) symbol price g) (\<lambda>side.
           bind_exc (choice (tg_accounts g) (td_account_draw io)) (\<lambda>account. Inr (side, account))) of
        Inl e \<Rightarrow> (Inl e, g)
      | Inr (side, account) \<Rightarrow> (sized_trade io account symbol price side, remember symbol price g))"

fun sized_trades :: "trade_draw list \<Rightarrow> utext \<Rightarrow> utext \<Rightarrow> py_decimal \<Rightarrow> utext \<Rightarrow> py_exc + event_body list" where
  "sized_trades [] account symbol price side = Inr []"
| "sized_trades (io # ios) account symbol price side =
     bind_exc (sized_trade io account symbol price side) (\<lambda>e.
     bind_exc (sized_trades ios account symbol price side) (\<lambda>es. Inr (e # es)))"

text \<open>The account is drawn before the side here; both draws are those of the first trade.\<close>

definition burst_same_account ::
  "nat \<Rightarrow> nat \<Rightarrow> trade_draw list \<Rightarrow> utext \<Rightarrow> py_decimal \<Rightarrow> trade_generator \<Rightarrow> (py_exc + event_body list) \<times> trade_generator" where
  "burst_same_account account_draw side_draw ios symbol price g =
     (case bind_exc (choice (tg_accounts g) account_draw) (\<lambda>account.
           bind_exc (trade_side side_draw symbol price g) (\<lambda>side. Inr (side, account))) of
        Inl e \<Rightarrow> (Inl e, g)
      | Inr (side, account) \<Rightarrow> (sized_trades ios account symbol price side, remember symbol price g))"

section \<open>What a trade holds\<close>

lemma choice_mem: "choice xs k = Inr x \<Longrightarrow> x \<in> set xs"
  by (auto simp: choice_def split: if_splits)

lemma trade_side_values: "trade_side draw symbol price g = Inr side \<Longrightarrow> side = ucode ''buy'' \<or> side = ucode ''sell''"
  by (auto simp: trade_side_def bind_exc_Inr dest: choice_mem split: option.splits if_splits)

text \<open>A product of numbers that are not negative, as printed for the log.\<close>

definition plain_sign :: "py_decimal \<Rightarrow> bool" where
  "plain_sign x \<longleftrightarrow> (case x of Finite neg _ _ \<Rightarrow> \<not> neg | _ \<Rightarrow> False)"

lemma plain_sign_iff: "plain_sign x \<longleftrightarrow> (\<exists>c e. x = Finite False c e)"
  by (cases x) (auto simp: plain_sign_def)

lemma round_context_sign: "\<exists>c' e'. round_context neg c e = Finite neg c' e'"
  by (simp add: round_context_def Let_def)

lemma quotient_sign: "\<exists>c' e'. dec_quotient neg c1 e1 c2 e2 = Finite neg c' e'"
  using round_context_sign by (auto simp: dec_quotient_def Let_def split: prod.split)

lemma dec_mul_plain: "plain_sign x \<Longrightarrow> plain_sign y \<Longrightarrow> dec_mul x y = Inr z \<Longrightarrow> plain_sign z"
  using round_context_sign by (fastforce simp: plain_sign_iff dec_mul_def nan_simps)

lemma dec_div_plain: "plain_sign x \<Longrightarrow> plain_sign y \<Longrightarrow> dec_div x y = Inr z \<Longrightarrow> plain_sign z"
  using quotient_sign by (fastforce simp: plain_sign_iff dec_div_def nan_simps split: if_splits)

lemma dec_quantize_plain: "plain_sign x \<Longrightarrow> plain_sign y \<Longrightarrow> dec_quantize x y = Inr z \<Longrightarrow> plain_sign z"
  by (auto simp: plain_sign_iff dec_quantize_def nan_simps split: if_splits)

lemma trade_quantity_plain:
  assumes "trade_quantity notional_text price = Inr q" "plain_sign price" "parse_decimal notional_text = Some (Finite False c e)"
  shows "plain_sign q"
proof -
  obtain np where np: "dec_less_eq price dec_zero = Inr np"
      "(if np then Inr dec_zero else bind_exc (dec_div (Finite False c e) price) (\<lambda>x. dec_quantize x quantity_unit)) = Inr q"
    using assms(1,3) by (auto simp: trade_quantity_def decimal_of_def bind_exc_Inr)
  show ?thesis
  proof (cases np)
    case True
    then show ?thesis
      using np(2) by (auto simp: plain_sign_def dec_zero_def)
  next
    case False
    then obtain x where x: "dec_div (Finite False c e) price = Inr x" "dec_quantize x quantity_unit = Inr q"
      using np(2) by (auto simp: bind_exc_Inr)
    have "plain_sign x"
      using dec_div_plain [OF _ assms(2) x(1)] by (simp add: plain_sign_def)
    then show ?thesis
      using dec_quantize_plain [OF _ _ x(2)] by (simp add: plain_sign_def quantity_unit_def)
  qed
qed

lemma udigits_ucode:
  assumes "list_all is_digit s"
  shows "list_all is_udigit (ucode s)" "udigits_value (ucode s) = digits_value s"
proof -
  show "list_all is_udigit (ucode s)"
    using assms by (induction s) (auto simp: is_digit_def is_udigit_def code_def)
  show "udigits_value (ucode s) = digits_value s"
    by (simp add: udigits_value_def digits_value_def ucode_def foldl_map code_def mult.commute)
qed

lemma fixed_point_cents: "fixed_point (ucode (show_cents False n)) = Some (n, 2)"
proof -
  let ?ip = "show_nat (n div 100)" and ?fp = "[digit (n div 10 mod 10), digit (n mod 10)]"
  have dig: "list_all is_digit ?ip" "list_all is_digit ?fp"
    using show_nat_digits [of "n div 100"] by (auto simp: list_all_iff is_digit_digit)
  note u = udigits_ucode [OF dig(1)] udigits_ucode [OF dig(2)]
  have fp: "length (ucode ?fp) = 2"
    by simp
  have "n div 100 = n div 10 div 10"
    by (simp add: div_mult2_eq [symmetric])
  then have "n div 100 * 100 + n div 10 mod 10 * 10 + n mod 10 = n"
    using div_mult_mod_eq [of n 10] div_mult_mod_eq [of "n div 10" 10] by linarith
  then have "digits_value (?ip @ ?fp) = n"
    using digits_value_show_nat [of "n div 100"] by (simp add: digits_value_def)
  then have v: "udigits_value (ucode ?ip @ ucode ?fp) = n"
    using udigits_ucode(2) [of "?ip @ ?fp"] dig by simp
  have t: "ucode (show_cents False n) = ucode ?ip @ 46 # ucode ?fp"
    by (simp add: show_cents_def)
  have "takeWhile is_udigit (ucode (show_cents False n)) = ucode ?ip" "dropWhile is_udigit (ucode (show_cents False n)) = 46 # ucode ?fp"
    unfolding t takeWhile_digits [OF u(1)] by (simp_all add: is_udigit_def)
  moreover have "ucode ?ip \<noteq> []"
    by simp
  ultimately show ?thesis
    using fp u(3) v unfolding fixed_point_def Let_def by (auto simp del: ucode_simps(2))
qed

text \<open>The body of a trade, read back as a bank and as the log's query read it.\<close>

definition counted_alike :: "(json \<Rightarrow> utext) \<Rightarrow> (json \<Rightarrow> utext) \<Rightarrow> utext \<Rightarrow> time \<Rightarrow> payload \<Rightarrow> bool" where
  "counted_alike rp jtext account now p \<longleftrightarrow>
     (\<exists>tr v t. parse_trade rp p = Inr (Some tr) \<and> trade_row jtext p = Some (tr_account tr, v, Some t)
        \<and> v * 100 = of_int (tr_delta tr) \<and> tr_account tr = account \<and> tr_executed_at tr = now)"

lemma sized_trade_counted:
  assumes "sized_trade io account symbol price side = Inr (ty, p)" "plain_sign price"
    and "parse_decimal (td_notional io) = Some (Finite False c e)" "account \<noteq> []" "time_in_range (td_now io)"
    and "side = ucode ''buy'' \<or> side = ucode ''sell''"
  shows "ty = trade_executed \<and> counted_alike rp jtext account (td_now io) p"
proof -
  obtain q m a where q: "trade_quantity (td_notional io) price = Inr q" "dec_mul q price = Inr m" "dec_quantize m cents_unit = Inr a"
    and ty: "ty = trade_executed"
    and p: "p = [text_item ''trade_id'' (ucode (uuid_hex (td_trade_id io))), text_item ''account'' account, text_item ''symbol'' symbol,
      text_item ''side'' side, text_item ''quantity'' (ucode (dec_str q)), text_item ''amount'' (ucode (dec_str a)),
      text_item ''price'' (ucode (dec_str price)), text_item ''executed_at'' (ucode (isoformat (td_now io)))]"
    using assms(1) by (auto simp: sized_trade_def build_trade_event_def bind_exc_Inr)
  have "plain_sign m"
    using dec_mul_plain [OF trade_quantity_plain [OF q(1) assms(2,3)] assms(2) q(2)] .
  then obtain cm em where m: "m = Finite False cm em"
    by (auto simp: plain_sign_iff)
  then obtain n where n: "quantize_cents (Finite False cm em) = Some (Cents False n)" "a = Finite False n (- 2)"
    using q(3) unfolding m cents_unit_def quantize_to_cents by blast
  then have shown: "dec_str a = show_cents False n" and small: "n < 10 ^ 28"
    by (auto simp: dec_str_cents quantize_cents_def Let_def simp del: dec_str.simps split: if_splits)
  have items: "get_item p ''account'' = Some (JStr account)" "get_item p ''side'' = Some (JStr side)"
      "get_item p ''amount'' = Some (JStr (ucode (show_cents False n)))" "get_item p ''executed_at'' = Some (JStr (ucode (isoformat (td_now io))))"
    unfolding p shown by (simp_all add: get_item_def text_item_def)
  have "cents_trade p"
    unfolding cents_trade_def using items fixed_point_cents [of n] fromisoformat_isoformat [OF assms(5)]
    by (intro exI conjI) (assumption | simp | auto simp: fromisoformat_def)+
  moreover have "\<exists>tr. parse_trade rp p = Inr (Some tr) \<and> tr_account tr = account \<and> tr_executed_at tr = (td_now io)"
  proof -
    have "fromisoformat (ascii_view (ucode (isoformat (td_now io)))) = Some (Aware (td_now io))"
      using isoformat_chars [OF assms(5)] ascii_view_ucode [of "isoformat (td_now io)"] fromisoformat_isoformat [OF assms(5)] by simp
    moreover have "parse_amount (ucode (show_cents False n)) = Some (Cents False n)"
      using parse_fixed_point [OF fixed_point_cents] quantize_fixed_point [OF fixed_point_cents] small by (simp add: parse_amount_def)
    moreover have "is_side p = Some side"
      using assms(6) items(2) by (auto simp: is_side_def)
    ultimately show ?thesis
      using assms(4) items unfolding parse_trade_def str_item_def py_str_def by (simp add: signed_cents_def not_less)
  qed
  ultimately show ?thesis
    using trade_row_cents ty unfolding counted_alike_def by blast
qed

lemma sized_trades_mem:
  "sized_trades ios account symbol price side = Inr es \<Longrightarrow> e \<in> set es
    \<Longrightarrow> \<exists>io \<in> set ios. sized_trade io account symbol price side = Inr e"
  by (induction ios arbitrary: es) (auto simp: bind_exc_Inr)

section \<open>Properties\<close>

text \<open>C29: Every trade the producer publishes is counted alike on both sides: whether single or from a burst on one
  account, at any price that is not negative, its body is accepted by the banks' parser and by the query
  over the event log, for the same account of the configured ones, the same signed amount to the cent
  and the instant it was built at.\<close>

theorem producer_trade_reconciles:
  assumes "fst (next_trade io symbol price g) = Inr e
      \<or> (\<exists>es. fst (burst_same_account k l (io # ios) symbol price g) = Inr es \<and> e \<in> set es)"
    and "plain_sign price" "[] \<notin> set (tg_accounts g)"
    and "\<forall>i \<in> set (io # ios). time_in_range (td_now i) \<and> (\<exists>c x. parse_decimal (td_notional i) = Some (Finite False c x))"
  shows "fst e = trade_executed \<and> (\<exists>account \<in> set (tg_accounts g). \<exists>i \<in> set (io # ios).
    counted_alike rp jtext account (td_now i) (snd e))"
proof -
  obtain i account side where i: "i \<in> set (io # ios)" "account \<in> set (tg_accounts g)" "side = ucode ''buy'' \<or> side = ucode ''sell''"
    and e: "sized_trade i account symbol price side = Inr e"
  proof (cases "fst (next_trade io symbol price g) = Inr e")
    case True
    then obtain a b where ab: "trade_side (td_side_draw io) symbol price g = Inr a" "choice (tg_accounts g) (td_account_draw io) = Inr b"
      "sized_trade io b symbol price a = Inr e"
      by (auto simp: next_trade_def bind_exc_Inr split: sum.splits)
    then show thesis
      using that [of io b a] choice_mem [OF ab(2)] trade_side_values [OF ab(1)] by simp
  next
    case False
    then obtain es where es: "fst (burst_same_account k l (io # ios) symbol price g) = Inr es" "e \<in> set es"
      using assms(1) by auto
    then obtain a b where ab: "trade_side l symbol price g = Inr a" "choice (tg_accounts g) k = Inr b"
      "sized_trades (io # ios) b symbol price a = Inr es"
      by (auto simp: burst_same_account_def bind_exc_Inr simp del: sized_trades.simps split: sum.splits)
    then obtain i where "i \<in> set (io # ios)" "sized_trade i b symbol price a = Inr e"
      using sized_trades_mem [OF ab(3) es(2)] by blast
    then show thesis
      using that [of i b a] choice_mem [OF ab(2)] trade_side_values [OF ab(1)] by simp
  qed
  obtain c x where draw: "parse_decimal (td_notional i) = Some (Finite False c x)" "time_in_range (td_now i)"
    using assms(4) i(1) by blast
  have "account \<noteq> []"
    using assms(3) i(2) by auto
  moreover have "sized_trade i account symbol price side = Inr (fst e, snd e)"
    using e by simp
  ultimately have "fst e = trade_executed \<and> counted_alike rp jtext account (td_now i) (snd e)"
    using sized_trade_counted [OF _ assms(2) draw(1) _ draw(2) i(3)] by blast
  then show ?thesis
    using i(1,2) by blast
qed

definition sample_generator :: trade_generator where
  "sample_generator = \<lparr> tg_accounts = [ucode ''alice'', ucode ''bob''], tg_last_price = [] \<rparr>"

definition sample_draw :: trade_draw where
  "sample_draw = \<lparr> td_side_draw = 0, td_account_draw = 1, td_notional = ucode ''25.5'', td_trade_id = 7, td_now = 0 \<rparr>"

lemma sample_notional: "parse_decimal (td_notional sample_draw) = Some (Finite False 255 (- 1))"
proof -
  have "fixed_point (ucode ''25.5'') = Some (255, 1)"
    by (simp add: fixed_point_def is_udigit_def udigits_value_def)
  then show ?thesis
    using parse_fixed_point by (fastforce simp: sample_draw_def)
qed

lemma sample_quotient: "dec_quotient False 255 (- 1) 7 0 = Finite False 3642857142857142857142857143 (- 27)"
proof -
  have "ndigits 7 = 1"
    unfolding ndigits_def by (subst show_nat.simps) simp
  moreover have "ndigits 255 = 3" "ndigits 36428571428571428571428571428 = 29" "ndigits 3642857142857142857142857143 = 28"
    using ndigits_eq [of 2 255] ndigits_eq [of 28 36428571428571428571428571428] ndigits_eq [of 27 3642857142857142857142857143] by simp_all
  moreover have "round_half_even (of_nat 36428571428571428571428571428 / 10) = 3642857142857142857142857143"
    by (rule round_half_even_eq) simp
  ultimately show ?thesis
    by (simp add: dec_quotient_def round_context_def precision_def Let_def)
qed

lemma sample_quantity: "trade_quantity (td_notional sample_draw) (Finite False 7 0) = Inr (Finite False 364285714 (- 8))"
proof -
  have "ndigits 364285714 \<le> precision"
    using ndigits_precision [of 364285714] by simp
  moreover have "dec_less dec_zero (Finite False 7 0) = Inr True"
    by (simp add: dec_less_def nan_simps dec_zero_def dec_value_def signed_coefficient_def)
  moreover have "round_half_even (of_nat 3642857142857142857142857143 / 10 ^ 19) = 364285714"
    by (rule round_half_even_eq) simp
  then have "rescaled 3642857142857142857142857143 (- 27) (- 8) = 364285714"
    by (simp add: rescaled_def)
  ultimately show ?thesis
    using sample_quotient
    by (simp add: trade_quantity_def decimal_of_def sample_notional dec_less_eq_def dec_div_def dec_quantize_def nan_simps quantity_unit_def)
qed

lemma sample_amount:
  "dec_mul (Finite False 364285714 (- 8)) (Finite False 7 0) = Inr (Finite False 2549999998 (- 8))"
  "dec_quantize (Finite False 2549999998 (- 8)) cents_unit = Inr (Finite False 2550 (- 2))"
proof -
  have fits: "ndigits 2549999998 \<le> precision" "ndigits 2550 \<le> precision"
    using ndigits_precision [of 2549999998] ndigits_precision [of 2550] by simp_all
  then show "dec_mul (Finite False 364285714 (- 8)) (Finite False 7 0) = Inr (Finite False 2549999998 (- 8))"
    by (simp add: dec_mul_def nan_simps round_context_def)
  have "round_half_even (of_nat 2549999998 / 10 ^ 6) = 2550"
    by (rule round_half_even_eq) simp
  then have "rescaled 2549999998 (- 8) (- 2) = 2550"
    by (simp add: rescaled_def)
  then show "dec_quantize (Finite False 2549999998 (- 8)) cents_unit = Inr (Finite False 2550 (- 2))"
    using fits by (simp add: dec_quantize_def nan_simps cents_unit_def)
qed

theorem producer_trade_reconciles_witness:
  "\<exists>e. fst (next_trade sample_draw (ucode ''BTC-USD'') (Finite False 7 0) sample_generator) = Inr e
     \<and> fst e = trade_executed \<and> (\<exists>a \<in> set (tg_accounts sample_generator). counted_alike (\<lambda>_. []) (\<lambda>_. []) a 0 (snd e))"
proof -
  obtain e where e: "fst (next_trade sample_draw (ucode ''BTC-USD'') (Finite False 7 0) sample_generator) = Inr e"
    using sample_quantity sample_amount
    by (simp add: next_trade_def trade_side_def sample_generator_def choice_def sized_trade_def build_trade_event_def)
  have "plain_sign (Finite False 7 0)" "time_in_range (td_now sample_draw)" "td_now sample_draw = 0" "[] \<notin> set (tg_accounts sample_generator)"
    by (simp_all add: plain_sign_def time_in_range_def day_us_def sample_generator_def sample_draw_def)
  then show ?thesis
    using e producer_trade_reconciles [of sample_draw "ucode ''BTC-USD''" "Finite False 7 0" sample_generator e 0 0 "[]" "\<lambda>_. []" "\<lambda>_. []"]
      sample_notional by auto
qed

end
