(* ===== verification/Producer.thy ===== *)
theory Producer
  imports Trades Showcase_Routes
begin

text \<open>
  The producer service (\<^verbatim>\<open>producer/settings.py\<close>, \<^verbatim>\<open>client.py\<close> and \<^verbatim>\<open>__main__.py\<close>): its two loops and the
  handlers of its control server. What the price API and the platform answer are arguments; what the
  producer publishes is the list of its requests. Random draws are arguments as in \<^verbatim>\<open>Trades\<close>.
\<close>

section \<open>Settings\<close>

record producer_settings =
  ps_platform_api_url :: string
  ps_platform_api_key :: string
  ps_price_api_url :: string
  ps_symbols :: utext
  ps_poll_interval_seconds :: rat
  ps_alert_threshold_pct :: utext
  ps_burst_count :: nat
  ps_trade_interval_seconds :: rat
  ps_trade_accounts :: utext
  ps_trade_burst_count :: nat
  ps_request_timeout_seconds :: rat
  ps_control_host :: string
  ps_control_port :: nat
  ps_log_level :: string

fun split_commas :: "utext \<Rightarrow> utext list" where
  "split_commas [] = [[]]"
| "split_commas (c # cs) =
     (if c = 44 then [] # split_commas cs
      else (case split_commas cs of [] \<Rightarrow> [[c]] | w # ws \<Rightarrow> (c # w) # ws))"

definition trimmed_items :: "utext \<Rightarrow> utext list" where
  "trimmed_items t = map ustrip (filter (\<lambda>s. ustrip s \<noteq> []) (split_commas t))"

definition symbol_list :: "producer_settings \<Rightarrow> utext list" where
  "symbol_list st = trimmed_items (ps_symbols st)"

definition account_list :: "producer_settings \<Rightarrow> utext list" where
  "account_list st = trimmed_items (ps_trade_accounts st)"

text \<open>
  The defaults and the bounds of the fields. The threshold is carried by the text \<^verbatim>\<open>str\<close> gives for the float.
\<close>

definition default_producer_settings :: producer_settings where
  "default_producer_settings =
   \<lparr> ps_platform_api_url = ''http://localhost:8000'', ps_platform_api_key = [],
     ps_price_api_url = ''https://api.coinbase.com/v2/prices'', ps_symbols = ucode ''BTC-USD,ETH-USD,SOL-USD,DOGE-USD'',
     ps_poll_interval_seconds = 4, ps_alert_threshold_pct = ucode ''0.5'', ps_burst_count = 20,
     ps_trade_interval_seconds = 6, ps_trade_accounts = ucode ''alice,bob,carol,dan'', ps_trade_burst_count = 8,
     ps_request_timeout_seconds = 10, ps_control_host = ''::'', ps_control_port = 8100, ps_log_level = ''INFO'' \<rparr>"

definition producer_settings_ok :: "producer_settings \<Rightarrow> bool" where
  "producer_settings_ok st \<longleftrightarrow> 1 \<le> ps_poll_interval_seconds st
     \<and> (\<exists>c e. parse_decimal (ps_alert_threshold_pct st) = Some (Finite False c e) \<and> 0 < c)
     \<and> 1 \<le> ps_burst_count st \<and> ps_burst_count st \<le> 200 \<and> 1 \<le> ps_trade_interval_seconds st
     \<and> 2 \<le> ps_trade_burst_count st \<and> ps_trade_burst_count st \<le> 50"

definition initial_tracker :: "producer_settings \<Rightarrow> py_exc + price_tracker" where
  "initial_tracker st = bind_exc (decimal_of (ps_alert_threshold_pct st)) (\<lambda>thr. Inr \<lparr> pt_threshold = thr, pt_states = [] \<rparr>)"

definition initial_generator :: "producer_settings \<Rightarrow> trade_generator" where
  "initial_generator st = \<lparr> tg_accounts = account_list st, tg_last_price = [] \<rparr>"

section \<open>The clients\<close>

datatype fetch_error = Http_error | Bad_body

text \<open>A status that is not 2xx raises; both kinds of error make the callers skip the symbol.\<close>

definition spot :: "(json \<Rightarrow> utext) \<Rightarrow> producer_reply \<Rightarrow> fetch_error + py_decimal" where
  "spot rp reply =
     (case reply of
        Unreachable \<Rightarrow> Inl Http_error
      | Reply c doc \<Rightarrow>
          if \<not> (200 \<le> c \<and> c < 300) then Inl Http_error
          else (case doc of
              Doc payload \<Rightarrow> (case parse_spot_price rp payload of Inl _ \<Rightarrow> Inl Bad_body | Inr x \<Rightarrow> Inr x)
            | _ \<Rightarrow> Inl Bad_body))"

record publish_request =
  pq_type :: utext
  pq_payload :: payload
  pq_key :: "utext option"

definition publish_with_key :: "producer_reply \<Rightarrow> int \<times> payload" where
  "publish_with_key reply =
     (case reply of
        Unreachable \<Rightarrow> (0, [])
      | Reply c doc \<Rightarrow> (c, case doc of Doc (JObj kvs) \<Rightarrow> kvs | _ \<Rightarrow> []))"

definition publish :: "producer_reply \<Rightarrow> int" where
  "publish reply = fst (publish_with_key reply)"

definition request_of :: "event_body \<Rightarrow> publish_request" where
  "request_of e = \<lparr> pq_type = fst e, pq_payload = snd e, pq_key = None \<rparr>"

definition accepted_count :: "producer_reply list \<Rightarrow> nat" where
  "accepted_count replies = length (filter (\<lambda>r. 200 \<le> publish r \<and> publish r < 300) replies)"

section \<open>The poll loop\<close>

record poll =
  pl_symbol :: utext
  pl_reply :: producer_reply
  pl_now :: time
  pl_alert_now :: time

text \<open>An exception of the tracker is not caught: it ends the task.\<close>

fun poll_round :: "(json \<Rightarrow> utext) \<Rightarrow> poll list \<Rightarrow> price_tracker \<Rightarrow> publish_request list \<times> (py_exc + unit) \<times> price_tracker" where
  "poll_round rp [] t = ([], Inr (), t)"
| "poll_round rp (p # ps) t =
     (case spot rp (pl_reply p) of
        Inl _ \<Rightarrow> poll_round rp ps t
      | Inr price \<Rightarrow>
          (case observe (pl_symbol p) price (pl_now p) (pl_alert_now p) t of
             (Inl e, t') \<Rightarrow> ([], Inl e, t')
           | (Inr evs, t') \<Rightarrow>
               (case poll_round rp ps t' of (sent, r, t'') \<Rightarrow> (map request_of evs @ sent, r, t''))))"

fun poll_loop :: "(json \<Rightarrow> utext) \<Rightarrow> poll list list \<Rightarrow> price_tracker \<Rightarrow> publish_request list \<times> (py_exc + unit) \<times> price_tracker" where
  "poll_loop rp [] t = ([], Inr (), t)"
| "poll_loop rp (ps # rounds) t =
     (case poll_round rp ps t of
        (sent, Inl e, t') \<Rightarrow> (sent, Inl e, t')
      | (sent, Inr _, t') \<Rightarrow> (case poll_loop rp rounds t' of (sent', r, t'') \<Rightarrow> (sent @ sent', r, t'')))"

section \<open>Trades and bursts\<close>

text \<open>\<open>draw\<close> is the text of the rounded random percentage.\<close>

definition jittered :: "utext \<Rightarrow> py_decimal \<Rightarrow> py_exc + py_decimal" where
  "jittered draw base_price =
     bind_exc (decimal_of draw) (\<lambda>jitter.
     bind_exc (dec_add (dec_of 1) jitter) (\<lambda>factor.
     bind_exc (dec_mul base_price factor) (\<lambda>product. dec_quantize product base_price)))"

record trade_io =
  ti_pick :: nat
  ti_jitter :: utext
  ti_draw :: trade_draw

definition trade_cycle ::
  "trade_io \<Rightarrow> price_tracker \<Rightarrow> trade_generator \<Rightarrow> publish_request list \<times> (py_exc + unit) \<times> trade_generator" where
  "trade_cycle io t g =
     (if latest t = [] then ([], Inr (), g)
      else case bind_exc (choice (latest t) (ti_pick io)) (\<lambda>(symbol, price).
             bind_exc (jittered (ti_jitter io) price) (\<lambda>p. Inr (symbol, p))) of
          Inl e \<Rightarrow> ([], Inl e, g)
        | Inr (symbol, p) \<Rightarrow>
            (case next_trade (ti_draw io) symbol p g of
               (Inl e, g') \<Rightarrow> ([], Inl e, g')
             | (Inr event, g') \<Rightarrow> ([request_of event], Inr (), g')))"

record burst_io =
  bi_pick :: nat
  bi_account :: nat
  bi_side :: nat
  bi_jitter :: "nat \<Rightarrow> utext"
  bi_draws :: "trade_draw list"
  bi_now :: "nat \<Rightarrow> time"
  bi_replies :: "producer_reply list"

text \<open>The answer counts the publishes that were accepted.\<close>

definition fire_trade_burst ::
  "burst_io \<Rightarrow> price_tracker \<Rightarrow> trade_generator \<Rightarrow> publish_request list \<times> (py_exc + nat) \<times> trade_generator" where
  "fire_trade_burst io t g =
     (if latest t = [] then ([], Inr 0, g)
      else case bind_exc (choice (latest t) (bi_pick io)) (\<lambda>(symbol, price).
             bind_exc (jittered (bi_jitter io 0) price) (\<lambda>p. Inr (symbol, p))) of
          Inl e \<Rightarrow> ([], Inl e, g)
        | Inr (symbol, p) \<Rightarrow>
            (case burst_same_account (bi_account io) (bi_side io) (bi_draws io) symbol p g of
               (Inl e, g') \<Rightarrow> ([], Inl e, g')
             | (Inr evs, g') \<Rightarrow> (map request_of evs, Inr (accepted_count (bi_replies io)), g')))"

text \<open>The prices a burst starts from: the observed ones, or one fetch per symbol.\<close>

fun seed_prices :: "(json \<Rightarrow> utext) \<Rightarrow> (utext \<times> producer_reply) list \<Rightarrow> (utext \<times> py_decimal) list \<Rightarrow> (utext \<times> py_decimal) list" where
  "seed_prices rp [] acc = acc"
| "seed_prices rp ((s, reply) # rest) acc =
     seed_prices rp rest (case spot rp reply of Inl _ \<Rightarrow> acc | Inr x \<Rightarrow> AList.update s x acc)"

definition burst_prices :: "(json \<Rightarrow> utext) \<Rightarrow> (utext \<times> producer_reply) list \<Rightarrow> price_tracker \<Rightarrow> (utext \<times> py_decimal) list" where
  "burst_prices rp fetches t = (if latest t = [] then seed_prices rp fetches [] else latest t)"

definition flagged :: "string \<Rightarrow> event_body \<Rightarrow> event_body" where
  "flagged k e = (fst e, snd e @ [(ucode k, JBool True)])"

definition burst_tick :: "burst_io \<Rightarrow> (utext \<times> py_decimal) list \<Rightarrow> nat \<Rightarrow> py_exc + event_body" where
  "burst_tick io items i =
     (case items ! (i mod length items) of (symbol, base_price) \<Rightarrow>
        bind_exc (jittered (bi_jitter io i) base_price) (\<lambda>p.
        bind_exc (build_tick_event symbol p (Some base_price) (bi_now io i)) (\<lambda>e. Inr (flagged ''burst'' e))))"

definition burst_alert :: "burst_io \<Rightarrow> nat \<Rightarrow> (utext \<times> py_decimal) list \<Rightarrow> nat \<Rightarrow> py_exc + event_body" where
  "burst_alert io n_events items i =
     (case items ! i of (symbol, base_price) \<Rightarrow>
        bind_exc (jittered (bi_jitter io (n_events + i)) base_price) (\<lambda>p.
        bind_exc (build_alert_event symbol p base_price dec_zero (bi_now io (n_events + i))) (\<lambda>e. Inr (flagged ''burst'' e))))"

fun all_events :: "(nat \<Rightarrow> py_exc + event_body) \<Rightarrow> nat list \<Rightarrow> py_exc + event_body list" where
  "all_events f [] = Inr []"
| "all_events f (i # is) = bind_exc (f i) (\<lambda>e. bind_exc (all_events f is) (\<lambda>es. Inr (e # es)))"

definition fire_burst ::
  "(json \<Rightarrow> utext) \<Rightarrow> burst_io \<Rightarrow> (utext \<times> producer_reply) list \<Rightarrow> nat \<Rightarrow> price_tracker \<Rightarrow> publish_request list \<times> (py_exc + nat)" where
  "fire_burst rp io fetches n_events t =
     (let items = burst_prices rp fetches t
      in if items = [] then ([], Inr 0)
         else case bind_exc (all_events (burst_tick io items) [0..<n_events]) (\<lambda>ticks.
                bind_exc (all_events (burst_alert io n_events items) [0..<length items]) (\<lambda>alerts. Inr (ticks @ alerts))) of
             Inl e \<Rightarrow> ([], Inl e)
           | Inr evs \<Rightarrow> (map request_of evs, Inr (accepted_count (bi_replies io))))"

text \<open>The route: a body that asks for one account fires trades instead of ticks.\<close>

definition burst_route ::
  "(json \<Rightarrow> utext) \<Rightarrow> producer_settings \<Rightarrow> burst_io \<Rightarrow> (utext \<times> producer_reply) list \<Rightarrow> bool \<Rightarrow> price_tracker \<Rightarrow> trade_generator
   \<Rightarrow> publish_request list \<times> (py_exc + nat) \<times> trade_generator" where
  "burst_route rp st io fetches same_account t g =
     (if same_account then fire_trade_burst (io\<lparr>bi_draws := take (ps_trade_burst_count st) (bi_draws io)\<rparr>) t g
      else case fire_burst rp io fetches (ps_burst_count st) t of (sent, r) \<Rightarrow> (sent, r, g))"

section \<open>The duplicate demo\<close>

fun first_price :: "(json \<Rightarrow> utext) \<Rightarrow> (utext \<times> producer_reply) list \<Rightarrow> (utext \<times> py_decimal) list" where
  "first_price rp [] = []"
| "first_price rp ((s, reply) # rest) = (case spot rp reply of Inl _ \<Rightarrow> first_price rp rest | Inr x \<Rightarrow> [(s, x)])"

record duplicate_row =
  dr_status :: int
  dr_event_id :: "json option"
  dr_queued :: "json option"

definition duplicate_row :: "producer_reply \<Rightarrow> duplicate_row" where
  "duplicate_row reply =
     (case publish_with_key reply of (c, body) \<Rightarrow>
        \<lparr> dr_status = c, dr_event_id = get_item body ''event_id'', dr_queued = get_item body ''queued_deliveries'' \<rparr>)"

definition fire_duplicate ::
  "(json \<Rightarrow> utext) \<Rightarrow> utext \<Rightarrow> uuid \<Rightarrow> time \<Rightarrow> (utext \<times> producer_reply) list \<Rightarrow> producer_reply \<times> producer_reply \<Rightarrow> price_tracker
   \<Rightarrow> publish_request list \<times> (py_exc + utext option \<times> duplicate_row list)" where
  "fire_duplicate rp draw key_id now fetches replies t =
     (case (if latest t = [] then first_price rp fetches else latest t) of
        [] \<Rightarrow> ([], Inr (None, []))
      | (symbol, base_price) # _ \<Rightarrow>
          (case bind_exc (jittered draw base_price) (\<lambda>p. build_tick_event symbol p (Some base_price) now) of
             Inl e \<Rightarrow> ([], Inl e)
           | Inr event \<Rightarrow>
               (let key = ucode (''dup-'' @ uuid_hex key_id); e = flagged ''duplicate'' event;
                    rq = \<lparr> pq_type = fst e, pq_payload = snd e, pq_key = Some key \<rparr>
                in ([rq, rq], Inr (Some key, [duplicate_row (fst replies), duplicate_row (snd replies)])))))"

section \<open>The trade loop without accounts\<close>

text \<open>A setting with no account name ends the trade loop at its first trade: the choice raises and nothing catches it.\<close>

lemma no_accounts_stop_trades:
  assumes "account_list st = []" "latest t \<noteq> []" "jittered (ti_jitter io) (snd (latest t ! (ti_pick io mod length (latest t)))) = Inr p"
  shows "trade_cycle io t (initial_generator st) = ([], Inl IndexError, initial_generator st)"
  using assms
  by (cases "latest t ! (ti_pick io mod length (latest t))")
     (simp add: trade_cycle_def choice_def next_trade_def initial_generator_def trade_side_def)

section \<open>The poll loop's resilience\<close>

lemma map_of_latest: "map_of (latest t) s = map_option ss_last (map_of (pt_states t) s)"
proof -
  have "map_of (map (\<lambda>(s, st). (s, ss_last st)) xs) s = map_option ss_last (map_of xs s)" for xs
    by (induction xs) auto
  then show ?thesis
    by (simp add: latest_def)
qed

text \<open>The price a symbol ends with, and how many answers hold a price.\<close>

fun last_price :: "(json \<Rightarrow> utext) \<Rightarrow> utext \<Rightarrow> poll list \<Rightarrow> py_decimal option \<Rightarrow> py_decimal option" where
  "last_price rp s [] d = d"
| "last_price rp s (p # ps) d =
     last_price rp s ps (if pl_symbol p = s then (case spot rp (pl_reply p) of Inl _ \<Rightarrow> d | Inr x \<Rightarrow> Some x) else d)"

definition priced :: "(json \<Rightarrow> utext) \<Rightarrow> poll list \<Rightarrow> nat" where
  "priced rp ps = length (filter (\<lambda>p. \<not> isl (spot rp (pl_reply p))) ps)"

definition ticks :: "publish_request list \<Rightarrow> nat" where
  "ticks sent = length (filter (\<lambda>r. pq_type r = tick_event) sent)"

definition finite_prices :: "(json \<Rightarrow> utext) \<Rightarrow> poll list \<Rightarrow> bool" where
  "finite_prices rp ps \<longleftrightarrow> list_all (\<lambda>p. case spot rp (pl_reply p) of Inl _ \<Rightarrow> True | Inr x \<Rightarrow> is_finite x) ps"

lemma poll_round_survives:
  assumes "tracker_ok t" "finite_prices rp ps"
  shows "\<exists>sent t'. poll_round rp ps t = (sent, Inr (), t') \<and> tracker_ok t' \<and> ticks sent = priced rp ps
    \<and> (\<forall>s. map_of (latest t') s = last_price rp s ps (map_of (latest t) s))"
  using assms
proof (induction ps arbitrary: t)
  case Nil
  then show ?case
    by (simp add: ticks_def priced_def)
next
  case (Cons p ps)
  have rest: "finite_prices rp ps"
    using Cons.prems(2) by (simp add: finite_prices_def)
  show ?case
  proof (cases "spot rp (pl_reply p)")
    case (Inl e)
    then show ?thesis
      using Cons.IH [OF Cons.prems(1) rest] by (simp add: priced_def)
  next
    case (Inr price)
    then have "is_finite price"
      using Cons.prems(2) by (simp add: finite_prices_def)
    then obtain tick evs t1 where one: "observe (pl_symbol p) price (pl_now p) (pl_alert_now p) t = (Inr ((tick_event, tick) # evs), t1)"
        "map fst evs = (if alerts (pl_symbol p) price t then [alert_event] else [])" "tracker_ok t1"
      and states: "\<exists>st. ss_last st = price \<and> map_of (pt_states t1) = (map_of (pt_states t))(pl_symbol p \<mapsto> st)"
      using observe_finite [OF Cons.prems(1)] by (metis symbol_state.select_convs(1))
    obtain sent t2 where more: "poll_round rp ps t1 = (sent, Inr (), t2)" "tracker_ok t2" "ticks sent = priced rp ps"
        "\<forall>s. map_of (latest t2) s = last_price rp s ps (map_of (latest t1) s)"
      using Cons.IH [OF one(3) rest] by blast
    have "filter (\<lambda>r. pq_type r = tick_event) (map request_of evs) = []"
    proof -
      have "tick_event \<noteq> alert_event"
        by (simp add: tick_event_def alert_event_def)
      moreover have "fst e = alert_event" if "e \<in> set evs" for e
        using one(2) that by (auto simp: map_eq_Cons_conv split: if_splits)
      ultimately show ?thesis
        by (auto simp: filter_empty_conv request_of_def)
    qed
    then have "ticks (map request_of ((tick_event, tick) # evs) @ sent) = Suc (ticks sent)"
      by (simp add: ticks_def request_of_def)
    then show ?thesis
      using one(1) more states Inr by (auto simp: map_of_latest priced_def)
  qed
qed

lemma priced_append: "priced rp (ps @ qs) = priced rp ps + priced rp qs" "ticks (xs @ ys) = ticks xs + ticks ys"
  by (simp_all add: priced_def ticks_def)

lemma last_price_append: "last_price rp s (ps @ qs) d = last_price rp s qs (last_price rp s ps d)"
  by (induction ps arbitrary: d) auto

lemma finite_prices_append: "finite_prices rp (ps @ qs) \<longleftrightarrow> finite_prices rp ps \<and> finite_prices rp qs"
  by (simp add: finite_prices_def)

lemma poll_loop_rounds:
  assumes "tracker_ok t" "finite_prices rp (concat rounds)"
  shows "\<exists>sent t'. poll_loop rp rounds t = (sent, Inr (), t') \<and> tracker_ok t' \<and> ticks sent = priced rp (concat rounds)
    \<and> (\<forall>s. map_of (latest t') s = last_price rp s (concat rounds) (map_of (latest t) s))"
  using assms
proof (induction rounds arbitrary: t)
  case Nil
  then show ?case
    by (simp add: ticks_def priced_def)
next
  case (Cons ps rounds)
  have fin: "finite_prices rp ps" "finite_prices rp (concat rounds)"
    using Cons.prems(2) by (simp_all add: finite_prices_append)
  obtain sent t1 where one: "poll_round rp ps t = (sent, Inr (), t1)" "tracker_ok t1" "ticks sent = priced rp ps"
      "\<forall>s. map_of (latest t1) s = last_price rp s ps (map_of (latest t) s)"
    using poll_round_survives [OF Cons.prems(1) fin(1)] by blast
  obtain sent' t2 where two: "poll_loop rp rounds t1 = (sent', Inr (), t2)" "tracker_ok t2" "ticks sent' = priced rp (concat rounds)"
      "\<forall>s. map_of (latest t2) s = last_price rp s (concat rounds) (map_of (latest t1) s)"
    using Cons.IH [OF one(2) fin(2)] by blast
  show ?case
    using one two by (simp add: priced_append last_price_append)
qed

text \<open>An answer the parser takes for a price.\<close>

definition nan_reply :: producer_reply where
  "nan_reply = Reply 200 (Doc (JObj [(ucode ''data'', JObj [(ucode ''amount'', JStr (ucode ''NaN''))])]))"

lemma spot_nan: "spot rp nan_reply = Inr (Quiet_NaN False 0)"
proof -
  have "parse_decimal (ucode ''NaN'') = Some (Quiet_NaN False 0)"
    by (simp add: parse_decimal_def ustrip_def is_space_point_def ulower_def udigits_value_def)
  then show ?thesis
    by (simp add: nan_reply_def spot_def parse_spot_price_def json_item_def get_item_def py_str_def)
qed

section \<open>Properties\<close>


definition price_reply :: "string \<Rightarrow> producer_reply" where
  "price_reply amount = Reply 200 (Doc (JObj [(ucode ''data'', JObj [(ucode ''amount'', JStr (ucode amount))])]))"

definition sample_poll :: "producer_reply \<Rightarrow> poll" where
  "sample_poll r = \<lparr> pl_symbol = ucode ''BTC-USD'', pl_reply = r, pl_now = 0, pl_alert_now = 0 \<rparr>"

lemma spot_price: "fixed_point (ucode a) = Some (c, k) \<Longrightarrow> spot rp (price_reply a) = Inr (Finite False c (- int k))"
  using parse_fixed_point [of "ucode a" c k]
  by (simp add: price_reply_def spot_def parse_spot_price_def json_item_def get_item_def py_str_def)


end
