(* ===== verification/Demo_Events.thy ===== *)
theory Demo_Events
  imports Events Trades
begin

text \<open>
  The sample GitHub and CI events of \<^verbatim>\<open>services/demo_events.py\<close>, with what the random generator draws as an
  argument, and the schemas their payloads have. A draw among candidates is taken modulo their number, one
  of an interval modulo its length.
\<close>

section \<open>The candidates\<close>

definition demo_event_types :: "utext list" where
  "demo_event_types = map ucode [''push'', ''pull_request'', ''workflow_run'']"

definition repos :: "(string \<times> string) list" where
  "repos = map (Pair ''acme'') [''checkout-service'', ''web-storefront'', ''billing-api'', ''notifications'', ''infra'']"

definition actors :: "string list" where
  "actors = [''ava-thompson'', ''liam-nakamura'', ''sofia-reyes'', ''noah-okafor'', ''mia-petrov'']"

definition branches :: "string list" where
  "branches = [''main'', ''release/2026.07'', ''feature/idempotency-keys'', ''fix/retry-jitter'', ''chore/bump-deps'']"

definition commit_messages :: "string list" where
  "commit_messages =
   [''Fix flaky retry backoff test'', ''Add HMAC signature verification helper'', ''Tune worker batch size for throughput'',
    ''Handle 429 from downstream with jittered backoff'', ''Refactor delivery worker claim query'',
    ''Document dead-letter redrive flow'']"

definition pr_titles :: "string list" where
  "pr_titles =
   [''Add per-endpoint rate limiting'', ''Cursor pagination for GET /deliveries'', ''Encrypt endpoint secrets at rest'',
    ''LISTEN/NOTIFY worker wake-up'', ''SSRF guard for outbound delivery URLs'']"

definition workflows :: "string list" where
  "workflows = [''CI'', ''Deploy'', ''Integration Tests'', ''Lint & Types'']"

section \<open>Building an event\<close>

record demo_draw =
  dd_type :: nat
  dd_repo :: nat
  dd_repo_id :: nat
  dd_actor :: nat
  dd_branch :: nat
  dd_after :: "nat \<Rightarrow> nat"
  dd_before :: "nat \<Rightarrow> nat"
  dd_text :: nat
  dd_number :: nat
  dd_action :: nat
  dd_merge :: bool
  dd_success :: bool

definition pick :: "'a list \<Rightarrow> nat \<Rightarrow> 'a" where
  "pick xs k = xs ! (k mod length xs)"

definition randint :: "nat \<Rightarrow> nat \<Rightarrow> nat \<Rightarrow> json" where
  "randint lo hi k = JInt (int (lo + k mod (hi + 1 - lo)))"

definition sha :: "(nat \<Rightarrow> nat) \<Rightarrow> string" where
  "sha draws = map (\<lambda>i. pick ''0123456789abcdef'' (draws i)) [0..<40]"

definition str_json :: "string \<Rightarrow> json" where
  "str_json s = JStr (ucode s)"

definition dict :: "(string \<times> json) list \<Rightarrow> payload" where
  "dict kvs = map (\<lambda>(k, v). (ucode k, v)) kvs"

definition repository :: "demo_draw \<Rightarrow> json" where
  "repository r =
     (case pick repos (dd_repo r) of (owner, nm) \<Rightarrow>
        JObj (dict [(''id'', randint 10000 99999 (dd_repo_id r)), (''name'', str_json nm), (''full_name'', str_json (owner @ ''/'' @ nm))]))"

definition push_payload :: "demo_draw \<Rightarrow> payload" where
  "push_payload r =
     (let actor = pick actors (dd_actor r); after = str_json (sha (dd_after r))
      in dict
       [(''ref'', str_json (''refs/heads/'' @ pick branches (dd_branch r))), (''before'', str_json (sha (dd_before r))), (''after'', after),
        (''repository'', repository r),
        (''pusher'', JObj (dict [(''name'', str_json actor), (''email'', str_json (actor @ ''@users.noreply.github.com''))])),
        (''head_commit'', JObj (dict
          [(''id'', after), (''message'', str_json (pick commit_messages (dd_text r))),
           (''author'', JObj (dict [(''name'', str_json actor), (''email'', str_json (actor @ ''@example.com''))]))])),
        (''commit_count'', randint 1 5 (dd_number r))])"

definition pull_request_payload :: "demo_draw \<Rightarrow> payload" where
  "pull_request_payload r =
     (let action = pick [''opened'', ''synchronize'', ''closed''] (dd_action r); merged = (action = ''closed'' \<and> dd_merge r)
      in dict
       [(''action'', str_json action), (''number'', randint 100 999 (dd_number r)), (''repository'', repository r),
        (''pull_request'', JObj (dict
          [(''title'', str_json (pick pr_titles (dd_text r))), (''state'', str_json (if action = ''closed'' then ''closed'' else ''open'')),
           (''merged'', JBool merged), (''user'', JObj (dict [(''login'', str_json (pick actors (dd_actor r)))])),
           (''head'', JObj (dict [(''ref'', str_json (pick branches (dd_branch r)))])),
           (''base'', JObj (dict [(''ref'', str_json ''main'')]))]))])"

definition workflow_run_payload :: "demo_draw \<Rightarrow> payload" where
  "workflow_run_payload r = dict
     [(''action'', str_json ''completed''), (''repository'', repository r),
      (''workflow_run'', JObj (dict
        [(''name'', str_json (pick workflows (dd_text r))), (''status'', str_json ''completed''),
         (''conclusion'', str_json (if dd_success r then ''success'' else ''failure'')),
         (''head_branch'', str_json (pick branches (dd_branch r))), (''head_sha'', str_json (sha (dd_after r))),
         (''run_number'', randint 200 5000 (dd_number r)), (''event'', str_json ''push''),
         (''actor'', JObj (dict [(''login'', str_json (pick actors (dd_actor r)))]))]))]"

definition build_demo_event :: "utext option \<Rightarrow> demo_draw \<Rightarrow> py_exc + event_body" where
  "build_demo_event event_type r =
     (let ty = (case event_type of None \<Rightarrow> pick demo_event_types (dd_type r) | Some t \<Rightarrow> t)
      in if ty \<notin> set demo_event_types then Inl (ValueError ''unknown demo event_type'')
         else Inr (ty, if ty = ucode ''push'' then push_payload r
                       else if ty = ucode ''pull_request'' then pull_request_payload r
                       else workflow_run_payload r))"

section \<open>Schemas\<close>

datatype schema = Text | Digits nat | One_of "string list" | Between int int | Flag | Record "(string \<times> schema) list"

text \<open>A document has the fields of its schema, no others, in that order.\<close>

function conforms :: "schema \<Rightarrow> json \<Rightarrow> bool" and fields_conform :: "(string \<times> schema) list \<Rightarrow> payload \<Rightarrow> bool" where
  "conforms Text j = (case j of JStr s \<Rightarrow> s \<noteq> [] | _ \<Rightarrow> False)"
| "conforms (Digits n) j = (case j of JStr s \<Rightarrow> length s = n \<and> set s \<subseteq> set (ucode ''0123456789abcdef'') | _ \<Rightarrow> False)"
| "conforms (One_of ss) j = (j \<in> set (map str_json ss))"
| "conforms (Between a b) j = (case j of JInt i \<Rightarrow> a \<le> i \<and> i \<le> b | _ \<Rightarrow> False)"
| "conforms Flag j = (case j of JBool b \<Rightarrow> True | _ \<Rightarrow> False)"
| "conforms (Record fs) j = (case j of JObj kvs \<Rightarrow> fields_conform fs kvs | _ \<Rightarrow> False)"
| "fields_conform [] kvs = (kvs = [])"
| "fields_conform (f # fs) [] = False"
| "fields_conform (f # fs) ((k, v) # kvs) = (k = ucode (fst f) \<and> conforms (snd f) v \<and> fields_conform fs kvs)"
  by pat_completeness auto
termination
proof (relation "measure (\<lambda>x. case x of Inl (t, _) \<Rightarrow> size t | Inr (fs, _) \<Rightarrow> size_list (\<lambda>f. Suc (size (snd f))) fs)")
  have "size_prod (\<lambda>_. 0) size = (\<lambda>f :: string \<times> schema. Suc (size (snd f)))"
    by auto
  then show "(Inr (kvs, ps), Inl (Record kvs, j)) \<in> measure (\<lambda>x. case x of Inl (t, _) \<Rightarrow> size t | Inr (fs, _) \<Rightarrow> size_list (\<lambda>f. Suc (size (snd f))) fs)"
    for kvs ps j
    by simp
qed auto

definition repository_schema :: schema where
  "repository_schema = Record [(''id'', Between 10000 99999), (''name'', Text), (''full_name'', Text)]"

definition push_schema :: "(string \<times> schema) list" where
  "push_schema =
   [(''ref'', Text), (''before'', Digits 40), (''after'', Digits 40), (''repository'', repository_schema),
    (''pusher'', Record [(''name'', One_of actors), (''email'', Text)]),
    (''head_commit'', Record [(''id'', Digits 40), (''message'', One_of commit_messages),
      (''author'', Record [(''name'', One_of actors), (''email'', Text)])]),
    (''commit_count'', Between 1 5)]"

definition pull_request_schema :: "(string \<times> schema) list" where
  "pull_request_schema =
   [(''action'', One_of [''opened'', ''synchronize'', ''closed'']), (''number'', Between 100 999), (''repository'', repository_schema),
    (''pull_request'', Record [(''title'', One_of pr_titles), (''state'', One_of [''open'', ''closed'']), (''merged'', Flag),
      (''user'', Record [(''login'', One_of actors)]), (''head'', Record [(''ref'', One_of branches)]),
      (''base'', Record [(''ref'', One_of [''main''])])])]"

definition workflow_run_schema :: "(string \<times> schema) list" where
  "workflow_run_schema =
   [(''action'', One_of [''completed'']), (''repository'', repository_schema),
    (''workflow_run'', Record [(''name'', One_of workflows), (''status'', One_of [''completed'']),
      (''conclusion'', One_of [''success'', ''failure'']), (''head_branch'', One_of branches), (''head_sha'', Digits 40),
      (''run_number'', Between 200 5000), (''event'', One_of [''push'']), (''actor'', Record [(''login'', One_of actors)])])]"

definition demo_schema :: "utext \<Rightarrow> (string \<times> schema) list" where
  "demo_schema ty =
     (if ty = ucode ''push'' then push_schema else if ty = ucode ''pull_request'' then pull_request_schema else workflow_run_schema)"

section \<open>Every draw conforms\<close>

lemma pick_mem: "xs \<noteq> [] \<Longrightarrow> pick xs k \<in> set xs"
  by (simp add: pick_def)

lemma candidates_nonempty [simp]:
  "demo_event_types \<noteq> []" "repos \<noteq> []" "actors \<noteq> []" "branches \<noteq> []" "commit_messages \<noteq> []" "pr_titles \<noteq> []" "workflows \<noteq> []"
  by (simp_all add: demo_event_types_def repos_def actors_def branches_def commit_messages_def pr_titles_def workflows_def)

lemma ucode_inject: "ucode s = ucode t \<longleftrightarrow> s = t"
  by (simp add: ucode_def inj_map_eq_map inj_of_char)

lemma conforms_leaves [simp]:
  "xs \<noteq> [] \<Longrightarrow> conforms (One_of xs) (str_json (pick xs k))"
  "lo \<le> hi \<Longrightarrow> a = int lo \<Longrightarrow> b = int hi \<Longrightarrow> conforms (Between a b) (randint lo hi k)"
  "conforms (Digits 40) (str_json (sha draws))"
  "s \<noteq> [] \<Longrightarrow> conforms Text (str_json s)"
  "conforms Flag (JBool p)"
proof -
  show "xs \<noteq> [] \<Longrightarrow> conforms (One_of xs) (str_json (pick xs k))"
    using pick_mem by fastforce
  show "conforms (Between a b) (randint lo hi k)" if "lo \<le> hi" "a = int lo" "b = int hi"
  proof -
    have "k mod (hi + 1 - lo) < hi + 1 - lo"
      using that(1) by simp
    then have "k mod (hi + 1 - lo) \<le> hi - lo"
      using that(1) by linarith
    then show ?thesis
      using that by (simp add: randint_def)
  qed
  show "conforms (Digits 40) (str_json (sha draws))"
  proof -
    have "set (map (\<lambda>i. pick xs (draws i)) [0..<40]) \<subseteq> set xs" if "xs \<noteq> []" for xs :: string
      using pick_mem [OF that] by auto
    then have "set (sha draws) \<subseteq> set ''0123456789abcdef''"
      unfolding sha_def by blast
    then have "set (ucode (sha draws)) \<subseteq> set (ucode ''0123456789abcdef'')"
      unfolding ucode_def set_map by (rule image_mono)
    moreover have "length (ucode (sha draws)) = 40"
      by (simp add: ucode_def sha_def)
    ultimately show ?thesis
      by (simp add: str_json_def del: set_simps)
  qed
  show "s \<noteq> [] \<Longrightarrow> conforms Text (str_json s)"
    by (simp add: str_json_def ucode_def)
qed simp

lemma fields_step [simp]:
  "fields_conform ((k, t) # fs) (dict ((k, v) # kvs)) \<longleftrightarrow> conforms t v \<and> fields_conform fs (dict kvs)"
  "fields_conform [] (dict [])"
  "conforms (Record fs) (JObj p) \<longleftrightarrow> fields_conform fs p"
  by (simp_all add: dict_def)

declare conforms.simps [simp del] fields_conform.simps [simp del]

lemma repository_conforms [simp]: "conforms repository_schema (repository r)"
proof -
  obtain owner nm where p: "pick repos (dd_repo r) = (owner, nm)"
    by fastforce
  then have "nm \<noteq> []"
    using pick_mem [of repos "dd_repo r"] by (auto simp: repos_def)
  then show ?thesis
    by (simp add: repository_def repository_schema_def p)
qed

lemma one_of_const [simp]: "s \<in> set ss \<Longrightarrow> conforms (One_of ss) (str_json s)"
  by (auto simp: conforms.simps)

lemma payloads_conform:
  "fields_conform push_schema (push_payload r)"
  "fields_conform pull_request_schema (pull_request_payload r)"
  "fields_conform workflow_run_schema (workflow_run_payload r)"
  by (simp_all add: push_schema_def push_payload_def pull_request_schema_def pull_request_payload_def
      workflow_run_schema_def workflow_run_payload_def Let_def)

section \<open>Properties\<close>

text \<open>C38: The sample events are well typed: for every draw, a requested type outside the three known ones is
  refused, and otherwise the event has the requested type (a known one when none is requested), a type the
  platform accepts for publishing, and a payload that has exactly the fields of that type's schema, each with
  a value of its kind; a pull request is merged only when it is closed, and a push's head commit is the one
  it moved to.\<close>

theorem demo_event_typed:
  "case build_demo_event requested r of
     Inl e \<Rightarrow> e = ValueError ''unknown demo event_type'' \<and> (\<exists>t. requested = Some t \<and> t \<notin> set demo_event_types)
   | Inr (ty, p) \<Rightarrow> ty \<in> set demo_event_types \<and> requested \<in> {None, Some ty} \<and> event_type_ok ty \<and> fields_conform (demo_schema ty) p
       \<and> (ty = ucode ''pull_request'' \<longrightarrow> (\<exists>q merged state. get_item p ''pull_request'' = Some (JObj q)
            \<and> get_item q ''merged'' = Some (JBool merged) \<and> get_item q ''state'' = Some (str_json state) \<and> (merged \<longrightarrow> state = ''closed'')))
       \<and> (ty = ucode ''push'' \<longrightarrow> (\<exists>c. get_item p ''head_commit'' = Some (JObj c) \<and> get_item c ''id'' = get_item p ''after''))"
proof -
  have ok: "event_type_ok t" if "t \<in> set demo_event_types" for t
    using that by (auto simp: demo_event_types_def event_type_ok_def reserved_prefix_def is_space_point_def ucode_def)
  have pr: "\<exists>q merged state. get_item (pull_request_payload r) ''pull_request'' = Some (JObj q)
      \<and> get_item q ''merged'' = Some (JBool merged) \<and> get_item q ''state'' = Some (str_json state) \<and> (merged \<longrightarrow> state = ''closed'')"
    by (auto simp: pull_request_payload_def Let_def get_item_def dict_def ucode_inject)
  have push: "\<exists>c. get_item (push_payload r) ''head_commit'' = Some (JObj c) \<and> get_item c ''id'' = get_item (push_payload r) ''after''"
    by (simp add: push_payload_def Let_def get_item_def dict_def ucode_inject)
  have "pick demo_event_types (dd_type r) \<in> set demo_event_types"
    by (simp add: pick_mem)
  moreover have "ucode ''push'' \<noteq> ucode ''pull_request''"
    by (simp add: ucode_inject)
  ultimately show ?thesis
    using ok pr push payloads_conform by (cases requested) (auto simp: build_demo_event_def demo_schema_def Let_def)
qed

definition zero_draw :: demo_draw where
  "zero_draw = \<lparr> dd_type = 0, dd_repo = 0, dd_repo_id = 0, dd_actor = 0, dd_branch = 0, dd_after = (\<lambda>i. i), dd_before = (\<lambda>i. 0),
     dd_text = 0, dd_number = 0, dd_action = 0, dd_merge = False, dd_success = True \<rparr>"

theorem demo_event_typed_witness:
  "\<exists>p c. build_demo_event (Some (ucode ''push'')) zero_draw = Inr (ucode ''push'', p) \<and> event_type_ok (ucode ''push'')
     \<and> fields_conform push_schema p \<and> get_item p ''head_commit'' = Some (JObj c) \<and> get_item c ''id'' = get_item p ''after''
     \<and> get_item p ''after'' = Some (str_json ''0123456789abcdef0123456789abcdef01234567'')"
proof -
  have "ucode ''push'' \<in> set demo_event_types"
    by (simp add: demo_event_types_def)
  then have p: "build_demo_event (Some (ucode ''push'')) zero_draw = Inr (ucode ''push'', push_payload zero_draw)"
    by (simp add: build_demo_event_def Let_def)
  have "sha (dd_after zero_draw) = ''0123456789abcdef0123456789abcdef01234567''"
    by (simp add: sha_def zero_draw_def pick_def upt_rec)
  then have "get_item (push_payload zero_draw) ''after'' = Some (str_json ''0123456789abcdef0123456789abcdef01234567'')"
    by (simp add: push_payload_def Let_def get_item_def dict_def ucode_inject)
  then show ?thesis
    using demo_event_typed [of "Some (ucode ''push'')" zero_draw] p by (auto simp: demo_schema_def)
qed

end
