(* ===== verification/Benchmark.thy ===== *)
theory Benchmark
  imports Demo_Client Metrics
begin

text \<open>
  The benchmark as a client of the platform (\<^verbatim>\<open>benchmark/runner.py\<close>): provisioning, publishing and waiting for the
  deliveries. Its latency statistics are in \<^verbatim>\<open>Metrics\<close>.
\<close>

section \<open>The client\<close>

definition benchmark_event :: utext where
  "benchmark_event = ucode ''benchmark.event''"

definition idx_payload :: "nat \<Rightarrow> payload" where
  "idx_payload idx = [(ucode ''idx'', JInt (int idx))]"

definition provision :: "fernet_enc \<Rightarrow> settings \<Rightarrow> setup_io \<Rightarrow> endpoint_io \<Rightarrow> string \<Rightarrow> (string \<times> uuid) script" where
  "provision fenc st io eo sink_url =
     and_then (signed_up io (setup_name io ''benchmark'') ''bench'') (\<lambda>(project_id, api_key).
     and_then (demo_create_endpoint fenc st eo api_key sink_url [benchmark_event]) (\<lambda>_.
     done_with (api_key, project_id)))"

text \<open>
  One publish: its ids, the instant of its authentication and its index. The concurrent requests come in the order the
  platform commits them, any order of the indices; what is answered is the number of errors.
\<close>

record publish_one =
  pb_io :: ingest_io
  pb_now :: time
  pb_idx :: nat

fun publish_events :: "settings \<Rightarrow> (payload \<Rightarrow> payload) \<Rightarrow> string \<Rightarrow> publish_one list \<Rightarrow> db \<Rightarrow> nat \<times> db" where
  "publish_events st jsonb key [] d = (0, d)"
| "publish_events st jsonb key (x # xs) d =
     (case post_event st jsonb (pb_io x) (pb_now x) key benchmark_event (idx_payload (pb_idx x)) None d of
        (Inl _, d') \<Rightarrow> (case publish_events st jsonb key xs d' of (n, d'') \<Rightarrow> (n + 1, d''))
      | (Inr _, d') \<Rightarrow> publish_events st jsonb key xs d')"

text \<open>
  The requests for the pages of one poll are authenticated once here; each further one would only stamp the key's
  last use again. None is a paging loop that runs out of fuel.
\<close>

definition succeeded_items :: "nat \<Rightarrow> int \<Rightarrow> time \<Rightarrow> string \<Rightarrow> db \<Rightarrow> ((script_exc + delivery_response list) \<times> db) option" where
  "succeeded_items fuel tz now key d =
     (case authorized key now (\<lambda>p d'. (Inr p, d')) d of
        (Inl e, d') \<Rightarrow> Some (raise_for_status (Inl e), d')
      | (Inr p, d') \<Rightarrow> map_option (\<lambda>r. (raise_for_status r, d')) (fetch_all_succeeded fuel tz p d'))"

text \<open>The polls before the deadline, each with what the rest of the platform commits before it.\<close>

fun collect_succeeded ::
  "nat \<Rightarrow> int \<Rightarrow> string \<Rightarrow> nat \<Rightarrow> (time \<times> (db \<Rightarrow> db)) list \<Rightarrow> db \<Rightarrow> ((script_exc + delivery_response list) \<times> db) option" where
  "collect_succeeded fuel tz key expected [] d = Some (Inl Timeout_error, d)"
| "collect_succeeded fuel tz key expected ((now, others) # polls) d =
     (case succeeded_items fuel tz now key (others d) of
        None \<Rightarrow> None
      | Some (Inl e, d') \<Rightarrow> Some (Inl e, d')
      | Some (Inr items, d') \<Rightarrow>
          if expected \<le> length items then Some (Inr items, d') else collect_succeeded fuel tz key expected polls d')"

text \<open>
  The command: the health check, then provisioning, publishing, waiting and the statistics over the timestamps of the
  answers, which \<open>render\<close> renders. What the statistics raise ends the run.
\<close>

definition run_benchmark ::
  "nat \<Rightarrow> int \<Rightarrow> (time \<Rightarrow> string) \<Rightarrow> fernet_enc \<Rightarrow> settings \<Rightarrow> (payload \<Rightarrow> payload) \<Rightarrow> setup_io \<Rightarrow> endpoint_io \<Rightarrow> string
    \<Rightarrow> publish_one list \<Rightarrow> (time \<times> (db \<Rightarrow> db)) list \<Rightarrow> bool \<Rightarrow> db \<Rightarrow> ((script_exc + latency_stats) \<times> db) option" where
  "run_benchmark fuel tz render fenc st jsonb io eo sink_url publishes polls healthy d =
     (if \<not> healthy then Some (Inl (System_exit 1), d)
      else case provision fenc st io eo sink_url d of
        (Inl e, d1) \<Rightarrow> Some (Inl e, d1)
      | (Inr (api_key, _), d1) \<Rightarrow>
          (case publish_events st jsonb api_key publishes d1 of (errors, d2) \<Rightarrow>
             (case collect_succeeded fuel tz api_key (length publishes) polls d2 of
                None \<Rightarrow> None
              | Some (Inl e, d3) \<Rightarrow> Some (Inl e, d3)
              | Some (Inr items, d3) \<Rightarrow>
                  (case compute_latency_stats (map (\<lambda>r. (render (dr_created_at r), render (dr_updated_at r))) items) of
                     Inl e \<Rightarrow> Some (Inl (Raised e), d3)
                   | Inr stats \<Rightarrow> Some (Inr stats, d3)))))"

section \<open>Publishing\<close>

lemma benchmark_texts: "event_type_ok benchmark_event" "0 \<notin> set benchmark_event"
  by (simp_all add: benchmark_event_def event_type_ok_def is_space_point_def reserved_prefix_def ucode_def)

lemma idx_ok:
  assumes "idx < 10 ^ 20" "28 \<le> max_event_payload_bytes st"
  shows "event_create_ok st benchmark_event (idx_payload idx)" "event_storable benchmark_event (idx_payload idx) None"
proof -
  have json: "dumps_compact (JObj (idx_payload idx)) = ''{'' @ json_string (ucode ''idx'') @ '':'' @ show_int (int idx) @ ''}''"
    by (simp add: idx_payload_def)
  have quoted: "json_string (ucode ''idx'') = [char_of (34::nat)] @ ''idx'' @ [char_of (34::nat)]"
    by code_simp
  have "length (show_nat idx) \<le> Suc 19"
    using assms(1) by (intro length_show_nat) simp
  moreover have "code c < 128" if "c \<in> set (show_int (int idx))" for c
    using show_int_chars [OF that] by (auto simp: is_digit_def code_def)
  then have "\<forall>c \<in> set (dumps_compact (JObj (idx_payload idx))). code c < 128"
    unfolding json quoted by (auto simp: code_def)
  ultimately have "length (encode (dumps_compact (JObj (idx_payload idx)))) \<le> 28"
    using encode_ascii [of "dumps_compact (JObj (idx_payload idx))"] unfolding json quoted by (simp add: show_int_def)
  then show "event_create_ok st benchmark_event (idx_payload idx)"
    using benchmark_texts(1) assms(2) by (simp add: event_create_ok_def) (simp add: benchmark_event_def ucode_def)
  show "event_storable benchmark_event (idx_payload idx) None"
    by (simp add: event_storable_def benchmark_event_def idx_payload_def ucode_def)
qed

text \<open>The new ids of the publishes, among themselves and against the tables.\<close>

definition fresh_slots :: "publish_one list \<Rightarrow> uuid \<Rightarrow> db \<Rightarrow> bool" where
  "fresh_slots xs e d \<longleftrightarrow> distinct (map (in_event_id \<circ> pb_io) xs) \<and> distinct (map (\<lambda>x. in_delivery_id (pb_io x) e) xs)
     \<and> list_all (\<lambda>x. in_event_id (pb_io x) \<notin> ev_id ` set (events d) \<and> in_delivery_id (pb_io x) e \<notin> dl_id ` set (deliveries d)
         \<and> pb_idx x < 10 ^ 20) xs"

lemma publish_all:
  assumes "signed_in key p d" "fan_out_targets p benchmark_event d = [e]" "p \<in> pj_id ` set (projects d)" "fresh_slots xs (ep_id e) d"
    and "28 \<le> max_event_payload_bytes st"
  shows "\<exists>d'. publish_events st jsonb key xs d = (0, d') \<and> signed_in key p d'
    \<and> events d' = events d @ map (\<lambda>x. new_event jsonb (pb_io x) p benchmark_event (idx_payload (pb_idx x)) None) xs
    \<and> deliveries d' = deliveries d @ map (\<lambda>x. new_delivery (pb_io x) e) xs"
  using assms(1-4)
proof (induction xs arbitrary: d)
  case (Cons x xs)
  have fresh: "in_event_id (pb_io x) \<notin> ev_id ` set (events d)" "in_delivery_id (pb_io x) (ep_id e) \<notin> dl_id ` set (deliveries d)" "pb_idx x < 10 ^ 20"
    using Cons.prems(4) by (simp_all add: fresh_slots_def)
  obtain d1 where one: "post_event st jsonb (pb_io x) (pb_now x) key benchmark_event (idx_payload (pb_idx x)) None d = (Inr (in_event_id (pb_io x), 1), d1)"
      "signed_in key p d1" "same_but_keys (stored jsonb (pb_io x) p benchmark_event (idx_payload (pb_idx x)) None e d) d1"
    by (rule event_posted [OF Cons.prems(1-3) fresh(1,2) _ idx_ok [OF fresh(3) assms(5)]]) simp
  have tables: "events d1 = events d @ [new_event jsonb (pb_io x) p benchmark_event (idx_payload (pb_idx x)) None]"
    "deliveries d1 = deliveries d @ [new_delivery (pb_io x) e]" "endpoints d1 = endpoints d" "projects d1 = projects d"
    using one(3) by (simp_all add: same_but_keys_def stored_tables)
  have "fresh_slots xs (ep_id e) d1"
    using Cons.prems(4) unfolding fresh_slots_def tables
    by (auto simp: list_all_iff) (auto simp: new_event_def new_delivery_def image_iff)
  moreover have "fan_out_targets p benchmark_event d1 = [e]"
    using Cons.prems(2) by (simp add: fan_out_targets_def tables)
  ultimately obtain d' where "publish_events st jsonb key xs d1 = (0, d')" "signed_in key p d'"
      "events d' = events d1 @ map (\<lambda>x. new_event jsonb (pb_io x) p benchmark_event (idx_payload (pb_idx x)) None) xs"
      "deliveries d' = deliveries d1 @ map (\<lambda>x. new_delivery (pb_io x) e) xs"
    using Cons.IH [OF one(2)] Cons.prems(3) by (auto simp: tables(4))
  then show ?case
    using one(1) by (simp add: tables)
qed simp

section \<open>Collecting\<close>

text \<open>What a poll needs of the tables: a good key, and deliveries that the paging loop can go through.\<close>

definition collectable :: "nat \<Rightarrow> string \<Rightarrow> uuid \<Rightarrow> db \<Rightarrow> bool" where
  "collectable fuel key p d \<longleftrightarrow> signed_in key p d \<and> distinct (map dl_id (deliveries d))
     \<and> list_all (\<lambda>x. time_in_range (dl_created_at x) \<and> time_in_range (dl_updated_at x)) (deliveries d) \<and> length (deliveries d) < fuel"

definition succeeded_count :: "uuid \<Rightarrow> db \<Rightarrow> nat" where
  "succeeded_count p d = length (filter (\<lambda>x. delivery_project d x = Some p \<and> dl_status x = Succeeded) (deliveries d))"

lemma same_count: "same_but_keys d d' \<Longrightarrow> succeeded_count p d' = succeeded_count p d"
  by (simp add: same_but_keys_def succeeded_count_def delivery_project_def find_event_def find_endpoint_def)

definition counted :: "uuid \<Rightarrow> delivery list \<Rightarrow> db \<Rightarrow> bool" where
  "counted p rows d \<longleftrightarrow> distinct rows \<and> length rows = succeeded_count p d
     \<and> set rows = {x \<in> set (deliveries d). delivery_project d x = Some p \<and> dl_status x = Succeeded}"

lemma poll_succeeded:
  assumes "collectable fuel key p d"
  obtains rows d' where "succeeded_items fuel tz now key d = Some (Inr (map delivery_view rows), d')" "collectable fuel key p d'"
    and "counted p rows d'"
proof -
  note use = authorized_signed_in [OF conjunct1 [OF assms [unfolded collectable_def]], of now]
  let ?d1 = "after_use key now d"
  have ok: "collectable fuel key p ?d1"
    using assms use(2,3) by (simp add: collectable_def same_but_keys_def)
  then have "distinct (map dl_id (deliveries ?d1))" "\<forall>x \<in> set (deliveries ?d1). time_in_range (dl_created_at x)" "length (deliveries ?d1) < fuel"
    by (simp_all add: collectable_def list_all_iff)
  then obtain rows where rows: "fetch_all_succeeded fuel tz p ?d1 = Some (Inr (map delivery_view rows))" "counted p rows ?d1"
    unfolding counted_def succeeded_count_def by (rule all_succeeded_fetched) blast
  then have "succeeded_items fuel tz now key d = Some (Inr (map delivery_view rows), ?d1)"
    by (simp add: succeeded_items_def use(1) raise_for_status_def)
  then show thesis
    using ok rows(2) by (rule that)
qed

text \<open>Every poll returns, and the wait ends with enough deliveries or with fewer than expected on the last poll.\<close>

lemma collected:
  assumes "collectable fuel key p d"
    and "\<forall>(now, others) \<in> set polls. \<forall>d. collectable fuel key p d \<longrightarrow> collectable fuel key p (others d)"
  obtains (all) rows d' where "collect_succeeded fuel tz key expected polls d = Some (Inr (map delivery_view rows), d')" "collectable fuel key p d'"
      "expected \<le> length rows" "counted p rows d'"
    | (timeout) d' where "collect_succeeded fuel tz key expected polls d = Some (Inl Timeout_error, d')" "collectable fuel key p d'"
      "polls = [] \<or> succeeded_count p d' < expected"
  using assms
proof (induction polls arbitrary: d thesis)
  case Nil
  then show ?case
    by simp
next
  case (Cons poll polls)
  obtain now others where poll: "poll = (now, others)"
    by fastforce
  have "collectable fuel key p (others d)"
    using Cons.prems(3,4) poll by auto
  then obtain rows d1 where one: "succeeded_items fuel tz now key (others d) = Some (Inr (map delivery_view rows), d1)" "collectable fuel key p d1"
      "counted p rows d1"
    by (rule poll_succeeded)
  show ?case
  proof (cases "expected \<le> length rows")
    case True
    then show ?thesis
      using one Cons.prems(1) [of rows d1] by (simp add: poll)
  next
    case False
    have step: "collect_succeeded fuel tz key expected (poll # polls) d = collect_succeeded fuel tz key expected polls d1"
      using one(1) False by (simp add: poll)
    show ?thesis
    proof (rule Cons.IH [OF _ _ one(2)])
      show "\<forall>(now, others) \<in> set polls. \<forall>d. collectable fuel key p d \<longrightarrow> collectable fuel key p (others d)"
        using Cons.prems(4) by simp
      show thesis if "collect_succeeded fuel tz key expected polls d1 = Some (Inr (map delivery_view rows'), d')" "collectable fuel key p d'"
          "expected \<le> length rows'" "counted p rows' d'" for rows' d'
        using Cons.prems(1) [of rows' d'] that step by simp
      show thesis if rest: "collect_succeeded fuel tz key expected polls d1 = Some (Inl Timeout_error, d')" "collectable fuel key p d'"
          "polls = [] \<or> succeeded_count p d' < expected" for d'
      proof -
        have "polls = [] \<Longrightarrow> succeeded_count p d' < expected"
          using rest(1) False one(3) by (simp add: counted_def)
        then show thesis
          using Cons.prems(2) [of d'] rest step by auto
      qed
    qed
  qed
qed

section \<open>Statistics\<close>

lemma samples_rendered:
  assumes "\<forall>t. time_in_range t \<longrightarrow> parse_iso (render t) = Inr t" "\<forall>x \<in> set rows. time_in_range (dl_created_at x) \<and> time_in_range (dl_updated_at x)"
  shows "latency_samples (map (\<lambda>r. (render (dr_created_at r), render (dr_updated_at r))) (map delivery_view rows))
    = Inr (map (\<lambda>x. of_int (dl_updated_at x - dl_created_at x) / 1000) (filter (\<lambda>x. dl_created_at x \<le> dl_updated_at x) rows))"
  using assms(2)
proof (induction rows)
  case (Cons x rows)
  have "(0 :: rat) \<le> of_int (dl_updated_at x - dl_created_at x) / 1000 \<longleftrightarrow> dl_created_at x \<le> dl_updated_at x"
    by (simp add: zero_le_divide_iff del: of_int_diff)
  then show ?case
    using Cons assms(1) by (simp add: delivery_view_def bind_exc_Inr Let_def del: of_int_diff)
qed simp

lemma stats_rendered:
  assumes "\<forall>t. time_in_range t \<longrightarrow> parse_iso (render t) = Inr t" "\<forall>x \<in> set rows. time_in_range (dl_created_at x) \<and> time_in_range (dl_updated_at x)"
  shows "case compute_latency_stats (map (\<lambda>r. (render (dr_created_at r), render (dr_updated_at r))) (map delivery_view rows)) of
      Inl e \<Rightarrow> (\<exists>msg. e = ValueError msg) \<and> (\<forall>x \<in> set rows. dl_updated_at x < dl_created_at x)
    | Inr s \<Rightarrow> lt_count s = length (filter (\<lambda>x. dl_created_at x \<le> dl_updated_at x) rows)"
  using samples_rendered [OF assms]
  by (auto simp: compute_latency_stats_def Let_def filter_empty_conv not_le)

section \<open>Properties\<close>

text \<open>Provisioning succeeds and every publish is accepted.\<close>

lemma benchmark_publishes_all:
  assumes "keys_ok d" "fks_ok d" "room_for_client su (setup_name su ''benchmark'') eo d" "0 \<le> su_time su" "su_time su < 10 ^ 20"
    and "guard_url url = Inr ()" "length url \<le> 2048" "CHR 0x00 \<notin> set url"
    and "fresh_slots xs (eo_id eo) d" "28 \<le> max_event_payload_bytes st"
  shows "\<exists>key d1 d2 new e. provision fenc st su eo url d = (Inr (key, su_project su), d1) \<and> publish_events st jsonb key xs d1 = (0, d2)
    \<and> signed_in key (su_project su) d2 \<and> events d2 = events d @ map (\<lambda>x. new_event jsonb (pb_io x) (su_project su) benchmark_event (idx_payload (pb_idx x)) None) xs
    \<and> deliveries d2 = deliveries d @ new \<and> map dl_event new = map (in_event_id \<circ> pb_io) xs
    \<and> (\<forall>x \<in> set new. dl_endpoint x = eo_id eo \<and> dl_status x = Pending \<and> dl_attempt_count x = 0)
    \<and> new = map (\<lambda>x. new_delivery (pb_io x) e) xs \<and> ep_id e = eo_id eo"
proof -
  have texts: "''bench'' \<noteq> []" "length ''bench'' \<le> 255" "CHR 0x00 \<notin> set ''bench''" "length ''benchmark'' \<le> 200" "CHR 0x00 \<notin> set ''benchmark''"
    by simp_all
  obtain key d1 r d2 e where one: "signed_up su (setup_name su ''benchmark'') ''bench'' d = (Inr (su_project su, key), d1)"
      "demo_create_endpoint fenc st eo key url [benchmark_event] d1 = (Inr r, d2)" "signed_in key (su_project su) d2"
      "fan_out_targets (su_project su) benchmark_event d2 = [e]" "ep_id e = eo_id eo" "su_project su \<in> pj_id ` set (projects d2)"
      "su_project su \<notin> ir_project ` set (idem_records d2)"
    and same: "events d2 = events d" "deliveries d2 = deliveries d" "attempts d2 = attempts d" "idem_records d2 = idem_records d"
    and registered: "find_endpoint (eo_id eo) d2 = Some e" "ep_project e = su_project su" "ep_url e = url"
    by (rule client_ready [OF assms(1-3) setup_name_ok [OF assms(4,5) texts(4,5)] texts(1-3) assms(6-8) benchmark_texts])
  have "fresh_slots xs (ep_id e) d2"
    using assms(9) one(5) same by (simp add: fresh_slots_def)
  then obtain d3 where "publish_events st jsonb key xs d2 = (0, d3)" "signed_in key (su_project su) d3"
      "events d3 = events d2 @ map (\<lambda>x. new_event jsonb (pb_io x) (su_project su) benchmark_event (idx_payload (pb_idx x)) None) xs"
      "deliveries d3 = deliveries d2 @ map (\<lambda>x. new_delivery (pb_io x) e) xs"
    using publish_all [OF one(3,4,6) _ assms(10)] by blast
  moreover have "provision fenc st su eo url d = (Inr (key, su_project su), d2)"
    by (simp add: provision_def done_with_def and_then_Inr one(1,2))
  moreover have "map dl_event (map (\<lambda>x. new_delivery (pb_io x) e) xs) = map (in_event_id \<circ> pb_io) xs"
    by (simp add: new_delivery_def)
  moreover have "\<forall>x \<in> set (map (\<lambda>x. new_delivery (pb_io x) e) xs). dl_endpoint x = eo_id eo \<and> dl_status x = Pending \<and> dl_attempt_count x = 0"
    using one(5) by (auto simp: new_delivery_def)
  ultimately show ?thesis
    unfolding same by (intro exI [of _ key] exI [of _ d2] exI [of _ d3] exI [of _ "map (\<lambda>x. new_delivery (pb_io x) e) xs"] exI [of _ e]) (simp add: one(5))
qed

definition sample_setup :: setup_io where
  "sample_setup = \<lparr> su_time = 1700000000, su_project = 1, su_key = 2, su_random = [7], su_now = 0, su_key_now = 1 \<rparr>"

definition sample_publishes :: "publish_one list" where
  "sample_publishes =
     [\<lparr> pb_io = sample_in, pb_now = 3, pb_idx = 1 \<rparr>,
      \<lparr> pb_io = sample_in\<lparr>in_event_id := 51, in_delivery_id := (\<lambda>i. i + 200), in_record_id := 71\<rparr>, pb_now = 4, pb_idx = 0 \<rparr>]"

definition bench_endpoint :: endpoint_io where
  "bench_endpoint = \<lparr> eo_id = 3, eo_secret = [1, 2], eo_fernet = [], eo_auth_now = 2, eo_now = 2 \<rparr>"

lemma sink_url_passes: "guard_url ''http://localhost:9000/'' = Inr ()"
proof -
  have "url_hostname ''http://localhost:9000/'' = Some ''localhost''" "ip_address ''localhost'' = None"
    by code_simp+
  then show ?thesis
    using validate_hostname by (simp add: guard_url_def)
qed

text \<open>C32: The benchmark ends, and its figures are about its own events. On every consistent platform with room for its rows the
  run provisions, all its publishes are accepted, and whatever the rest of the platform commits between the polls that keeps the key
  good and the table within the fuel of the paging loop, it returns: with statistics, and then at least as many deliveries of
  its project as it published have succeeded and the sample count is the number of those with a non-negative latency; with
  a timeout, and then fewer had succeeded at the last poll; or with ValueError, when no succeeded delivery has a
  non-negative latency, as when it is told to publish nothing.\<close>

theorem benchmark_outcome:
  assumes "keys_ok d" "fks_ok d" "room_for_client su (setup_name su ''benchmark'') eo d" "0 \<le> su_time su" "su_time su < 10 ^ 20"
    and "guard_url url = Inr ()" "length url \<le> 2048" "CHR 0x00 \<notin> set url"
    and "fresh_slots xs (eo_id eo) d" "28 \<le> max_event_payload_bytes st" "length (deliveries d) + length xs < fuel"
    and "\<forall>x \<in> set (deliveries d). time_in_range (dl_created_at x) \<and> time_in_range (dl_updated_at x)"
    and "\<forall>x \<in> set xs. time_in_range (in_created_at (pb_io x))" "\<forall>t. time_in_range t \<longrightarrow> parse_iso (render t) = Inr t"
    and "\<forall>(now, others) \<in> set polls. \<forall>key d. collectable fuel key (su_project su) d \<longrightarrow> collectable fuel key (su_project su) (others d)"
  shows "\<exists>r d'. run_benchmark fuel tz render fenc st jsonb su eo url xs polls True d = Some (r, d')
    \<and> (case r of
         Inr s \<Rightarrow> length xs \<le> succeeded_count (su_project su) d' \<and> lt_count s = card {x \<in> set (deliveries d').
             delivery_project d' x = Some (su_project su) \<and> dl_status x = Succeeded \<and> dl_created_at x \<le> dl_updated_at x}
       | Inl e \<Rightarrow> e = Timeout_error \<and> (polls = [] \<or> succeeded_count (su_project su) d' < length xs)
           \<or> (\<exists>msg. e = Raised (ValueError msg)) \<and> (\<forall>x \<in> set (deliveries d').
               delivery_project d' x = Some (su_project su) \<and> dl_status x = Succeeded \<longrightarrow> dl_updated_at x < dl_created_at x))"
proof -
  let ?p = "su_project su"
  obtain key d1 d2 e where run: "provision fenc st su eo url d = (Inr (key, ?p), d1)" "publish_events st jsonb key xs d1 = (0, d2)"
      "signed_in key ?p d2" "deliveries d2 = deliveries d @ map (\<lambda>x. new_delivery (pb_io x) e) xs" "ep_id e = eo_id eo"
    using benchmark_publishes_all [OF assms(1-10), of fenc jsonb] by blast
  have "distinct (map dl_id (deliveries d))"
    using assms(1) by (simp add: keys_ok_def delivery_table.keys_ok_def)
  moreover have "distinct (map (\<lambda>x. in_delivery_id (pb_io x) (ep_id e)) xs)" "\<forall>x \<in> set xs. in_delivery_id (pb_io x) (ep_id e) \<notin> dl_id ` set (deliveries d)"
    using assms(9) run(5) by (simp_all add: fresh_slots_def list_all_iff)
  moreover have "map dl_id (deliveries d2) = map dl_id (deliveries d) @ map (\<lambda>x. in_delivery_id (pb_io x) (ep_id e)) xs"
    by (simp add: run(4) new_delivery_def comp_def)
  ultimately have "distinct (map dl_id (deliveries d2))"
    by (simp add: disjoint_iff image_iff) metis
  moreover have "list_all (\<lambda>x. time_in_range (dl_created_at x) \<and> time_in_range (dl_updated_at x)) (deliveries d2)"
    using assms(12,13) by (auto simp: run(4) list_all_iff new_delivery_def)
  ultimately have "collectable fuel key ?p d2"
    using run(3) assms(11) by (simp add: collectable_def run(4))
  moreover have "\<forall>(now, others) \<in> set polls. \<forall>d. collectable fuel key ?p d \<longrightarrow> collectable fuel key ?p (others d)"
    using assms(15) by auto
  ultimately show ?thesis
  proof (cases rule: collected [of fuel key ?p d2 polls tz "length xs", consumes 2, case_names all timeout])
    case (all rows d')
    have rows: "\<forall>x \<in> set rows. time_in_range (dl_created_at x) \<and> time_in_range (dl_updated_at x)"
      using all(2,4) by (auto simp: collectable_def counted_def list_all_iff)
    have "length (filter (\<lambda>x. dl_created_at x \<le> dl_updated_at x) rows) = card {x \<in> set (deliveries d').
             delivery_project d' x = Some ?p \<and> dl_status x = Succeeded \<and> dl_created_at x \<le> dl_updated_at x}"
      using all(4) distinct_card [of "filter (\<lambda>x. dl_created_at x \<le> dl_updated_at x) rows"] by (auto simp: counted_def intro!: arg_cong [where f = card])
    then show ?thesis
      using stats_rendered [OF assms(14) rows] all(1,3,4)
      by (auto simp: run_benchmark_def run(1,2) counted_def split: sum.splits)
  next
    case (timeout d')
    then show ?thesis
      by (simp add: run_benchmark_def run(1,2))
  qed
qed

lemma parse_iso_isoformat: "time_in_range t \<Longrightarrow> parse_iso (isoformat t) = Inr t"
proof -
  assume "time_in_range t"
  moreover have "last (isoformat t) \<noteq> CHR ''Z''"
    by (simp add: isoformat_def Let_def split: prod.splits)
  ultimately show ?thesis
    by (simp add: parse_iso_def fromisoformat_isoformat)
qed

theorem benchmark_outcome_witness:
  "\<exists>r d'. run_benchmark 3 0 isoformat sample_enc default_settings id sample_setup bench_endpoint ''http://localhost:9000/'' sample_publishes
       [(7, id), (8, id)] True empty_db = Some (r, d')"
proof -
  have "room_for_client sample_setup (setup_name sample_setup ''benchmark'') bench_endpoint empty_db"
    by (simp add: room_for_client_def empty_db_def)
  moreover have "keys_ok empty_db" "fks_ok empty_db"
    by (simp_all add: keys_ok_def fks_ok_def project_table.keys_ok_def api_key_table.keys_ok_def
        endpoint_table.keys_ok_def event_table.keys_ok_def delivery_table.keys_ok_def idem_table.keys_ok_def empty_db_def)
  moreover have "fresh_slots sample_publishes (eo_id bench_endpoint) empty_db"
    by (simp add: fresh_slots_def sample_publishes_def sample_in_def bench_endpoint_def empty_db_def)
  moreover have "28 \<le> max_event_payload_bytes default_settings"
    by (simp add: default_settings_def)
  moreover have "su_time sample_setup = 1700000000"
    by (simp add: sample_setup_def)
  moreover have "deliveries empty_db = []" "length sample_publishes = 2"
    by (simp_all add: empty_db_def sample_publishes_def)
  moreover have "\<forall>x \<in> set sample_publishes. time_in_range (in_created_at (pb_io x))"
    by (simp add: sample_publishes_def sample_in_def time_in_range_def day_us_def)
  ultimately show ?thesis
    using benchmark_outcome [of empty_db sample_setup bench_endpoint "''http://localhost:9000/''" sample_publishes default_settings 3
        isoformat "[(7, id), (8, id)]" 0 sample_enc id] sink_url_passes parse_iso_isoformat
    by simp blast
qed

end
