(* ===== verification/Application.thy ===== *)
theory Application
  imports Watchdog Platform
begin

text \<open>
  The application around the routes: its start (\<^verbatim>\<open>app/main.py\<close>), the seeding command
  (\<^verbatim>\<open>app/seed_showcase.py\<close>) and the request ids of the log (\<^verbatim>\<open>app/middleware.py\<close>). The context variable
  of the middleware is state that a request sets and resets; each task has its own, so the requests of one context
  come one after the other.
\<close>

section \<open>Request ids\<close>

definition request_id_default :: string where
  "request_id_default = ''-''"

record log_record =
  lr_message :: string
  lr_request_id :: string

record http_answer =
  hr_status :: int
  hr_headers :: "string \<rightharpoonup> string"

text \<open>The filter of the log handler: a record carries the id its context holds.\<close>

definition request_id_filter :: "string \<Rightarrow> string \<Rightarrow> log_record" where
  "request_id_filter var msg = \<lparr> lr_message = msg, lr_request_id = var \<rparr>"

text \<open>What a handler does, as the middleware sees it: the messages it logs, and its answer or exception.\<close>

type_synonym handler = "string list \<times> (py_exc + http_answer)"

definition dispatch :: "uuid \<Rightarrow> handler \<Rightarrow> string \<Rightarrow> log_record list \<times> (py_exc + http_answer) \<times> string" where
  "dispatch fresh call_next token =
     (let request_id = show_uuid fresh;
          records = map (request_id_filter request_id) (fst call_next)
      in case snd call_next of
           Inl e \<Rightarrow> (records, Inl e, token)
         | Inr response \<Rightarrow> (records, Inr (response\<lparr>hr_headers := (hr_headers response)(''X-Request-ID'' \<mapsto> request_id)\<rparr>), token))"

fun serve :: "(uuid \<times> handler) list \<Rightarrow> string \<Rightarrow> log_record list \<times> (py_exc + http_answer) list \<times> string" where
  "serve [] var = ([], [], var)"
| "serve ((fresh, h) # rqs) var =
     (case dispatch fresh h var of (records, answer, var1) \<Rightarrow>
        (case serve rqs var1 of (rest, answers, var2) \<Rightarrow> (records @ rest, answer # answers, var2)))"

section \<open>Starting\<close>

text \<open>None is a database that cannot be reached. Whatever seeding raises is swallowed.\<close>

definition seed_showcase_best_effort :: "fernet_enc \<Rightarrow> settings \<Rightarrow> seed_io \<Rightarrow> db option \<Rightarrow> db option" where
  "seed_showcase_best_effort fenc st io d =
     (case d of None \<Rightarrow> None
      | Some d0 \<Rightarrow> (case seed_showcase fenc st io d0 of Inl e \<Rightarrow> Some d0 | Inr (h, d') \<Rightarrow> Some d'))"

definition seed_command :: "fernet_enc \<Rightarrow> settings \<Rightarrow> seed_io \<Rightarrow> db \<Rightarrow> (py_exc + showcase_handles) \<times> db" where
  "seed_command fenc st io d = or_rollback d (seed_showcase fenc st io d)"

text \<open>The application is created, which seeds, and then its lifespan begins, which wakes the machines.\<close>

definition start_app ::
  "fernet_enc \<Rightarrow> (json \<Rightarrow> utext) \<Rightarrow> settings \<Rightarrow> seed_io \<Rightarrow> (string \<Rightarrow> producer_reply) \<Rightarrow> db option
    \<Rightarrow> db option \<times> utext list \<times> (py_exc + unit)" where
  "start_app fenc rp st io listing d =
     (let d' = seed_showcase_best_effort fenc st io d
      in if fly_configured st then (d', wake_showcase_machines rp st listing) else (d', [], Inr ()))"

section \<open>Facts\<close>

definition logged :: "uuid \<Rightarrow> string list \<Rightarrow> log_record list" where
  "logged u msgs = map (request_id_filter (show_uuid u)) msgs"

definition stamped :: "uuid \<Rightarrow> py_exc + http_answer \<Rightarrow> py_exc + http_answer" where
  "stamped u res = map_sum id (\<lambda>a. a\<lparr>hr_headers := (hr_headers a)(''X-Request-ID'' \<mapsto> show_uuid u)\<rparr>) res"

lemma dispatch_Pair:
  "dispatch u (msgs, res) var
    = (logged u msgs, stamped u res, var)"
  by (simp add: dispatch_def logged_def stamped_def Let_def split: sum.split)

lemma serve_shape:
  "serve rqs var = (concat (map (\<lambda>(u, msgs, res). logged u msgs) rqs),
     map (\<lambda>(u, msgs, res). stamped u res) rqs, var)"
  by (induction rqs) (auto simp: dispatch_Pair)

lemma show_uuid_inject: "show_uuid u = show_uuid v \<longleftrightarrow> u = v"
  by (metis option.inject parse_show_uuid)

lemma logged_of:
  "filter (\<lambda>r. lr_request_id r = show_uuid u) (logged v msgs) = (if u = v then logged v msgs else [])"
  "map lr_message (logged v msgs) = msgs"
  by (auto simp: logged_def request_id_filter_def filter_map comp_def show_uuid_inject)

lemma logged_all:
  assumes "distinct (map fst rqs)" "(u, msgs, res) \<in> set rqs"
  shows "map lr_message (filter (\<lambda>r. lr_request_id r = show_uuid u) (concat (map (\<lambda>(u, msgs, res). logged u msgs) rqs))) = msgs"
  using assms
proof (induction rqs)
  case (Cons rq rqs)
  obtain v msgs' res' where rq: "rq = (v, msgs', res')"
    by (cases rq)
  have none: "filter (\<lambda>r. lr_request_id r = show_uuid w) (concat (map (\<lambda>(u, msgs, res). logged u msgs) qs)) = []"
    if "w \<notin> fst ` set qs" for w qs
    using that by (induction qs) (auto simp: logged_of)
  show ?case
    using Cons rq none [of v rqs] by (auto simp: logged_of intro: rev_image_eqI)
qed simp

lemma best_effort_spec:
  assumes "distinct (map ep_id (endpoints d))"
  obtains (skipped) e where "seed_showcase fenc st io d = Inl e" "seed_showcase_best_effort fenc st io (Some d) = Some d"
    | (seeded) h d' where "seed_showcase fenc st io d = Inr (h, d')" "seed_showcase_best_effort fenc st io (Some d) = Some d'"
        "\<forall>io'. seed_showcase_best_effort fenc st io' (Some d') = Some d'"
proof (cases "seed_showcase fenc st io d")
  case (Inl e)
  then show thesis
    by (intro skipped) (simp_all add: seed_showcase_best_effort_def)
next
  case (Inr r)
  obtain h d' where r: "r = (h, d')"
    by fastforce
  have "seed_showcase fenc st io' d' = Inr (h, d')" for io'
    using seeded_again [OF seed_showcase_seeded] Inr r assms by blast
  then show thesis
    using Inr r by (intro seeded [of h d']) (simp_all add: seed_showcase_best_effort_def)
qed

section \<open>Properties\<close>



text \<open>C33: Starting never loses the database and does not depend on it: whether it can be reached or seeding fails, the
  application starts or not by the machines alone, always when no machines are configured or the API's listings fail, and it never
  reports an error of the database; seeding leaves the platform's invariants as they were, and once it has gone through,
  every later start leaves the database alone.\<close>

theorem start_outcome:
  assumes "platform_ok d" "distinct (map ep_id (endpoints d))"
  shows "snd (start_app fenc rp st io listing (Some d)) = snd (start_app fenc rp st io listing None)
    \<and> (\<not> fly_configured st \<or> reply_doc (listing ''producer'') = None \<and> reply_doc (listing ''worker'') = None
        \<longrightarrow> start_app fenc rp st io listing None = (None, [], Inr ()))
    \<and> (\<exists>d'. fst (start_app fenc rp st io listing (Some d)) = Some d' \<and> platform_ok d'
        \<and> (d' = d \<or> (\<exists>h. seed_showcase fenc st io d = Inr (h, d'))
            \<and> (\<forall>io' listing'. fst (start_app fenc rp st io' listing' (Some d')) = Some d')))"
proof -
  have db: "fst (start_app fenc rp st i l x) = seed_showcase_best_effort fenc st i x" for i l x
    by (simp add: start_app_def Let_def)
  have "snd (start_app fenc rp st io listing (Some d)) = snd (start_app fenc rp st io listing None)"
    by (simp add: start_app_def Let_def)
  moreover have "start_app fenc rp st io listing None = (None, [], Inr ())"
    if "\<not> fly_configured st \<or> reply_doc (listing ''producer'') = None \<and> reply_doc (listing ''worker'') = None"
    using that failing_api_starts(1) by (auto simp: start_app_def seed_showcase_best_effort_def Let_def)
  moreover have "\<exists>d'. seed_showcase_best_effort fenc st io (Some d) = Some d' \<and> platform_ok d'
        \<and> (d' = d \<or> (\<exists>h. seed_showcase fenc st io d = Inr (h, d'))
            \<and> (\<forall>io'. seed_showcase_best_effort fenc st io' (Some d') = Some d'))"
    using assms(2)
  proof (cases rule: best_effort_spec [of d fenc st io, consumes 1, case_names skipped seeded])
    case skipped
    then show ?thesis
      using assms(1) by blast
  next
    case (seeded h d')
    then show ?thesis
      using same_pipeline_ok [OF seed_pipeline assms(1)] by blast
  qed
  ultimately show ?thesis
    by (simp add: db)
qed

theorem start_outcome_witness:
  "\<exists>d'. start_app sample_enc (\<lambda>_. []) default_settings sample_seed (\<lambda>_. Reply 200 Not_json) (Some empty_db) = (Some d', [], Inr ())
     \<and> platform_ok d'
     \<and> fst (start_app sample_enc (\<lambda>_. []) default_settings (sample_seed\<lparr>sd_project := 2\<rparr>) (\<lambda>_. Reply 200 Not_json) (Some d')) = Some d'"
proof -
  have ok: "platform_ok empty_db" "distinct (map ep_id (endpoints empty_db))"
    using platform.inv_init by (auto simp: fresh_platform_def) (simp add: empty_db_def)
  note start = start_outcome [OF ok, of sample_enc "\<lambda>_. []" default_settings sample_seed "\<lambda>_. Reply 200 Not_json"]
  obtain h d' where d': "seed_showcase sample_enc default_settings sample_seed empty_db = Inr (h, d')"
    using sample_seeding by blast
  have "\<not> fly_configured default_settings"
    by (simp add: fly_configured_def default_settings_def)
  then have snd: "snd (start_app sample_enc (\<lambda>_. []) default_settings sample_seed (\<lambda>_. Reply 200 Not_json) (Some empty_db)) = ([], Inr ())"
    using start by simp
  have "fst (start_app sample_enc (\<lambda>_. []) default_settings sample_seed (\<lambda>_. Reply 200 Not_json) (Some empty_db)) = Some d'"
    using d' by (simp add: start_app_def seed_showcase_best_effort_def Let_def)
  moreover have "seed_showcase sample_enc default_settings (sample_seed\<lparr>sd_project := 2\<rparr>) d' = Inr (h, d')"
    using seeded_again [OF seed_showcase_seeded [OF d' ok(2)]] .
  ultimately show ?thesis
    using start snd by (intro exI [of _ d'] conjI) (auto intro: prod_eqI simp: start_app_def seed_showcase_best_effort_def Let_def)
qed

end
