(* ===== verification/Sha256_Vector.thy ===== *)
theory Sha256_Vector
  imports Sha256
begin

text \<open>
  The digest of \<^verbatim>\<open>abc\<close> published with the standard (FIPS 180-4), computed from the definitions of \<^verbatim>\<open>Sha256\<close>: a
  check that they are the function \<^verbatim>\<open>hashlib.sha256\<close> computes. It is a theory of its own because evaluating 64
  rounds on words takes minutes.
\<close>

lemma sha256_abc:
  "sha256_hexdigest (map (word_of_nat \<circ> of_char) ''abc'') = ''ba7816bf8f01cfea414140de5dae2223b00361a396177a9cb410ff61f20015ad''"
  by code_simp

end
