(* ===== verification/Spec2Isabelle.thy ===== *)
theory Spec2Isabelle
  imports Worker_Progress Demo_Runs Watchdog Receivers Migrations Producer Demo_Events Benchmark Application Sha256_Vector
begin

text \<open>
  HookIt, a webhook delivery platform: the verification library of \<^verbatim>\<open>src/app\<close>.

  The program. A project publishes an event over the API; the event is stored once, whatever the retries
  of the publisher, and fans out to one delivery for each matching endpoint. Workers claim due deliveries,
  send each as a signed HTTP request and settle it: succeeded, due again after a backoff, or dead-lettered
  at the attempt limit, from where it can be redriven. Endpoints, keys, events, deliveries and metrics are
  read through list and detail routes. A public demo runs on the same engine: a switchable receiver and two
  banks, one naive and one safe, whose balances are reconciled against the event log.

  Foundations. \<^verbatim>\<open>Prelude\<close>: basic types, exceptions, rows by primary key, and the locales \<open>table\<close> and
  \<open>invariant_system\<close>. \<^verbatim>\<open>Py_Strings\<close>, \<^verbatim>\<open>Uuids\<close>, \<^verbatim>\<open>Base64\<close>, \<^verbatim>\<open>Sha256\<close>, \<^verbatim>\<open>Json\<close>, \<^verbatim>\<open>Datetime\<close>,
  \<^verbatim>\<open>Isoparse\<close>, \<^verbatim>\<open>Urls\<close>, \<^verbatim>\<open>Decimals\<close>, \<^verbatim>\<open>Decimal_Arith\<close>: what the code uses of Python's library, with round trips (integers, UUIDs,
  timestamps, cursors, decimals). \<^verbatim>\<open>Config\<close> is \<^verbatim>\<open>core/config.py\<close>. \<^verbatim>\<open>Models\<close> is \<^verbatim>\<open>app/models\<close>: one record per
  table, the database as a record of row lists, every table an instance of the locale \<open>table\<close>. \<^verbatim>\<open>Schema\<close> is the
  data definition language the migrations use, with the checks PostgreSQL makes, and \<^verbatim>\<open>Migrations\<close> the twelve
  revisions under \<^verbatim>\<open>migrations/versions\<close>: run in order they build the tables the models declare, and each
  downgrade undoes its upgrade.

  Sending. \<^verbatim>\<open>Backoff\<close> (\<^verbatim>\<open>worker/backoff.py\<close>), \<^verbatim>\<open>Crypto\<close> (\<^verbatim>\<open>services/crypto.py\<close> and the key helpers of
  \<^verbatim>\<open>models/api_key.py\<close>), \<^verbatim>\<open>Signing\<close> (\<^verbatim>\<open>worker/signing.py\<close> and \<^verbatim>\<open>tools/demo_receiver.py\<close>, both verifiers instances of the locale
  \<open>signature_scheme\<close>), \<^verbatim>\<open>Ssrf\<close> (\<^verbatim>\<open>services/ssrf.py\<close>), \<^verbatim>\<open>Transform\<close> (\<^verbatim>\<open>services/transform.py\<close>). \<^verbatim>\<open>Worker\<close> has
  the definitions of \<^verbatim>\<open>worker/delivery_worker.py\<close> and the tick of \<^verbatim>\<open>worker/__main__.py\<close>; \<^verbatim>\<open>Worker_Attempt\<close> shows what
  one attempt does, \<^verbatim>\<open>Worker_Batch\<close> and \<^verbatim>\<open>Worker_Tick\<close> what a batch and a tick do, \<^verbatim>\<open>Worker_Progress\<close> that
  the queue drains and when it does not. \<^verbatim>\<open>Samples\<close> is the small world the concrete instances live in.

  The API. \<^verbatim>\<open>Ingestion\<close> (\<^verbatim>\<open>services/event_ingestion.py\<close>), \<^verbatim>\<open>Pagination\<close> (\<^verbatim>\<open>routers/_pagination.py\<close> and the paging
  block of the list routes; the locale \<open>paged\<close> is interpreted for deliveries and events), \<^verbatim>\<open>Projects\<close> (projects,
  API keys, authentication), \<^verbatim>\<open>Endpoints\<close>, \<^verbatim>\<open>Deliveries\<close>, \<^verbatim>\<open>Events\<close>, \<^verbatim>\<open>Metrics\<close>: the routers and schemas of these names.

  The demo. \<^verbatim>\<open>Inbox\<close>, \<^verbatim>\<open>Showcase\<close>, \<^verbatim>\<open>Fast_Forward\<close> (\<^verbatim>\<open>services/showcase.py\<close>), \<^verbatim>\<open>Showcase_Routes\<close>
  (\<^verbatim>\<open>routers/showcase.py\<close>, \<^verbatim>\<open>schemas/showcase.py\<close>), \<^verbatim>\<open>Ledger\<close>, \<^verbatim>\<open>Reconcile\<close> (\<^verbatim>\<open>services/showcase_ledger.py\<close>),
  \<^verbatim>\<open>Banks\<close> (\<^verbatim>\<open>routers/showcase_ledger.py\<close>). \<^verbatim>\<open>Platform\<close> puts the transactions of all parts into one transition
  system and instantiates \<open>invariant_system\<close> with it; \<^verbatim>\<open>Lifecycle\<close> states what it promises about one delivery as a
  machine of four transitions and shows, through the locale \<open>refined_system\<close>, that every run of the platform is for each
  delivery a run of that machine.

  Around the platform. \<^verbatim>\<open>Receivers\<close> (\<^verbatim>\<open>tools/demo_receiver.py\<close>, \<^verbatim>\<open>tools/configurable_receiver.py\<close>): the local
  receivers, and what a worker's attempts against one that fails a given number of times come to. \<^verbatim>\<open>Watchdog\<close>
  (\<^verbatim>\<open>services/idle_watchdog.py\<close>, \<^verbatim>\<open>services/fly_machines.py\<close>): stopping the demo's machines when nobody visits.
  \<^verbatim>\<open>Prices\<close>, \<^verbatim>\<open>Trades\<close>, \<^verbatim>\<open>Producer\<close> (\<^verbatim>\<open>src/producer\<close>): the price tracker, the trade generator, the two loops and the
  control routes that feed the demo; its trades are shown to be counted alike by the banks and the event log.
  \<^verbatim>\<open>Demo_Events\<close> (\<^verbatim>\<open>services/demo_events.py\<close>): sample events and their schemas. \<^verbatim>\<open>Demo_Client\<close> (\<^verbatim>\<open>demo/_shared.py\<close>): the
  API client of the scripts. \<^verbatim>\<open>Demo_Scenarios\<close> (\<^verbatim>\<open>demo/scenario_3_idempotency.py\<close>): a script that runs through
  project, key, endpoint, publishing, replay, inspection and conflict, shown to pass on every platform. \<^verbatim>\<open>Demo_Worker\<close> and
  \<^verbatim>\<open>Demo_Runs\<close> (scenarios 1, 2 and 4): the scripts that watch a worker. Between any two of their requests any number of
  ticks may commit, roll back or be killed; the assertion \<open>story\<close> about the script's delivery is stable under them, and
  with it each script is shown to pass or to run out of time, and to fail no check.
  \<^verbatim>\<open>Benchmark\<close> (\<^verbatim>\<open>benchmark/runner.py\<close>, \<^verbatim>\<open>benchmark/__main__.py\<close>): the load generator as a client, from provisioning to the
  statistics; all its events are stored, its wait ends, and its figures count its own deliveries. \<^verbatim>\<open>Application\<close>
  (\<^verbatim>\<open>app/main.py\<close>, \<^verbatim>\<open>app/middleware.py\<close>, \<^verbatim>\<open>app/seed_showcase.py\<close>): the start, which seeds the demo and wakes its
  machines, the seeding command, and the request ids of the log.
  \<^verbatim>\<open>Sha256_Vector\<close> runs the hash on a published test vector.

  Conventions. A definition has the name of the function it models. A route or service takes the database and
  returns the answer or the exception together with the database it leaves; where the code reads without a lock
  and writes later, the read and the write get two databases, so concurrent commits in between are covered. Clock
  readings, random values, new UUIDs and answers of the network are arguments, bundled in records named \<open>..._io\<close>.
  Exceptions are values of \<open>py_exc\<close> in a sum type. Text is a \<^typ>\<open>string\<close> where it is ASCII and a list of code points where
  any Unicode can flow; UUIDs are 128-bit words, hashes are computed on 32-bit words and bytes, Python integers
  are unbounded.

  Parameters, for code that is not under \<^verbatim>\<open>src\<close> or not computable from it: Fernet encryption and decryption (\<open>fernet_ok\<close>:
  decryption inverts encryption), \<open>jsonb\<close> (what PostgreSQL gives back for a stored document), \<open>jtext\<close> and
  \<open>tmax\<close> (its text of a JSON value, its maximum of texts under the collation), \<open>pct\<close> (its percentile), \<open>tz\<close> (the session's time
  zone), \<open>rp\<close> (\<^verbatim>\<open>str\<close> of a list or dict), \<open>trunc\<close> (the integer part of a float) and \<open>validate\<close> (the schema library).

  Abstractions. Floats are rationals; the floats the code compares and multiplies by powers of two are exact, and where
  overflow raises it is modelled (\<^verbatim>\<open>2 ** 1024\<close> in the backoff). Datetimes are unbounded microseconds; where the
  range matters it is a hypothesis. Among rows with equal sort keys the model takes one order the database may
  choose. Decimal arithmetic is that of the default context, exponents within its
  limits. A transaction is one step: the row locks and the unique constraints the code relies on make that a
  serialisation, except where the model splits it (ingestion, redrive, the naive bank's read and write).

  Bounds and fuel. \<open>fetch_all\<close>, the benchmark's paging client, has fuel; more fuel than rows is shown to be enough. Every
  other recursion is structural or has a measure.

  Not modelled. What is logged beyond the request ids, the endless loops of the worker and the watchdog around their ticks (the producer's are lists of
  rounds), the LISTEN connection beyond its being up or down, the framework's wiring of the routes,
  its connection pool and its conversion of requests and answers, the Prometheus text, starting and stopping processes and printing (the demo
  scripts, the benchmark's servers) and the static page.
\<close>

end
